theory Spec2Isabelle
  imports Complex_Main "HOL-Library.Log_Nat"
begin

section \<open>Data model\<close>

text \<open>
  The repository is a set of mongoose models. A collection is a list of documents, a
  document is a record, an ObjectId is a natural number, a Date is its millisecond
  timestamp (\<open>Date.getTime()\<close>). A JavaScript Number that holds money or a quantity is
  a double (next section), and the arithmetic of the hooks (\<open>+\<close>, \<open>-\<close>, \<open>*\<close>,
  \<open>/ 100\<close>, \<open>Math.min\<close>, \<open><\<close>) is the arithmetic of doubles. Counters and capacities
  (\<open>currentUses\<close>, \<open>maxUses\<close>, \<open>minPreviousOrders\<close>, \<open>capacity\<close>) are whole numbers.
  A thrown error is the left summand of a sum type.

  Fields that no modelled function reads or writes (\<open>paymentMethod\<close>, \<open>notes\<close>,
  \<open>checkInTime\<close>, \<open>qrCode\<close>, timestamps, virtuals, names and descriptions) are left
  out of the records. A document that a caller hands over holds its strings as the
  schema setters leave them (\<open>trim\<close>, \<open>uppercase\<close>); where a hook assigns new
  strings, the seat map of a room, the setters are applied in the model.
\<close>

type_synonym oid = nat
type_synonym time = int

section \<open>JavaScript Numbers\<close>

text \<open>
  A JavaScript Number is an IEEE 754 double: a finite value, one of the two infinities,
  or NaN. A finite value is carried as the rational it denotes; the two zeros are one
  value (no modelled function divides by a variable or tells them apart). Every
  arithmetic operation rounds its exact result to the nearest double, ties to the even
  significand: \<open>round53\<close> rounds to 53 significant bits, with the unit in the last place
  fixed at \<open>2^-1074\<close> in the subnormal range and with overflow to an infinity.
\<close>

datatype jsnum = Fin rat | PInf | NInf | NaN

definition roundHalfEven :: "rat \<Rightarrow> int" where
  "roundHalfEven q =
     (let f = \<lfloor>q\<rfloor>; r = q - of_int f
      in if r < 1 / 2 then f else if 1 / 2 < r then f + 1 else if even f then f else f + 1)"

text \<open>The exponent \<open>e\<close> with \<open>2^e \<le> x < 2^(e+1)\<close>, for \<open>x > 0\<close>.\<close>

definition floorLog2 :: "rat \<Rightarrow> int" where
  "floorLog2 x =
     (if 1 \<le> x then int (floorlog 2 (nat \<lfloor>x\<rfloor>)) - 1
      else - int (floorlog 2 (nat \<lceil>1 / x\<rceil> - 1)))"

definition ulpExponent :: "rat \<Rightarrow> int" where
  "ulpExponent x = max (floorLog2 \<bar>x\<bar>) (- 1022) - 52"

definition round53 :: "rat \<Rightarrow> jsnum" where
  "round53 x =
     (if x = 0 then Fin 0
      else
        let u = 2 powi ulpExponent x;
            y = of_int (roundHalfEven (x / u)) * u
        in if 2 ^ 1024 \<le> y then PInf else if y \<le> - (2 ^ 1024) then NInf else Fin y)"

fun jneg :: "jsnum \<Rightarrow> jsnum" where
  "jneg (Fin a) = Fin (- a)"
| "jneg PInf = NInf"
| "jneg NInf = PInf"
| "jneg NaN = NaN"

text \<open>
  \<open>a + b\<close>, \<open>a - b\<close>, \<open>a * b\<close> and \<open>a / 100\<close>. A product with an infinite factor
  is infinite with the product of the signs, and NaN when the other factor is 0.
\<close>

fun jadd :: "jsnum \<Rightarrow> jsnum \<Rightarrow> jsnum" where
  "jadd (Fin a) (Fin b) = round53 (a + b)"
| "jadd NaN b = NaN"
| "jadd a NaN = NaN"
| "jadd PInf NInf = NaN"
| "jadd NInf PInf = NaN"
| "jadd PInf b = PInf"
| "jadd NInf b = NInf"
| "jadd a PInf = PInf"
| "jadd a NInf = NInf"

definition jsub :: "jsnum \<Rightarrow> jsnum \<Rightarrow> jsnum" where
  "jsub a b = jadd a (jneg b)"

text \<open>The sign of a Number: 1, 0 or -1; NaN has none.\<close>

fun jsign :: "jsnum \<Rightarrow> int option" where
  "jsign (Fin a) = Some (if a < 0 then - 1 else if a = 0 then 0 else 1)"
| "jsign PInf = Some 1"
| "jsign NInf = Some (- 1)"
| "jsign NaN = None"

fun jmul :: "jsnum \<Rightarrow> jsnum \<Rightarrow> jsnum" where
  "jmul (Fin a) (Fin b) = round53 (a * b)"
| "jmul a b =
     (case (jsign a, jsign b) of
        (Some s, Some t) \<Rightarrow> if s * t = 0 then NaN else if 0 < s * t then PInf else NInf
      | _ \<Rightarrow> NaN)"

fun jdiv100 :: "jsnum \<Rightarrow> jsnum" where
  "jdiv100 (Fin a) = round53 (a / 100)"
| "jdiv100 a = a"

text \<open>\<open>a < b\<close> and \<open>a <= b\<close>: false as soon as one side is NaN.\<close>

fun jless :: "jsnum \<Rightarrow> jsnum \<Rightarrow> bool" where
  "jless NaN b = False"
| "jless a NaN = False"
| "jless (Fin a) (Fin b) = (a < b)"
| "jless a NInf = False"
| "jless PInf b = False"
| "jless NInf b = True"
| "jless a PInf = True"

definition jle :: "jsnum \<Rightarrow> jsnum \<Rightarrow> bool" where
  "jle a b = (a \<noteq> NaN \<and> b \<noteq> NaN \<and> (a = b \<or> jless a b))"

text \<open>\<open>Math.min(a, b)\<close>: NaN as soon as one argument is NaN.\<close>

definition jmin :: "jsnum \<Rightarrow> jsnum \<Rightarrow> jsnum" where
  "jmin a b = (if a = NaN \<or> b = NaN then NaN else if jless b a then b else a)"

text \<open>Truthiness of a Number: every value but 0 and NaN.\<close>

definition jtruthy :: "jsnum \<Rightarrow> bool" where
  "jtruthy a = (a \<noteq> Fin 0 \<and> a \<noteq> NaN)"

section \<open>Documents\<close>

type_synonym number = jsnum

datatype seat_type = Standard | Vip

datatype discount_type = Percent | Fixed

datatype ticket_status = Pending | Paid | Cancelled | Refunded

text \<open>
  Payment.status has the enum \<open>pending, success, failed, refunded\<close>;
  Ticket.paymentStatus has the enum \<open>pending, completed, failed, refunded\<close>. The
  payment hook assigns the first to the second, so one type holds both and each schema
  validates its own enum.
\<close>

datatype pay_status = PsPending | PsSuccess | PsCompleted | PsFailed | PsRefunded

datatype schedule_status = Scheduled | ScCancelled | Completed

datatype error =
    ValidationError
  | DuplicateKey
  | DocumentNotFound
  | ScheduleNotFound
  | AlreadyCancelled
  | MovieNotFound
  | RoomConflict
  | PromotionNotFound
  | PromotionExhausted
  | BelowMinimumOrder
  | NotApplicable
  | NotEligible
  | UsageLimitReached

record ticket_seat =
  ts_code :: string
  ts_type :: seat_type
  ts_price :: number

record combo_item =
  ci_name :: string
  ci_qty :: number
  ci_price :: number

record voucher =
  vc_code :: "string option"
  vc_discountValue :: "number option"
  vc_discountType :: "discount_type option"
  vc_maxDiscount :: "number option"

record ticket =
  tk_id :: oid
  tk_userId :: oid
  tk_scheduleId :: oid
  tk_roomId :: oid
  tk_seats :: "ticket_seat list"
  tk_combos :: "combo_item list"
  tk_voucher :: voucher
  tk_subtotal :: number
  tk_discount :: number
  tk_totalAmount :: number
  tk_status :: ticket_status
  tk_paymentStatus :: pay_status
  tk_cancellationReason :: "string option"
  tk_cancelledBy :: "oid option"
  tk_cancelledAt :: "time option"
  tk_pendingExpiresAt :: time

text \<open>The paths of a ticket that \<open>isModified\<close> is asked about, or that a method sets.\<close>

datatype ticket_path =
  PSeats | PCombos | PVoucher | PStatus | PPaymentStatus | PCancellation

section \<open>Ticket: the pricing hook\<close>

text \<open>
  \<open>ticketSchema.pre('save')\<close>, Ticket.js lines 185-210. \<open>this.voucher\<close> is a nested
  path and always an object; its fields may be undefined. An optional Number is
  truthy when it is defined and truthy as a Number. A discount type other than
  \<open>'percent'\<close> (also an undefined one) takes the \<open>else\<close> branch. Both \<open>reduce\<close> calls
  start from 0 and add from left to right. The three assignments store the Numbers as
  they are computed. (The cast of a Number path does not accept NaN, a value that the
  hook computes from an infinite operand only; the statements about the stored sums
  are made for finite values.)
\<close>

definition pricingHook :: "bool \<Rightarrow> ticket_path list \<Rightarrow> ticket \<Rightarrow> ticket" where
  "pricingHook isNew modified t =
     (if isNew \<or> PSeats \<in> set modified \<or> PCombos \<in> set modified \<or> PVoucher \<in> set modified
      then
        let seatTotal = foldl (\<lambda>sum seat. jadd sum (ts_price seat)) (Fin 0) (tk_seats t);
            comboTotal = foldl (\<lambda>sum combo. jadd sum (jmul (ci_price combo) (ci_qty combo)))
                           (Fin 0) (tk_combos t);
            subtotal = jadd seatTotal comboTotal;
            discount =
              (case vc_discountValue (tk_voucher t) of
                 None \<Rightarrow> Fin 0
               | Some v \<Rightarrow>
                   if \<not> jtruthy v then Fin 0
                   else if vc_discountType (tk_voucher t) = Some Percent then
                     (let d = jdiv100 (jmul subtotal v)
                      in case vc_maxDiscount (tk_voucher t) of
                           None \<Rightarrow> d
                         | Some m \<Rightarrow> if jtruthy m \<and> jless m d then m else d)
                   else jmin v subtotal)
        in t\<lparr>tk_subtotal := subtotal, tk_discount := discount,
              tk_totalAmount := jsub subtotal discount\<rparr>
      else t)"

text \<open>
  The schema validators of a ticket, as far as the record has the paths. Mongoose runs
  them on every \<open>save()\<close>, before the \<open>pre('save')\<close> hooks of the schema. The validator
  \<open>min: 0\<close> is \<open>0 <= v\<close>.
\<close>

definition validateTicket :: "ticket \<Rightarrow> bool" where
  "validateTicket t =
     ((\<forall>s \<in> set (tk_seats t). ts_code s \<noteq> [] \<and> jle (Fin 0) (ts_price s)) \<and>
      (\<forall>c \<in> set (tk_combos t). ci_name c \<noteq> [] \<and> jle (Fin 1) (ci_qty c) \<and>
                                 jle (Fin 0) (ci_price c)) \<and>
      (case vc_discountValue (tk_voucher t) of None \<Rightarrow> True | Some v \<Rightarrow> jle (Fin 0) v) \<and>
      jle (Fin 0) (tk_subtotal t) \<and> jle (Fin 0) (tk_discount t) \<and>
      jle (Fin 0) (tk_totalAmount t) \<and>
      tk_paymentStatus t \<in> {PsPending, PsCompleted, PsFailed, PsRefunded} \<and>
      (case tk_cancellationReason t of None \<Rightarrow> True | Some r \<Rightarrow> length r \<le> 500))"

section \<open>Schedules, rooms and the database\<close>

record price_table =
  pt_standard :: number
  pt_vip :: number
  pt_earlyBirdDiscount :: number
  pt_earlyBirdEndTime :: "time option"

record schedule =
  sc_id :: oid
  sc_movieId :: oid
  sc_roomId :: oid
  sc_startTime :: time
  sc_endTime :: time
  sc_priceTable :: price_table
  sc_status :: schedule_status
  sc_isFull :: bool

datatype schedule_path =
  PStartTime | PEndTime | PMovieId | PRoomId | PPriceTable | PScStatus | PIsFull

datatype seat_status = Available | Maintenance

record room_seat =
  rs_code :: string
  rs_type :: seat_type
  rs_status :: seat_status
  rs_row :: nat
  rs_column :: nat

record room =
  rm_id :: oid
  rm_capacity :: nat
  rm_seats :: "room_seat list"

text \<open>
  An optional path whose value may be absent (\<open>undefined\<close>), \<open>null\<close>, or a value: the
  paths for which the code tells \<open>undefined\<close> from \<open>null\<close>.
\<close>

datatype 'a nullable = Undefined | Null | Value 'a

record usage_restrictions =
  ur_onePerUser :: bool
  ur_firstTimeUserOnly :: bool
  ur_minPreviousOrders :: int

record promotion =
  pr_id :: oid
  pr_code :: string
  pr_type :: discount_type
  pr_value :: number
  pr_maxDiscount :: "number option"
  pr_minOrderAmount :: number
  pr_startDate :: time
  pr_endDate :: time
  pr_maxUses :: "int nullable"
  pr_currentUses :: int
  pr_isActive :: bool
  pr_movies :: "oid list"
  pr_categories :: "string list"
  pr_restrictions :: usage_restrictions

text \<open>
  The Movie model is not among the sources; the schedule hook reads only
  \<open>movie.duration\<close> (minutes), so the Movie collection is a map from ids to durations.
  The User collection is the list of the ids of its documents.
\<close>

record db =
  tickets :: "ticket list"
  schedules :: "schedule list"
  rooms :: "room list"
  movies :: "oid \<Rightarrow> int option"
  promotions :: "promotion list"
  users :: "oid list"

section \<open>Schedule: end time, overlap check, write\<close>

definition validateSchedule :: "schedule \<Rightarrow> bool" where
  "validateSchedule s =
     (jle (Fin 0) (pt_standard (sc_priceTable s)) \<and> jle (Fin 0) (pt_vip (sc_priceTable s)) \<and>
      jle (Fin 0) (pt_earlyBirdDiscount (sc_priceTable s)) \<and>
      jle (pt_earlyBirdDiscount (sc_priceTable s)) (Fin 100))"

text \<open>
  The query of the second \<open>pre('save')\<close> hook, Schedule.js lines 119-128: the filter of
  \<open>Schedule.findOne\<close>, as a predicate on a stored schedule \<open>e\<close> for the document \<open>s\<close>
  being saved.
\<close>

definition overlapQuery :: "schedule \<Rightarrow> schedule \<Rightarrow> bool" where
  "overlapQuery s e =
     (sc_id e \<noteq> sc_id s \<and>
      sc_roomId e = sc_roomId s \<and>
      sc_status e \<noteq> ScCancelled \<and>
      ((sc_startTime e < sc_endTime s \<and> sc_startTime e \<ge> sc_startTime s) \<or>
       (sc_endTime e > sc_startTime s \<and> sc_endTime e \<le> sc_endTime s) \<or>
       (sc_startTime e \<le> sc_startTime s \<and> sc_endTime e \<ge> sc_endTime s)))"

text \<open>
  The write of a schedule. Schedule.js lines 78-87 declare a unique index on
  \<open>{roomId, startTime, endTime}\<close> with the partial filter
  \<open>status: {$ne: 'cancelled'}\<close>. A \<open>partialFilterExpression\<close> admits equality,
  \<open>$exists: true\<close>, the order comparisons and \<open>$type\<close>, and no \<open>$ne\<close>: the store
  refuses to build the index as it is declared, so the collection has the index on
  \<open>_id\<close> alone. The save of a stored document writes the document as a whole; a
  document that is no longer stored cannot be saved.
\<close>

definition writeSchedule :: "bool \<Rightarrow> schedule list \<Rightarrow> schedule \<Rightarrow> error + schedule list" where
  "writeSchedule isNew coll s =
     (if isNew then
        (if \<exists>e \<in> set coll. sc_id e = sc_id s then Inl DuplicateKey
         else Inr (coll @ [s]))
      else
        (if \<not> (\<exists>e \<in> set coll. sc_id e = sc_id s) then Inl DocumentNotFound
         else Inr (map (\<lambda>e. if sc_id e = sc_id s then s else e) coll)))"

text \<open>
  \<open>schedule.save()\<close>: validation, then the two \<open>pre('save')\<close> hooks of Schedule.js
  (lines 98-112 and 115-138) in their order, then the write. The first hook sets
  \<open>endTime\<close>, which marks the path modified when the value changes.
\<close>

definition saveSchedule :: "bool \<Rightarrow> schedule_path list \<Rightarrow> db \<Rightarrow> schedule \<Rightarrow> error + (schedule \<times> db)" where
  "saveSchedule isNew modified d s =
     (if \<not> validateSchedule s then Inl ValidationError
      else
        let r1 =
          (if isNew \<or> PStartTime \<in> set modified \<or> PMovieId \<in> set modified then
             (case movies d (sc_movieId s) of
                None \<Rightarrow> Inl MovieNotFound
              | Some duration \<Rightarrow>
                  let e = sc_startTime s + (duration + 30) * 60000
                  in Inr (s\<lparr>sc_endTime := e\<rparr>, e \<noteq> sc_endTime s))
           else Inr (s, False))
        in case r1 of
             Inl err \<Rightarrow> Inl err
           | Inr (s1, endChanged) \<Rightarrow>
               if (isNew \<or> PStartTime \<in> set modified \<or> PEndTime \<in> set modified \<or> endChanged \<or>
                   PRoomId \<in> set modified) \<and>
                  (\<exists>e \<in> set (schedules d). overlapQuery s1 e)
               then Inl RoomConflict
               else (case writeSchedule isNew (schedules d) s1 of
                       Inl err \<Rightarrow> Inl err
                     | Inr coll \<Rightarrow> Inr (s1, d\<lparr>schedules := coll\<rparr>)))"

text \<open>
  \<open>scheduleSchema.methods.updateOccupancy\<close>, Schedule.js lines 141-157. An error of the
  final \<open>save()\<close> propagates to the caller.
\<close>

definition updateOccupancy :: "db \<Rightarrow> schedule \<Rightarrow> error + db" where
  "updateOccupancy d s =
     (case find (\<lambda>r. rm_id r = sc_roomId s) (rooms d) of
        None \<Rightarrow> Inr d
      | Some room \<Rightarrow>
          let ts = filter (\<lambda>t. tk_scheduleId t = sc_id s \<and> tk_status t \<noteq> Cancelled) (tickets d);
              totalBookedSeats = foldl (\<lambda>total t. total + length (tk_seats t)) 0 ts
          in (case saveSchedule False [PIsFull] d (s\<lparr>sc_isFull := (totalBookedSeats \<ge> rm_capacity room)\<rparr>) of
                Inl err \<Rightarrow> Inl err
              | Inr (_, d') \<Rightarrow> Inr d'))"

section \<open>Ticket: write, save, cancel\<close>

text \<open>
  The write of a ticket. Ticket.js lines 141-150 declare a unique index on
  \<open>{scheduleId, seats.code}\<close> with the partial filter \<open>status: {$ne: 'cancelled'}\<close>
  ("Index to prevent double booking of seats for the same schedule"). As for the
  schedules, the store refuses a partial filter with \<open>$ne\<close>: the index is not built,
  and no function of the sources compares the seats of a ticket with those of the
  stored tickets before it saves. The indexes of the collection are the one on \<open>_id\<close>
  and the sparse unique one on \<open>qrCode\<close>, a text that the second \<open>pre('save')\<close> hook
  derives from \<open>_id\<close>, so that it is violated only together with the first. The
  save of a stored document writes the document as a whole; a document that is no
  longer stored cannot be saved.
\<close>

definition seatCodes :: "ticket \<Rightarrow> string list" where
  "seatCodes t = map ts_code (tk_seats t)"

definition writeTicket :: "bool \<Rightarrow> ticket list \<Rightarrow> ticket \<Rightarrow> error + ticket list" where
  "writeTicket isNew coll t =
     (if isNew then
        (if \<exists>u \<in> set coll. tk_id u = tk_id t then Inl DuplicateKey
         else Inr (coll @ [t]))
      else
        (if \<not> (\<exists>u \<in> set coll. tk_id u = tk_id t) then Inl DocumentNotFound
         else Inr (map (\<lambda>u. if tk_id u = tk_id t then t else u) coll)))"

text \<open>
  \<open>ticketSchema.post('save')\<close>, Ticket.js lines 225-236: the occupancy of the ticket's
  schedule is recomputed; every error is caught and logged.
\<close>

definition occupancyPostSave :: "db \<Rightarrow> ticket \<Rightarrow> db" where
  "occupancyPostSave d doc =
     (case find (\<lambda>s. sc_id s = tk_scheduleId doc) (schedules d) of
        None \<Rightarrow> d
      | Some s \<Rightarrow> (case updateOccupancy d s of Inl err \<Rightarrow> d | Inr d' \<Rightarrow> d'))"

text \<open>
  \<open>ticket.save()\<close>: validation, the pricing hook, the write, the post-save hook. The result is the document as saved and the new database.
\<close>

definition saveTicket :: "bool \<Rightarrow> ticket_path list \<Rightarrow> db \<Rightarrow> ticket \<Rightarrow> error + (ticket \<times> db)" where
  "saveTicket isNew modified d t =
     (if \<not> validateTicket t then Inl ValidationError
      else
        let t' = pricingHook isNew modified t
        in case writeTicket isNew (tickets d) t' of
             Inl err \<Rightarrow> Inl err
           | Inr coll \<Rightarrow> Inr (t', occupancyPostSave (d\<lparr>tickets := coll\<rparr>) t'))"

text \<open>\<open>ticketSchema.methods.cancel\<close>, Ticket.js lines 253-271; \<open>now\<close> is \<open>new Date()\<close>.\<close>

definition cancel :: "time \<Rightarrow> db \<Rightarrow> ticket \<Rightarrow> oid \<Rightarrow> string \<Rightarrow> error + (ticket \<times> db)" where
  "cancel now d this userId reason =
     (if tk_status this = Cancelled then Inl AlreadyCancelled
      else saveTicket False [PStatus, PCancellation] d
             (this\<lparr>tk_status := Cancelled, tk_cancellationReason := Some reason,
                    tk_cancelledBy := Some userId, tk_cancelledAt := Some now\<rparr>))"

section \<open>Payment: status propagation\<close>

record payment =
  pm_id :: oid
  pm_ticketId :: oid
  pm_amount :: number
  pm_status :: pay_status

text \<open>
  \<open>paymentSchema.pre('save')\<close>, Payment.js lines 87-120. The hook always ends in
  \<open>next()\<close> without an argument: the first component of the result is the error handed
  to \<open>next\<close>, the second the database after the hook. Errors inside the \<open>try\<close> block
  (ticket not found, a failed \<open>ticket.save()\<close>) are caught and logged.
\<close>

definition paymentPreSave :: "bool \<Rightarrow> db \<Rightarrow> payment \<Rightarrow> error option \<times> db" where
  "paymentPreSave statusModified d this =
     (if statusModified then
        (case find (\<lambda>t. tk_id t = pm_ticketId this) (tickets d) of
           None \<Rightarrow> (None, d)
         | Some ticket \<Rightarrow>
             if tk_paymentStatus ticket \<noteq> pm_status this then
               let t1 = ticket\<lparr>tk_paymentStatus := pm_status this\<rparr>;
                   t2 = (if pm_status this = PsSuccess \<and> tk_status t1 = Pending
                         then t1\<lparr>tk_status := Paid\<rparr> else t1);
                   t3 = (if pm_status this = PsRefunded \<and> tk_status t2 = Paid
                         then t2\<lparr>tk_status := Refunded\<rparr> else t2)
               in (case saveTicket False [PPaymentStatus, PStatus] d t3 of
                     Inl err \<Rightarrow> (None, d)
                   | Inr (_, d') \<Rightarrow> (None, d'))
             else (None, d))
      else (None, d))"

text \<open>
  The TTL index on \<open>pendingExpiresAt\<close> (\<open>expireAfterSeconds: 0\<close>, Ticket.js lines
  127-131): the store's background task removes the documents whose timestamp has
  passed, at some moment \<open>now\<close> of its own choosing.
\<close>

definition ttlReap :: "time \<Rightarrow> db \<Rightarrow> db" where
  "ttlReap now d = d\<lparr>tickets := filter (\<lambda>t. now < tk_pendingExpiresAt t) (tickets d)\<rparr>"

text \<open>The default of \<open>pendingExpiresAt\<close>: ten minutes after the construction.\<close>

definition defaultPendingExpiresAt :: "time \<Rightarrow> time" where
  "defaultPendingExpiresAt now = now + 10 * 60 * 1000"

section \<open>Promotion\<close>

text \<open>JavaScript truthiness of an optional whole number.\<close>

definition truthyInt :: "int nullable \<Rightarrow> bool" where
  "truthyInt x = (case x of Value v \<Rightarrow> v \<noteq> 0 | _ \<Rightarrow> False)"

text \<open>
  The virtual \<open>isCurrentlyActive\<close>, part_000 lines 113-119; \<open>now\<close> is \<open>new Date()\<close>.
  One operation reads the clock once: every \<open>new Date()\<close> of one call is the same
  \<open>now\<close>. The cap is tested with \<open>=== undefined\<close>: in \<open>currentUses < maxUses\<close> a
  \<open>null\<close> counts as 0.
\<close>

definition isCurrentlyActive :: "time \<Rightarrow> promotion \<Rightarrow> bool" where
  "isCurrentlyActive now this =
     (pr_isActive this \<and> pr_startDate this \<le> now \<and> pr_endDate this \<ge> now \<and>
      (case pr_maxUses this of
         Undefined \<Rightarrow> True
       | Null \<Rightarrow> pr_currentUses this < 0
       | Value m \<Rightarrow> pr_currentUses this < m))"

text \<open>\<open>promotionSchema.methods.isApplicableToMovie\<close>, part_000 lines 122-143.\<close>

definition isApplicableToMovie :: "time \<Rightarrow> promotion \<Rightarrow> oid \<Rightarrow> string list \<Rightarrow> bool" where
  "isApplicableToMovie now this movieId movieGenres =
     (if \<not> isCurrentlyActive now this then False
      else if pr_movies this = [] \<and> pr_categories this = [] then True
      else if \<exists>i \<in> set (pr_movies this). i = movieId then True
      else if pr_categories this \<noteq> [] \<and>
              (\<exists>genre \<in> set movieGenres. genre \<in> set (pr_categories this)) then True
      else False)"

text \<open>
  \<open>promotionSchema.methods.canBeUsedByUser\<close>, part_000 lines 146-180. Each
  \<open>countDocuments\<close> is the length of the filtered Ticket collection.
\<close>

definition canBeUsedByUser :: "time \<Rightarrow> db \<Rightarrow> promotion \<Rightarrow> oid \<Rightarrow> bool" where
  "canBeUsedByUser now d this userId =
     (if \<not> isCurrentlyActive now this then False
      else if userId \<notin> set (users d) then False
      else if ur_firstTimeUserOnly (pr_restrictions this) \<and>
              length (filter (\<lambda>t. tk_userId t = userId) (tickets d)) > 0 then False
      else if ur_minPreviousOrders (pr_restrictions this) > 0 \<and>
              int (length (filter (\<lambda>t. tk_userId t = userId \<and> tk_status t = Paid) (tickets d)))
                < ur_minPreviousOrders (pr_restrictions this) then False
      else if ur_onePerUser (pr_restrictions this) \<and>
              length (filter (\<lambda>t. tk_userId t = userId \<and>
                                   vc_code (tk_voucher t) = Some (pr_code this) \<and>
                                   tk_status t \<noteq> Cancelled) (tickets d)) > 0 then False
      else True)"

text \<open>
  \<open>String.prototype.toUpperCase\<close> on a string of ASCII characters: the letters
  \<open>a\<close> to \<open>z\<close> become \<open>A\<close> to \<open>Z\<close>.
\<close>

definition toUpperChar :: "char \<Rightarrow> char" where
  "toUpperChar c =
     (if 97 \<le> (of_char c :: nat) \<and> (of_char c :: nat) \<le> 122
      then char_of ((of_char c :: nat) - 32) else c)"

definition toUpperCaseAscii :: "string \<Rightarrow> string" where
  "toUpperCaseAscii s = map toUpperChar s"

record applied_promotion =
  ap_id :: oid
  ap_code :: string
  ap_type :: discount_type
  ap_value :: number
  ap_maxDiscount :: "number option"
  ap_discountAmount :: number

text \<open>
  \<open>promotionSchema.statics.validateAndApply\<close>, part_000 lines 183-239. \<open>userId\<close> and
  \<open>movieId\<close> are ObjectIds or null. The code is an arbitrary string, so the case
  mapping of the language, \<open>code.toUpperCase()\<close>, is a parameter of the function; on
  ASCII strings it is \<open>toUpperCaseAscii\<close>. The returned object is
  \<open>result.promotion\<close>.
\<close>

definition validateAndApply ::
  "(string \<Rightarrow> string) \<Rightarrow> time \<Rightarrow> db \<Rightarrow> string \<Rightarrow> oid option \<Rightarrow> number \<Rightarrow> oid option \<Rightarrow>
     string list \<Rightarrow> error + applied_promotion" where
  "validateAndApply toUpperCase now d code userId orderAmount movieId movieGenres =
     (case find (\<lambda>p. pr_code p = toUpperCase code \<and> pr_isActive p \<and>
                      pr_startDate p \<le> now \<and> pr_endDate p \<ge> now) (promotions d) of
        None \<Rightarrow> Inl PromotionNotFound
      | Some promotion \<Rightarrow>
          if truthyInt (pr_maxUses promotion) \<and>
             (case pr_maxUses promotion of Value m \<Rightarrow> pr_currentUses promotion \<ge> m
              | _ \<Rightarrow> False)
          then Inl PromotionExhausted
          else if jless orderAmount (pr_minOrderAmount promotion) then Inl BelowMinimumOrder
          else if (case movieId of None \<Rightarrow> False
                   | Some m \<Rightarrow> \<not> isApplicableToMovie now promotion m movieGenres)
          then Inl NotApplicable
          else if (case userId of None \<Rightarrow> False
                   | Some u \<Rightarrow> \<not> canBeUsedByUser now d promotion u)
          then Inl NotEligible
          else
            let discountAmount =
              (if pr_type promotion = Percent then
                 (let a = jdiv100 (jmul orderAmount (pr_value promotion))
                  in case pr_maxDiscount promotion of
                       None \<Rightarrow> a
                     | Some m \<Rightarrow> if jtruthy m \<and> jless m a then m else a)
               else jmin (pr_value promotion) orderAmount)
            in Inr \<lparr>ap_id = pr_id promotion, ap_code = pr_code promotion,
                     ap_type = pr_type promotion, ap_value = pr_value promotion,
                     ap_maxDiscount = pr_maxDiscount promotion,
                     ap_discountAmount = discountAmount\<rparr>)"

definition validatePromotion :: "promotion \<Rightarrow> bool" where
  "validatePromotion p =
     (pr_code p \<noteq> [] \<and> jle (Fin 0) (pr_value p) \<and>
      (case pr_maxDiscount p of None \<Rightarrow> True | Some m \<Rightarrow> jle (Fin 0) m) \<and>
      jle (Fin 0) (pr_minOrderAmount p) \<and>
      (case pr_maxUses p of Value m \<Rightarrow> 0 \<le> m | _ \<Rightarrow> True) \<and>
      0 \<le> pr_currentUses p)"

text \<open>
  \<open>promotion.save()\<close> of a stored document: validation, then the write under the
  unique index on \<open>code\<close>. The Promotion schema has no hook.
\<close>

definition savePromotion :: "db \<Rightarrow> promotion \<Rightarrow> error + (promotion \<times> db)" where
  "savePromotion d p =
     (if \<not> validatePromotion p then Inl ValidationError
      else if \<not> (\<exists>q \<in> set (promotions d). pr_id q = pr_id p) then Inl DocumentNotFound
      else if \<exists>q \<in> set (promotions d). pr_id q \<noteq> pr_id p \<and> pr_code q = pr_code p
      then Inl DuplicateKey
      else Inr (p, d\<lparr>promotions := map (\<lambda>q. if pr_id q = pr_id p then p else q) (promotions d)\<rparr>))"

text \<open>\<open>promotionSchema.methods.incrementUsage\<close>, part_000 lines 242-255.\<close>

definition incrementUsage :: "db \<Rightarrow> promotion \<Rightarrow> error + (promotion \<times> db)" where
  "incrementUsage d this =
     (if truthyInt (pr_maxUses this) \<and>
         (case pr_maxUses this of Value m \<Rightarrow> pr_currentUses this \<ge> m | _ \<Rightarrow> False)
      then Inl UsageLimitReached
      else
        let p1 = this\<lparr>pr_currentUses := pr_currentUses this + 1\<rparr>;
            p2 = (if truthyInt (pr_maxUses p1) \<and>
                     (case pr_maxUses p1 of Value m \<Rightarrow> pr_currentUses p1 \<ge> m
                      | _ \<Rightarrow> False)
                  then p1\<lparr>pr_isActive := False\<rparr> else p1)
        in savePromotion d p2)"

section \<open>Room: the seat map\<close>

definition alphabet :: string where
  "alphabet = ''ABCDEFGHIJKLMNOPQRSTUVWXYZ''"

text \<open>
  \<open>alphabet[row]\<close>, as the template literal renders it: past the end of the string
  the value is \<open>undefined\<close>, which the template turns into the text \<open>undefined\<close>.
\<close>

definition rowLetter :: "nat \<Rightarrow> string" where
  "rowLetter row = (if row < length alphabet then [alphabet ! row] else ''undefined'')"

text \<open>The decimal text of a whole number, as a template literal renders \<open>col\<close>.\<close>

definition digitChar :: "nat \<Rightarrow> char" where
  "digitChar k = char_of (48 + k)"

fun decimal :: "nat \<Rightarrow> string" where
  "decimal n = (if n < 10 then [digitChar n] else decimal (n div 10) @ [digitChar (n mod 10)])"

text \<open>
  \<open>Math.ceil(Math.sqrt(this.capacity * 1.5))\<close> and
  \<open>Math.ceil(this.capacity / rows)\<close>, over the reals.
\<close>

definition rowsOf :: "nat \<Rightarrow> nat" where
  "rowsOf capacity = nat \<lceil>sqrt (real capacity * 1.5)\<rceil>"

definition seatsPerRowOf :: "nat \<Rightarrow> nat \<Rightarrow> nat" where
  "seatsPerRowOf capacity rows = nat \<lceil>real capacity / real rows\<rceil>"

text \<open>
  The inner \<open>for\<close> loop of \<open>generateSeatMap\<close>, Room.js lines 85-97, from column
  \<open>col\<close> on; the state is \<open>seatNumber\<close> and the \<open>seats\<close> array.
\<close>

function colLoop :: "nat \<Rightarrow> nat \<Rightarrow> nat \<Rightarrow> nat \<Rightarrow> nat \<times> room_seat list \<Rightarrow> nat \<times> room_seat list" where
  "colLoop capacity seatsPerRow row col (seatNumber, seats) =
     (if col \<le> seatsPerRow \<and> seatNumber < capacity then
        colLoop capacity seatsPerRow row (col + 1)
          (seatNumber + 1,
           seats @ [\<lparr>rs_code = rowLetter row @ decimal col,
                      rs_type = (if row < 2 then Vip else Standard),
                      rs_status = Available,
                      rs_row = row,
                      rs_column = col - 1\<rparr>])
      else (seatNumber, seats))"
  by pat_completeness auto
termination
  by (relation "measure (\<lambda>(capacity, seatsPerRow, row, col, st). Suc seatsPerRow - col)") auto

text \<open>The outer \<open>for\<close> loop, Room.js lines 82-98, from row \<open>row\<close> on.\<close>

function rowLoop :: "nat \<Rightarrow> nat \<Rightarrow> nat \<Rightarrow> nat \<Rightarrow> nat \<times> room_seat list \<Rightarrow> room_seat list" where
  "rowLoop capacity rows seatsPerRow row (seatNumber, seats) =
     (if row < rows \<and> seatNumber < capacity then
        rowLoop capacity rows seatsPerRow (row + 1)
          (colLoop capacity seatsPerRow row 1 (seatNumber, seats))
      else seats)"
  by pat_completeness auto
termination
  by (relation "measure (\<lambda>(capacity, rows, seatsPerRow, row, st). rows - row)") auto

text \<open>\<open>roomSchema.methods.generateSeatMap\<close>, Room.js lines 74-101.\<close>

definition generateSeatMap :: "room \<Rightarrow> room_seat list" where
  "generateSeatMap this =
     (let rows = rowsOf (rm_capacity this);
          seatsPerRow = seatsPerRowOf (rm_capacity this) rows
      in rowLoop (rm_capacity this) rows seatsPerRow 0 (0, []))"

text \<open>
  The setters of a seat code in \<open>seatSchema\<close> (\<open>trim: true, uppercase: true\<close>,
  Room.js lines 4-9), which the assignment \<open>this.seats = ...\<close> applies to every seat
  it casts. The codes that the hook assigns are ASCII strings.
\<close>

definition isSpace :: "char \<Rightarrow> bool" where
  "isSpace c =
     ((of_char c :: nat) = 32 \<or> (9 \<le> (of_char c :: nat) \<and> (of_char c :: nat) \<le> 13))"

definition trim :: "string \<Rightarrow> string" where
  "trim s = rev (dropWhile isSpace (rev (dropWhile isSpace s)))"

definition castSeat :: "room_seat \<Rightarrow> room_seat" where
  "castSeat s = s\<lparr>rs_code := toUpperCaseAscii (trim (rs_code s))\<rparr>"

text \<open>
  \<open>room.save()\<close>: the validators of \<open>capacity\<close> (\<open>min: 1\<close>) and of the seat
  codes of the document as the caller built it (\<open>required\<close>), then
  \<open>roomSchema.pre('save')\<close>, Room.js lines 65-71. The result is the document as it
  is written.
\<close>

definition validateRoom :: "room \<Rightarrow> bool" where
  "validateRoom r = (1 \<le> rm_capacity r \<and> (\<forall>s \<in> set (rm_seats r). rs_code s \<noteq> []))"

definition roomPreSave :: "bool \<Rightarrow> bool \<Rightarrow> room \<Rightarrow> room" where
  "roomPreSave isNew capacityModified this =
     (if isNew \<or> capacityModified then
        let seats = map castSeat (generateSeatMap this)
        in this\<lparr>rm_seats := seats, rm_capacity := length seats\<rparr>
      else this)"

definition saveRoom :: "bool \<Rightarrow> bool \<Rightarrow> room \<Rightarrow> error + room" where
  "saveRoom isNew capacityModified this =
     (if \<not> validateRoom this then Inl ValidationError
      else Inr (roomPreSave isNew capacityModified this))"

text \<open>
  \<open>roomSchema.methods.getAvailableSeats\<close>, Room.js lines 104-131: every seat of the
  room with its status, or with \<open>'booked'\<close> in its place when a ticket of the showing
  that is not cancelled holds its code.
\<close>

datatype listed_status = Booked | Unbooked seat_status

definition getAvailableSeats :: "db \<Rightarrow> room \<Rightarrow> oid \<Rightarrow> error + (room_seat \<times> listed_status) list" where
  "getAvailableSeats d this scheduleId =
     (case find (\<lambda>s. sc_id s = scheduleId) (schedules d) of
        None \<Rightarrow> Inl ScheduleNotFound
      | Some schedule \<Rightarrow>
          let ts = filter (\<lambda>t. tk_scheduleId t = sc_id schedule \<and> tk_status t \<noteq> Cancelled)
                     (tickets d);
              bookedSeats = concat (map seatCodes ts)
          in Inr (map (\<lambda>seat. (seat, if rs_code seat \<in> set bookedSeats then Booked
                                       else Unbooked (rs_status seat)))
                    (rm_seats this)))"

section \<open>The operations on the Ticket collection\<close>

text \<open>
  The ways in which the sources change the Ticket collection: the save of a new
  document, \<open>cancel\<close> on a document found by its id, the save of a payment (whose hook
  loads the ticket by \<open>findById\<close>), and the removal of expired documents by the TTL
  index. A failed operation leaves the database as it was.
\<close>

datatype op =
    Create ticket
  | Cancel time oid oid string
  | PaymentSaved bool payment
  | Reap time

definition step :: "db \<Rightarrow> op \<Rightarrow> db" where
  "step d x =
     (case x of
        Create t \<Rightarrow> (case saveTicket True [] d t of Inl err \<Rightarrow> d | Inr (_, d') \<Rightarrow> d')
      | Cancel now tid userId reason \<Rightarrow>
          (case find (\<lambda>t. tk_id t = tid) (tickets d) of
             None \<Rightarrow> d
           | Some t \<Rightarrow> (case cancel now d t userId reason of Inl err \<Rightarrow> d | Inr (_, d') \<Rightarrow> d'))
      | PaymentSaved statusModified p \<Rightarrow> snd (paymentPreSave statusModified d p)
      | Reap now \<Rightarrow> ttlReap now d)"

definition run :: "db \<Rightarrow> op list \<Rightarrow> db" where
  "run d xs = foldl step d xs"

section \<open>Properties of a reservation\<close>

text \<open>
  The sums of a reservation as the hook computes them from the embedded seats and
  line items, in doubles and from left to right.
\<close>

definition seatTotal :: "ticket \<Rightarrow> number" where
  "seatTotal t = foldl (\<lambda>sum seat. jadd sum (ts_price seat)) (Fin 0) (tk_seats t)"

definition comboTotal :: "ticket \<Rightarrow> number" where
  "comboTotal t =
     foldl (\<lambda>sum combo. jadd sum (jmul (ci_price combo) (ci_qty combo))) (Fin 0) (tk_combos t)"

text \<open>A reservation whose stored sums agree with its embedded seats and line items.\<close>

definition priced :: "ticket \<Rightarrow> bool" where
  "priced t =
     (tk_subtotal t = jadd (seatTotal t) (comboTotal t) \<and>
      tk_totalAmount t = jsub (tk_subtotal t) (tk_discount t))"

text \<open>
  A Number that is a whole number and not negative; the value of a finite Number; the
  sum of a reservation's seat prices and line items in exact arithmetic.
\<close>

definition whole :: "number \<Rightarrow> bool" where
  "whole x = (case x of Fin q \<Rightarrow> 0 \<le> q \<and> q = of_int \<lfloor>q\<rfloor> | _ \<Rightarrow> False)"

definition val :: "number \<Rightarrow> rat" where
  "val x = (case x of Fin q \<Rightarrow> q | _ \<Rightarrow> 0)"

definition isFinite :: "number \<Rightarrow> bool" where
  "isFinite x = (case x of Fin q \<Rightarrow> True | _ \<Rightarrow> False)"

definition exactSubtotal :: "ticket \<Rightarrow> rat" where
  "exactSubtotal t =
     sum_list (map (\<lambda>s. val (ts_price s)) (tk_seats t)) +
     sum_list (map (\<lambda>c. val (ci_price c) * val (ci_qty c)) (tk_combos t))"

definition wholeAmounts :: "ticket \<Rightarrow> bool" where
  "wholeAmounts t =
     ((\<forall>s \<in> set (tk_seats t). whole (ts_price s)) \<and>
      (\<forall>c \<in> set (tk_combos t). whole (ci_price c) \<and> whole (ci_qty c)))"

text \<open>
  The stored expiry timestamps blanked out: two databases with the same image differ
  in the values of \<open>pendingExpiresAt\<close> only.
\<close>

definition clearExpiry :: "ticket \<Rightarrow> ticket" where
  "clearExpiry t = t\<lparr>tk_pendingExpiresAt := 0\<rparr>"

definition clearExpiries :: "db \<Rightarrow> db" where
  "clearExpiries d = d\<lparr>tickets := map clearExpiry (tickets d)\<rparr>"

definition isReap :: "op \<Rightarrow> bool" where
  "isReap x = (case x of Reap now \<Rightarrow> True | _ \<Rightarrow> False)"

definition noReap :: "op list \<Rightarrow> bool" where
  "noReap xs = list_all (\<lambda>x. \<not> isReap x) xs"

text \<open>
  A reservation against showing \<open>S\<close> that holds seat \<open>c\<close> at time \<open>now\<close>: not
  cancelled, and not a pending reservation whose hold has expired.
\<close>

definition holdsSeat :: "time \<Rightarrow> oid \<Rightarrow> string \<Rightarrow> ticket \<Rightarrow> bool" where
  "holdsSeat now S c t =
     (tk_scheduleId t = S \<and> tk_status t \<noteq> Cancelled \<and>
      \<not> (tk_status t = Pending \<and> tk_pendingExpiresAt t \<le> now) \<and>
      c \<in> set (seatCodes t))"

text \<open>Half-open overlap of a stored showing with the interval \<open>[start, end)\<close>.\<close>

definition overlapsHalfOpen :: "time \<Rightarrow> time \<Rightarrow> schedule \<Rightarrow> bool" where
  "overlapsHalfOpen start end e = (sc_startTime e < end \<and> start < sc_endTime e)"

section \<open>Concrete scenarios\<close>

text \<open>A database with empty collections.\<close>

definition emptyDb :: db where
  "emptyDb = \<lparr>tickets = [], schedules = [], rooms = [], movies = (\<lambda>i. None),
              promotions = [], users = []\<rparr>"

definition noVoucher :: voucher where
  "noVoucher = \<lparr>vc_code = None, vc_discountValue = None, vc_discountType = None,
                 vc_maxDiscount = None\<rparr>"

text \<open>
  The reservation of the pricing scenario: seats A1 (vip, 120000) and B3 (standard,
  90000), one concession item of quantity 2 at 50000, no promotion. The caller
  supplies the three sums, which are required paths; the hook overwrites them.
\<close>

definition scenarioTicket :: ticket where
  "scenarioTicket =
     \<lparr>tk_id = 1, tk_userId = 7, tk_scheduleId = 3, tk_roomId = 2,
      tk_seats = [\<lparr>ts_code = ''A1'', ts_type = Vip, ts_price = Fin 120000\<rparr>,
                  \<lparr>ts_code = ''B3'', ts_type = Standard, ts_price = Fin 90000\<rparr>],
      tk_combos = [\<lparr>ci_name = ''Popcorn'', ci_qty = Fin 2, ci_price = Fin 50000\<rparr>],
      tk_voucher = noVoucher,
      tk_subtotal = Fin 0, tk_discount = Fin 0, tk_totalAmount = Fin 0,
      tk_status = Pending, tk_paymentStatus = PsPending,
      tk_cancellationReason = None, tk_cancelledBy = None, tk_cancelledAt = None,
      tk_pendingExpiresAt = 600000\<rparr>"

text \<open>
  The percent discount in the words of the specification, in exact arithmetic:
  \<open>amount*value/100\<close>, capped at the maximum whenever one is given.
\<close>

definition specCappedPercent :: "rat \<Rightarrow> rat \<Rightarrow> rat option \<Rightarrow> rat" where
  "specCappedPercent amount v cap =
     (case cap of None \<Rightarrow> amount * v / 100 | Some m \<Rightarrow> min (amount * v / 100) m)"

text \<open>
  The percent discount in doubles: the product is rounded, then the quotient; a
  maximum that is not truthy, such as 0, is no maximum.
\<close>

definition cappedPercent :: "number \<Rightarrow> number \<Rightarrow> number option \<Rightarrow> number" where
  "cappedPercent amount v cap =
     (let a = jdiv100 (jmul amount v)
      in case cap of None \<Rightarrow> a | Some m \<Rightarrow> if jtruthy m then jmin a m else a)"

text \<open>The discount of a promotion or voucher of either type.\<close>

definition discountOf :: "bool \<Rightarrow> number \<Rightarrow> number option \<Rightarrow> number \<Rightarrow> number" where
  "discountOf percent v cap amount =
     (if percent then cappedPercent amount v cap else jmin v amount)"

definition summer10 :: promotion where
  "summer10 =
     \<lparr>pr_id = 1, pr_code = ''SUMMER10'', pr_type = Percent, pr_value = Fin 10,
      pr_maxDiscount = Some (Fin 25000), pr_minOrderAmount = Fin 0, pr_startDate = 0, pr_endDate = 100,
      pr_maxUses = Undefined, pr_currentUses = 0, pr_isActive = True, pr_movies = [],
      pr_categories = [],
      pr_restrictions = \<lparr>ur_onePerUser = False, ur_firstTimeUserOnly = False,
                           ur_minPreviousOrders = 0\<rparr>\<rparr>"

definition summer10Voucher :: voucher where
  "summer10Voucher = \<lparr>vc_code = Some ''SUMMER10'', vc_discountValue = Some (Fin 10),
                       vc_discountType = Some Percent, vc_maxDiscount = Some (Fin 25000)\<rparr>"

definition promoDb :: db where
  "promoDb = emptyDb\<lparr>promotions := [summer10]\<rparr>"

definition summerTicket :: ticket where
  "summerTicket = scenarioTicket\<lparr>tk_voucher := summer10Voucher\<rparr>"

definition zeroCapDb :: db where
  "zeroCapDb = emptyDb\<lparr>promotions := [summer10\<lparr>pr_code := ''ZEROCAP'', pr_maxDiscount := Some (Fin 0)\<rparr>]\<rparr>"

text \<open>
  A second customer's new reservation for seat A1 of the same showing, and the room of
  the showing with its two vip and two standard seats.
\<close>

definition room2 :: room where
  "room2 =
     \<lparr>rm_id = 2, rm_capacity = 4,
      rm_seats = [\<lparr>rs_code = ''A1'', rs_type = Vip, rs_status = Available, rs_row = 0, rs_column = 0\<rparr>,
                  \<lparr>rs_code = ''A2'', rs_type = Vip, rs_status = Available, rs_row = 0, rs_column = 1\<rparr>,
                  \<lparr>rs_code = ''B3'', rs_type = Standard, rs_status = Available, rs_row = 1,
                     rs_column = 2\<rparr>,
                  \<lparr>rs_code = ''B4'', rs_type = Standard, rs_status = Available, rs_row = 1,
                     rs_column = 3\<rparr>]\<rparr>"


definition rivalTicket :: ticket where
  "rivalTicket =
     scenarioTicket\<lparr>tk_id := 2, tk_userId := 8,
                    tk_seats := [\<lparr>ts_code = ''A1'', ts_type = Vip, ts_price = Fin 120000\<rparr>],
                    tk_combos := []\<rparr>"

text \<open>
  The hold scenario: the reservation of the pricing scenario is stored, created at
  time 0 with its hold ending at 600000 (ten minutes); a payment success arrives at
  time 660000 (eleven minutes).
\<close>

definition heldDb :: db where
  "heldDb = emptyDb\<lparr>tickets := [pricingHook True [] scenarioTicket]\<rparr>"

text \<open>The same database with the hold ending at 6000000 (one hundred minutes).\<close>

definition longHeldDb :: db where
  "longHeldDb =
     emptyDb\<lparr>tickets := [(pricingHook True [] scenarioTicket)\<lparr>tk_pendingExpiresAt := 6000000\<rparr>]\<rparr>"

definition successPayment :: payment where
  "successPayment = \<lparr>pm_id = 1, pm_ticketId = 1, pm_amount = Fin 310000, pm_status = PsSuccess\<rparr>"

text \<open>
  Reservations whose sums leave the whole numbers or the range of exact sums: seat
  prices \<open>2^53\<close> and 1, and one seat at 99999 with a voucher of 7 percent.
\<close>

definition bigTicket :: ticket where
  "bigTicket =
     scenarioTicket\<lparr>tk_seats := [\<lparr>ts_code = ''A1'', ts_type = Vip, ts_price = Fin 9007199254740992\<rparr>,
                                 \<lparr>ts_code = ''B3'', ts_type = Standard, ts_price = Fin 1\<rparr>],
                    tk_combos := []\<rparr>"

definition sevenTicket :: ticket where
  "sevenTicket =
     scenarioTicket\<lparr>tk_seats := [\<lparr>ts_code = ''A1'', ts_type = Vip, ts_price = Fin 99999\<rparr>],
                    tk_combos := [],
                    tk_voucher := \<lparr>vc_code = Some ''SEVEN'', vc_discountValue = Some (Fin 7),
                                   vc_discountType = Some Percent, vc_maxDiscount = None\<rparr>\<rparr>"

text \<open>Stored reservations in the states refunded and cancelled, and a failed payment.\<close>

definition refundedTicket :: ticket where
  "refundedTicket =
     (pricingHook True [] scenarioTicket)\<lparr>tk_status := Refunded, tk_paymentStatus := PsRefunded\<rparr>"

definition refundedDb :: db where
  "refundedDb = emptyDb\<lparr>tickets := [refundedTicket]\<rparr>"

definition cancelledTicket :: ticket where
  "cancelledTicket =
     (pricingHook True [] scenarioTicket)\<lparr>tk_status := Cancelled,
        tk_cancellationReason := Some ''no time'', tk_cancelledBy := Some 7,
        tk_cancelledAt := Some 1000\<rparr>"

definition cancelledDb :: db where
  "cancelledDb = emptyDb\<lparr>tickets := [cancelledTicket]\<rparr>"

definition failedPayment :: payment where
  "failedPayment = \<lparr>pm_id = 2, pm_ticketId = 1, pm_amount = Fin 310000, pm_status = PsFailed\<rparr>"

text \<open>
  The room scenario: room 2 has a scheduled showing from 15:00 to 17:00 (timestamps in
  milliseconds of one day); a showing of a 90 minute movie is created for 14:00, which
  ends at 16:00 with the cleaning buffer, and another one for 17:00.
\<close>

definition stdPrices :: price_table where
  "stdPrices = \<lparr>pt_standard = Fin 90000, pt_vip = Fin 120000, pt_earlyBirdDiscount = Fin 0,
               pt_earlyBirdEndTime = None\<rparr>"

definition show1500 :: schedule where
  "show1500 = \<lparr>sc_id = 1, sc_movieId = 10, sc_roomId = 2, sc_startTime = 54000000,
               sc_endTime = 61200000, sc_priceTable = stdPrices, sc_status = Scheduled,
               sc_isFull = False\<rparr>"

definition show1400 :: schedule where
  "show1400 = \<lparr>sc_id = 2, sc_movieId = 11, sc_roomId = 2, sc_startTime = 50400000,
               sc_endTime = 0, sc_priceTable = stdPrices, sc_status = Scheduled,
               sc_isFull = False\<rparr>"

definition show1700 :: schedule where
  "show1700 = show1400\<lparr>sc_id := 3, sc_startTime := 61200000\<rparr>"

definition roomDb :: db where
  "roomDb = emptyDb\<lparr>schedules := [show1500], movies := [10 \<mapsto> 90, 11 \<mapsto> 90]\<rparr>"

text \<open>
  The snapshot scenario: the reservation with the SUMMER10 voucher is stored; then the
  price table of its showing and the rules of the promotion are edited.
\<close>

definition show3 :: schedule where
  "show3 = show1500\<lparr>sc_id := 3\<rparr>"

text \<open>The hold scenario with the showing and its room stored.\<close>

definition listedDb :: db where
  "listedDb = heldDb\<lparr>schedules := [show3], rooms := [room2]\<rparr>"

definition frameDb :: db where
  "frameDb = emptyDb\<lparr>tickets := [pricingHook True [] summerTicket], schedules := [show3],
                     promotions := [summer10]\<rparr>"

definition editedDb :: db where
  "editedDb =
     frameDb\<lparr>schedules := [show3\<lparr>sc_priceTable := stdPrices\<lparr>pt_vip := Fin 200000\<rparr>\<rparr>],
             promotions := [summer10\<lparr>pr_value := Fin 50, pr_maxDiscount := None\<rparr>]\<rparr>"

definition editedShow :: schedule where
  "editedShow = show3\<lparr>sc_priceTable := stdPrices\<lparr>pt_vip := Fin 200000\<rparr>\<rparr>"

definition editedPromotion :: promotion where
  "editedPromotion = summer10\<lparr>pr_value := Fin 50, pr_maxDiscount := None\<rparr>"

text \<open>
  The counts of the eligibility rules in the words of the amended claim: all prior
  reservations of a customer, the paid ones, and the not cancelled ones that carry a
  promotion code.
\<close>

definition priorOrders :: "db \<Rightarrow> oid \<Rightarrow> nat" where
  "priorOrders d userId = length (filter (\<lambda>t. tk_userId t = userId) (tickets d))"

definition priorPaidOrders :: "db \<Rightarrow> oid \<Rightarrow> nat" where
  "priorPaidOrders d userId =
     length (filter (\<lambda>t. tk_userId t = userId \<and> tk_status t = Paid) (tickets d))"

definition priorUses :: "db \<Rightarrow> oid \<Rightarrow> string \<Rightarrow> nat" where
  "priorUses d userId code =
     length (filter (\<lambda>t. tk_userId t = userId \<and> vc_code (tk_voucher t) = Some code \<and>
                          tk_status t \<noteq> Cancelled) (tickets d))"

text \<open>
  A promotion for first-time customers; customer 7 with one cancelled reservation and
  without any; a promotion with a usage cap of 0.
\<close>

definition firstTimePromotion :: promotion where
  "firstTimePromotion =
     summer10\<lparr>pr_code := ''WELCOME'',
              pr_restrictions := \<lparr>ur_onePerUser = False, ur_firstTimeUserOnly = True,
                                   ur_minPreviousOrders = 0\<rparr>\<rparr>"

definition returningDb :: db where
  "returningDb = emptyDb\<lparr>tickets := [cancelledTicket], promotions := [firstTimePromotion],
                         users := [7]\<rparr>"

definition newcomerDb :: db where
  "newcomerDb = emptyDb\<lparr>promotions := [firstTimePromotion], users := [7]\<rparr>"

definition zeroUses :: promotion where
  "zeroUses = summer10\<lparr>pr_code := ''NEVER'', pr_maxUses := Value 0\<rparr>"

definition zeroUsesDb :: db where
  "zeroUsesDb = emptyDb\<lparr>promotions := [zeroUses]\<rparr>"

text \<open>The seat of row \<open>row\<close> and column \<open>col\<close>, as the inner loop pushes it.\<close>

definition seatAt :: "nat \<Rightarrow> nat \<Rightarrow> room_seat" where
  "seatAt row col =
     \<lparr>rs_code = rowLetter row @ decimal col,
      rs_type = (if row < 2 then Vip else Standard),
      rs_status = Available, rs_row = row, rs_column = col - 1\<rparr>"

text \<open>The seat with running number \<open>i\<close> when a row has \<open>spr\<close> seats.\<close>

definition seatNo :: "nat \<Rightarrow> nat \<Rightarrow> room_seat" where
  "seatNo spr i = seatAt (i div spr) (i mod spr + 1)"

text \<open>A new room with 487 seats.\<close>

definition room487 :: room where
  "room487 = \<lparr>rm_id = 1, rm_capacity = 487, rm_seats = []\<rparr>"

section \<open>Lemmas on rounding\<close>

lemma roundHalfEven_int [simp]: "roundHalfEven (of_int m) = m"
  by (simp add: roundHalfEven_def)

text \<open>The exponent that \<open>floorLog2\<close> computes is the position of the leading bit.\<close>

lemma floorLog2_bounds:
  assumes "0 < x"
  shows "2 powi floorLog2 x \<le> x \<and> x < 2 powi (floorLog2 x + 1)"
proof (cases "1 \<le> x")
  case True
  define n where "n = nat \<lfloor>x\<rfloor>"
  define e where "e = floorlog 2 n - 1"
  from True have n1: "0 < n" by (simp add: n_def)
  have two: "1 < (2::nat)" by simp
  from floorlog_bounds [OF n1 two] have b: "2 ^ e \<le> n" "n < 2 ^ floorlog 2 n"
    unfolding e_def by blast+
  have "floorlog 2 n \<noteq> 0" using n1 floorlog_eq_zero_iff [of 2 n] by auto
  then have "0 < floorlog 2 n" by blast
  then have f: "floorlog 2 n = Suc e" by (simp add: e_def)
  have fl: "floorLog2 x = int e" using True by (simp add: floorLog2_def n_def [symmetric] f)
  have nn: "(of_nat n :: rat) = of_int \<lfloor>x\<rfloor>" using True by (simp add: n_def)
  have nx: "of_nat n \<le> x" "x < of_nat n + 1"
    using floor_correct [of x] unfolding nn by simp_all
  have "(2::rat) ^ e \<le> of_nat n"
    using b(1) by (metis of_nat_le_iff of_nat_numeral of_nat_power)
  then have lo: "2 ^ e \<le> x" using nx(1) by linarith
  from b(2) f have "n + 1 \<le> 2 ^ Suc e" by simp
  then have "(of_nat (n + 1) :: rat) \<le> 2 ^ Suc e"
    by (metis of_nat_le_iff of_nat_numeral of_nat_power)
  then have "of_nat n + 1 \<le> (2::rat) ^ Suc e" by simp
  with nx(2) have hi: "x < 2 ^ Suc e" by linarith
  have "int e + 1 = int (Suc e)" by simp
  then have "(2::rat) powi (int e + 1) = 2 powi int (Suc e)" by (simp only:)
  also have "\<dots> = 2 ^ Suc e" by (rule power_int_of_nat)
  finally have p: "(2::rat) powi (int e + 1) = 2 ^ Suc e" .
  from lo hi show ?thesis by (simp only: fl p power_int_of_nat)
next
  case False
  define y where "y = 1 / x"
  define m where "m = nat \<lceil>y\<rceil>"
  define k where "k = floorlog 2 (m - 1)"
  from False assms have y1: "1 < y" by (simp add: y_def)
  then have "2 \<le> \<lceil>y\<rceil>" by (simp add: le_ceiling_iff)
  then have m2: "2 \<le> m" unfolding m_def by arith
  then have m1: "0 < m - 1" by simp
  have two: "1 < (2::nat)" by simp
  from floorlog_bounds [OF m1 two] have b: "2 ^ (k - 1) \<le> m - 1" "m - 1 < 2 ^ k"
    unfolding k_def by blast+
  have "k \<noteq> 0" using m1 floorlog_eq_zero_iff [of 2 "m - 1"] unfolding k_def by auto
  then have "0 < k" by blast
  then obtain j where j: "k = Suc j" by (cases k) simp_all
  have fl: "floorLog2 x = - int k"
    using False by (simp add: floorLog2_def y_def [symmetric] m_def [symmetric] k_def)
  have ym: "y \<le> of_nat m" "of_nat m - 1 < y"
  proof -
    have "y \<le> of_int \<lceil>y\<rceil>" by (rule le_of_int_ceiling)
    moreover have "of_int \<lceil>y\<rceil> = (of_nat m :: rat)"
      using y1 by (simp add: m_def)
    ultimately show "y \<le> of_nat m" by simp
    have "of_int \<lceil>y\<rceil> - 1 < y" using ceiling_correct [of y] by simp
    with \<open>of_int \<lceil>y\<rceil> = (of_nat m :: rat)\<close> show "of_nat m - 1 < y" by simp
  qed
  from b(2) have "m \<le> 2 ^ k" by simp
  then have "(of_nat m :: rat) \<le> 2 ^ k"
    by (metis of_nat_le_iff of_nat_numeral of_nat_power)
  with ym(1) have yk: "y \<le> 2 ^ k" by linarith
  from b(1) j have "2 ^ j + 1 \<le> m" using m2 by simp
  then have "(of_nat (2 ^ j + 1) :: rat) \<le> of_nat m" by (simp only: of_nat_le_iff)
  then have "(2::rat) ^ j + 1 \<le> of_nat m" by simp
  with ym(2) have yj: "2 ^ j < y" by linarith
  have xy: "x = 1 / y" using assms by (simp add: y_def)
  have lo: "1 / 2 ^ k \<le> x"
    unfolding xy using yk y1 by (simp add: frac_le)
  have hi: "x < 1 / 2 ^ j"
    unfolding xy using yj by (simp add: frac_less2)
  have pk: "(2::rat) powi (- int k) = 1 / 2 ^ k"
    by (simp add: power_int_minus field_simps)
  have "- int k + 1 = - int j" by (simp add: j)
  then have "(2::rat) powi (- int k + 1) = 2 powi (- int j)" by (simp only:)
  also have "\<dots> = 1 / 2 ^ j" by (simp add: power_int_minus field_simps)
  finally have pj: "(2::rat) powi (- int k + 1) = 1 / 2 ^ j" .
  from lo hi show ?thesis by (simp only: fl pk pj)
qed

lemma floorLog2_eq:
  assumes "2 ^ k \<le> x" "x < 2 ^ Suc k"
  shows "floorLog2 x = int k"
proof -
  have "(1::rat) \<le> 2 ^ k" by simp
  with assms(1) have x1: "1 \<le> x" by linarith
  define n where "n = nat \<lfloor>x\<rfloor>"
  have "(2::int) ^ k \<le> \<lfloor>x\<rfloor>"
    using assms(1) by (simp add: le_floor_iff)
  then have lo: "2 ^ k \<le> n" by (simp add: n_def le_nat_iff)
  have "\<lfloor>x\<rfloor> < 2 ^ Suc k"
    using assms(2) by (simp add: floor_less_iff)
  then have hi: "n < 2 ^ Suc k" using x1 by (simp add: n_def nat_less_iff)
  have "Suc k \<le> floorlog 2 n" using lo by (intro floorlog_geI) simp_all
  moreover have "floorlog 2 n \<le> Suc k" using hi by (intro floorlog_leI) simp_all
  ultimately have "floorlog 2 n = Suc k" by simp
  with x1 show ?thesis by (simp add: floorLog2_def n_def)
qed

lemma ulpExponent_eq:
  assumes "2 ^ k \<le> \<bar>x\<bar>" "\<bar>x\<bar> < 2 ^ Suc k"
  shows "ulpExponent x = int k - 52"
  using floorLog2_eq [OF assms] by (simp add: ulpExponent_def)

lemma roundHalfEven_bounds: "\<lfloor>q\<rfloor> \<le> roundHalfEven q \<and> roundHalfEven q \<le> \<lfloor>q\<rfloor> + 1"
  by (simp add: roundHalfEven_def Let_def)

lemma roundHalfEven_abs:
  assumes "\<bar>q\<bar> \<le> of_int b"
  shows "\<bar>roundHalfEven q\<bar> \<le> b"
proof -
  from assms have "q \<le> of_int b" "- of_int b \<le> q" by linarith+
  then have "\<lfloor>q\<rfloor> \<le> b" "- b \<le> \<lfloor>q\<rfloor>" by (simp_all add: floor_le_iff le_floor_iff)
  moreover have "roundHalfEven q \<le> b"
  proof (cases "q = of_int b")
    case True
    then show ?thesis by simp
  next
    case False
    with \<open>q \<le> of_int b\<close> have "q < of_int b" by simp
    then have "\<lfloor>q\<rfloor> < b" by (simp add: floor_less_iff)
    with roundHalfEven_bounds [of q] show ?thesis by linarith
  qed
  ultimately show ?thesis using roundHalfEven_bounds [of q] by linarith
qed

text \<open>
  Rounding in the normal range: for \<open>2^k \<le> |x| < 2^(k+1)\<close> the quotient of \<open>x\<close> by
  the unit \<open>2^(k-52)\<close> is rounded to a whole number.
\<close>

lemma round53_eq:
  assumes k: "2 ^ k \<le> \<bar>x\<bar>" "\<bar>x\<bar> < 2 ^ Suc k" and k1022: "k \<le> 1022"
  shows "round53 x = Fin (of_int (roundHalfEven (x / 2 powi (int k - 52))) * 2 powi (int k - 52))"
proof -
  let ?u = "(2::rat) powi (int k - 52)"
  let ?m = "roundHalfEven (x / ?u)"
  have "(0::rat) < 2 ^ k" by simp
  with k(1) have "0 < \<bar>x\<bar>" by linarith
  then have x0: "x \<noteq> 0" by simp
  have u: "ulpExponent x = int k - 52" using k(1,2) by (rule ulpExponent_eq)
  have upos: "0 < ?u" by simp
  have uk: "?u * 2 ^ 53 = 2 ^ Suc k"
  proof -
    have i: "int k - 52 + 53 = int (Suc k)" by simp
    have "?u * 2 ^ 53 = ?u * 2 powi 53" by simp
    also have "\<dots> = 2 powi (int k - 52 + 53)" by (rule power_int_add [symmetric]) simp
    also have "\<dots> = 2 powi int (Suc k)" by (simp only: i)
    also have "\<dots> = 2 ^ Suc k" by (rule power_int_of_nat)
    finally show ?thesis .
  qed
  have "\<bar>x / ?u\<bar> = \<bar>x\<bar> / ?u" using upos by (simp add: abs_divide)
  also have "\<dots> \<le> 2 ^ Suc k / ?u"
    using k(2) by (intro divide_right_mono) (simp_all only: less_imp_le zero_le_power_int zero_le_numeral)
  also have "\<dots> = 2 ^ 53" using uk upos by (simp add: field_simps)
  finally have "\<bar>x / ?u\<bar> \<le> of_int (2 ^ 53)" by simp
  then have "\<bar>?m\<bar> \<le> 2 ^ 53" by (rule roundHalfEven_abs)
  then have "\<bar>of_int ?m :: rat\<bar> \<le> 2 ^ 53"
    by (metis of_int_abs of_int_le_iff of_int_numeral of_int_power)
  then have "\<bar>of_int ?m * ?u\<bar> \<le> 2 ^ 53 * ?u"
    using upos by (simp add: abs_mult mult_right_mono)
  also have "\<dots> = 2 ^ Suc k" using uk by (simp add: mult.commute)
  also have "\<dots> \<le> 2 ^ 1023" using k1022 by (intro power_increasing) simp_all
  also have "\<dots> < (2::rat) ^ 1024" by (intro power_strict_increasing) simp_all
  finally have "\<bar>of_int ?m * ?u\<bar> < 2 ^ 1024" .
  then have "\<not> 2 ^ 1024 \<le> of_int ?m * ?u" "\<not> of_int ?m * ?u \<le> - (2 ^ 1024)" by linarith+
  with x0 show ?thesis by (simp add: round53_def u Let_def)
qed

lemma round53_exact:
  assumes k: "2 ^ k \<le> \<bar>x\<bar>" "\<bar>x\<bar> < 2 ^ Suc k" and k1022: "k \<le> 1022"
    and m: "x / (2 powi (int k - 52)) = of_int m"
  shows "round53 x = Fin x"
proof -
  have unz: "(2::rat) powi (int k - 52) \<noteq> 0" by simp
  from m have y: "of_int m * 2 powi (int k - 52) = x"
    using unz by (metis nonzero_divide_eq_eq)
  show ?thesis by (simp add: round53_eq [OF k k1022] m y)
qed

text \<open>Whole numbers up to \<open>2^53\<close> are doubles.\<close>

lemma round53_whole:
  assumes "\<bar>n\<bar> \<le> 2 ^ 53"
  shows "round53 (of_int n) = Fin (of_int n)"
proof (cases "n = 0")
  case True
  then show ?thesis by (simp add: round53_def)
next
  case False
  define a where "a = nat \<bar>n\<bar>"
  from False have a1: "1 \<le> a" by (simp add: a_def)
  from assms have a53: "a \<le> 2 ^ 53" by (simp add: a_def nat_le_iff)
  from ex_power_ivl1 [of 2 a] a1 obtain k where k: "2 ^ k \<le> a" "a < 2 ^ (k + 1)" by auto
  from k(1) a53 have "(2::nat) ^ k \<le> 2 ^ 53" by simp
  then have k53: "k \<le> 53" by (rule power_le_imp_le_exp [rotated]) simp
  have abs: "\<bar>of_int n :: rat\<bar> = of_nat a" by (simp add: a_def)
  have lo: "2 ^ k \<le> \<bar>of_int n :: rat\<bar>"
    unfolding abs using k(1) by (metis of_nat_le_iff of_nat_numeral of_nat_power)
  have hi: "\<bar>of_int n :: rat\<bar> < 2 ^ Suc k"
    unfolding abs using k(2) by (metis Suc_eq_plus1 of_nat_less_iff of_nat_numeral of_nat_power)
  have "\<exists>m. (of_int n :: rat) / (2 powi (int k - 52)) = of_int m"
  proof (cases "k \<le> 52")
    case True
    have "(2::rat) powi (int k - 52) = 2 ^ k / 2 ^ 52"
      by (simp add: power_int_diff)
    also have "\<dots> = 1 / 2 ^ (52 - k)" using True by (simp add: power_diff)
    finally have "(of_int n :: rat) / (2 powi (int k - 52)) = of_int (n * 2 ^ (52 - k))"
      by simp
    then show ?thesis ..
  next
    case False
    with k53 have k: "k = 53" by simp
    with \<open>2 ^ k \<le> a\<close> a53 have "a = 2 ^ 53" by simp
    then have "\<bar>n\<bar> = 2 ^ 53" by (simp add: a_def)
    then have "n = 2 * 2 ^ 52 \<or> n = 2 * (- (2 ^ 52))" by auto
    then have "(of_int n :: rat) / 2 = of_int (n div 2)" by auto
    with k show ?thesis by auto
  qed
  then obtain m where "(of_int n :: rat) / (2 powi (int k - 52)) = of_int m" ..
  with lo hi show ?thesis using k53 by (intro round53_exact [of k _ m]) simp_all
qed

lemma round53_numeral [simp]:
  "(numeral w :: int) \<le> 9007199254740992 \<Longrightarrow> round53 (numeral w) = Fin (numeral w)"
  "(numeral w :: int) \<le> 9007199254740992 \<Longrightarrow> round53 (- numeral w) = Fin (- numeral w)"
  "round53 0 = Fin 0" "round53 1 = Fin 1"
  using round53_whole [of "numeral w"] round53_whole [of "- numeral w"]
    round53_whole [of 0] round53_whole [of 1]
  by simp_all

lemma roundHalfEven_near:
  assumes "\<bar>q - of_int m\<bar> < 1 / 2"
  shows "roundHalfEven q = m"
proof -
  from assms have b: "of_int m - 1 / 2 < q" "q < of_int m + 1 / 2" by linarith+
  have "\<lfloor>q\<rfloor> = m \<or> \<lfloor>q\<rfloor> = m - 1"
  proof -
    from b have "of_int (m - 1) \<le> q" "q < of_int (m + 1)" by simp_all
    then have "m - 1 \<le> \<lfloor>q\<rfloor>" "\<lfloor>q\<rfloor> < m + 1" by (simp_all only: le_floor_iff floor_less_iff)
    then show ?thesis by linarith
  qed
  then show ?thesis
  proof
    assume f: "\<lfloor>q\<rfloor> = m"
    with b show ?thesis by (simp add: roundHalfEven_def Let_def)
  next
    assume f: "\<lfloor>q\<rfloor> = m - 1"
    with b have "\<not> q - of_int (m - 1) < 1 / 2" "1 / 2 < q - of_int (m - 1)" by simp_all
    with f show ?thesis by (simp add: roundHalfEven_def Let_def)
  qed
qed

lemma roundHalfEven_tie: "roundHalfEven (of_int m + 1 / 2) = (if even m then m else m + 1)"
proof -
  have "\<lfloor>of_int m + 1 / 2 :: rat\<rfloor> = m" by (simp add: floor_unique)
  then show ?thesis by (simp add: roundHalfEven_def Let_def)
qed

lemma round53_near:
  assumes "2 ^ k \<le> \<bar>x\<bar>" "\<bar>x\<bar> < 2 ^ Suc k" "k \<le> 1022"
    and "\<bar>x / 2 powi (int k - 52) - of_int m\<bar> < 1 / 2"
  shows "round53 x = Fin (of_int m * 2 powi (int k - 52))"
  using round53_eq [OF assms(1-3)] roundHalfEven_near [OF assms(4)] by simp

lemma round53_tie:
  assumes "2 ^ k \<le> \<bar>x\<bar>" "\<bar>x\<bar> < 2 ^ Suc k" "k \<le> 1022"
    and "x / 2 powi (int k - 52) = of_int m + 1 / 2"
  shows "round53 x = Fin (of_int (if even m then m else m + 1) * 2 powi (int k - 52))"
  using round53_eq [OF assms(1-3)] roundHalfEven_tie [of m] assms(4) by simp

section \<open>Lemmas on the Ticket collection\<close>

lemma pricingHook_priced: "priced (pricingHook True m t)"
  by (simp add: pricingHook_def priced_def seatTotal_def comboTotal_def Let_def)

lemma pricingHook_skip:
  "PSeats \<notin> set m \<Longrightarrow> PCombos \<notin> set m \<Longrightarrow> PVoucher \<notin> set m \<Longrightarrow> pricingHook False m t = t"
  by (simp add: pricingHook_def)

lemma tickets_saveSchedule: "saveSchedule n m d s = Inr (s', d') \<Longrightarrow> tickets d' = tickets d"
  by (auto simp: saveSchedule_def Let_def split: if_splits option.splits sum.splits prod.splits)

lemma tickets_updateOccupancy: "updateOccupancy d s = Inr d' \<Longrightarrow> tickets d' = tickets d"
  by (auto simp: updateOccupancy_def Let_def split: option.splits sum.splits prod.splits dest: tickets_saveSchedule)

lemma tickets_occupancyPostSave: "tickets (occupancyPostSave d t) = tickets d"
  by (auto simp: occupancyPostSave_def split: option.splits sum.splits dest: tickets_updateOccupancy)

lemma saveTicket_tickets:
  "saveTicket n m d t = Inr (t', d') \<Longrightarrow>
     validateTicket t \<and> t' = pricingHook n m t \<and> writeTicket n (tickets d) t' = Inr (tickets d')"
  by (auto simp: saveTicket_def Let_def tickets_occupancyPostSave split: if_splits sum.splits)


lemma find_SomeD: "find P xs = Some x \<Longrightarrow> x \<in> set xs \<and> P x"
  by (induction xs) (auto split: if_splits)

lemma writeTicket_ids:
  "writeTicket n coll t = Inr coll' \<Longrightarrow> distinct (map tk_id coll) \<Longrightarrow> distinct (map tk_id coll')"
proof (cases n)
  case True
  assume "writeTicket n coll t = Inr coll'" "distinct (map tk_id coll)"
  with True have "coll' = coll @ [t]" and "tk_id t \<notin> tk_id ` set coll"
    by (auto simp: writeTicket_def split: if_splits)
  with \<open>distinct (map tk_id coll)\<close> show ?thesis by simp
next
  case False
  assume w: "writeTicket n coll t = Inr coll'" and d: "distinct (map tk_id coll)"
  from w False have "coll' = map (\<lambda>u. if tk_id u = tk_id t then t else u) coll"
    by (auto simp: writeTicket_def split: if_splits)
  then have "map tk_id coll' = map tk_id coll"
    by (simp add: comp_def cong: map_cong)
  with d show ?thesis by simp
qed

lemma writeTicket_set:
  "writeTicket n coll t = Inr coll' \<Longrightarrow> set coll' \<subseteq> insert t (set coll)"
  by (auto simp: writeTicket_def split: if_splits)

lemma writeTicket_priced:
  "writeTicket n coll t = Inr coll' \<Longrightarrow> priced t \<Longrightarrow> \<forall>u \<in> set coll. priced u \<Longrightarrow>
     \<forall>u \<in> set coll'. priced u"
  using writeTicket_set by blast

lemma saveTicket_ids:
  "saveTicket n m d t = Inr (t', d') \<Longrightarrow> distinct (map tk_id (tickets d)) \<Longrightarrow>
     distinct (map tk_id (tickets d'))"
  using saveTicket_tickets writeTicket_ids by blast

lemma ttlReap_ids:
  "distinct (map tk_id (tickets d)) \<Longrightarrow> distinct (map tk_id (tickets (ttlReap now d)))"
  by (simp add: ttlReap_def distinct_map_filter)

lemma step_ids:
  "distinct (map tk_id (tickets d)) \<Longrightarrow> distinct (map tk_id (tickets (step d x)))"
proof (cases x)
  case (Create t)
  assume "distinct (map tk_id (tickets d))"
  with Create show ?thesis
    by (auto simp: step_def split: sum.splits dest: saveTicket_ids)
next
  case (Cancel now tid userId reason)
  assume "distinct (map tk_id (tickets d))"
  with Cancel show ?thesis
    by (auto simp: step_def cancel_def split: sum.splits option.splits if_splits
             dest: saveTicket_ids)
next
  case (PaymentSaved sm p)
  assume "distinct (map tk_id (tickets d))"
  with PaymentSaved show ?thesis
    by (auto simp: step_def paymentPreSave_def Let_def split: sum.splits option.splits if_splits
             dest: saveTicket_ids)
next
  case (Reap now)
  assume "distinct (map tk_id (tickets d))"
  with Reap show ?thesis by (simp add: step_def ttlReap_ids)
qed

lemma run_ids:
  "distinct (map tk_id (tickets d)) \<Longrightarrow> distinct (map tk_id (tickets (run d xs)))"
  unfolding run_def by (induction xs arbitrary: d) (simp_all add: step_ids)


lemma saveTicket_priced:
  assumes s: "saveTicket n m d t = Inr (t', d')"
    and pt: "n \<or> (priced t \<and> PSeats \<notin> set m \<and> PCombos \<notin> set m \<and> PVoucher \<notin> set m)"
    and all: "\<forall>u \<in> set (tickets d). priced u"
  shows "\<forall>u \<in> set (tickets d'). priced u"
proof -
  from saveTicket_tickets [OF s]
  have t': "t' = pricingHook n m t" and w: "writeTicket n (tickets d) t' = Inr (tickets d')"
    by blast+
  from pt have "priced t'"
    unfolding t' by (cases n) (auto simp: pricingHook_priced pricingHook_skip)
  with w all show ?thesis using writeTicket_priced by blast
qed

lemma priced_status_update:
  "priced t \<Longrightarrow> priced (t\<lparr>tk_status := a\<rparr>)"
  "priced t \<Longrightarrow> priced (t\<lparr>tk_paymentStatus := b\<rparr>)"
  "priced t \<Longrightarrow> priced (t\<lparr>tk_status := a, tk_cancellationReason := r, tk_cancelledBy := u, tk_cancelledAt := w\<rparr>)"
  by (simp_all add: priced_def seatTotal_def comboTotal_def)

lemma step_priced:
  assumes all: "\<forall>u \<in> set (tickets d). priced u"
  shows "\<forall>u \<in> set (tickets (step d x)). priced u"
proof (cases x)
  case (Create t)
  show ?thesis
  proof (cases "saveTicket True [] d t")
    case (Inl e)
    with Create all show ?thesis by (simp add: step_def)
  next
    case (Inr r)
    obtain t' d' where r: "r = (t', d')" by (cases r)
    from saveTicket_priced [OF Inr [unfolded r] _ all]
    have "\<forall>u \<in> set (tickets d'). priced u" by simp
    with Create Inr r show ?thesis by (simp add: step_def)
  qed
next
  case (Cancel now tid userId reason)
  show ?thesis
  proof (cases "find (\<lambda>t. tk_id t = tid) (tickets d)")
    case None
    with Cancel all show ?thesis by (simp add: step_def)
  next
    case (Some t)
    then have pt: "priced t" using all find_SomeD by fast
    show ?thesis
    proof (cases "cancel now d t userId reason")
      case (Inl e)
      with Cancel Some all show ?thesis by (simp add: step_def)
    next
      case (Inr r)
      obtain t' d' where r: "r = (t', d')" by (cases r)
      from Inr r have "saveTicket False [PStatus, PCancellation] d
             (t\<lparr>tk_status := Cancelled, tk_cancellationReason := Some reason,
                 tk_cancelledBy := Some userId, tk_cancelledAt := Some now\<rparr>) = Inr (t', d')"
        by (simp add: cancel_def split: if_splits)
      from saveTicket_priced [OF this _ all] pt
      have "\<forall>u \<in> set (tickets d'). priced u" by (simp add: priced_status_update)
      with Cancel Some Inr r show ?thesis by (simp add: step_def)
    qed
  qed
next
  case (PaymentSaved sm p)
  show ?thesis
  proof (cases "find (\<lambda>t. tk_id t = pm_ticketId p) (tickets d)")
    case None
    with PaymentSaved all show ?thesis by (simp add: step_def paymentPreSave_def)
  next
    case (Some t)
    then have pt: "priced t" using all find_SomeD by fast
    define t3 where "t3 =
       (let t1 = t\<lparr>tk_paymentStatus := pm_status p\<rparr>;
            t2 = (if pm_status p = PsSuccess \<and> tk_status t1 = Pending
                  then t1\<lparr>tk_status := Paid\<rparr> else t1)
        in (if pm_status p = PsRefunded \<and> tk_status t2 = Paid
            then t2\<lparr>tk_status := Refunded\<rparr> else t2))"
    have p3: "priced t3" using pt by (simp add: t3_def Let_def priced_status_update)
    show ?thesis
    proof (cases "saveTicket False [PPaymentStatus, PStatus] d t3")
      case (Inl e)
      with PaymentSaved Some all show ?thesis
        by (simp add: step_def paymentPreSave_def t3_def Let_def)
    next
      case (Inr r)
      obtain t' d' where r: "r = (t', d')" by (cases r)
      from saveTicket_priced [OF Inr [unfolded r] _ all] p3
      have "\<forall>u \<in> set (tickets d'). priced u" by simp
      with PaymentSaved Some Inr r all show ?thesis
        by (simp add: step_def paymentPreSave_def t3_def Let_def)
    qed
  qed
next
  case (Reap now)
  with all show ?thesis by (simp add: step_def ttlReap_def)
qed

lemma run_priced:
  "\<forall>u \<in> set (tickets d). priced u \<Longrightarrow> \<forall>u \<in> set (tickets (run d xs)). priced u"
  unfolding run_def
proof (induction xs arbitrary: d)
  case Nil
  then show ?case by simp
next
  case (Cons x xs)
  from Cons.IH [OF step_priced [OF Cons.prems]] show ?case by simp
qed

lemma pricingHook_keeps:
  "tk_id (pricingHook n m t) = tk_id t"
  "tk_status (pricingHook n m t) = tk_status t"
  "tk_scheduleId (pricingHook n m t) = tk_scheduleId t"
  "seatCodes (pricingHook n m t) = seatCodes t"
  "tk_seats (pricingHook n m t) = tk_seats t"
  "tk_pendingExpiresAt (pricingHook n m t) = tk_pendingExpiresAt t"
  by (simp_all add: pricingHook_def seatCodes_def Let_def)

lemma same_id_same_doc:
  "distinct (map tk_id coll) \<Longrightarrow> u \<in> set coll \<Longrightarrow> u' \<in> set coll \<Longrightarrow> tk_id u' = tk_id u \<Longrightarrow>
     u' = u"
  by (auto simp: distinct_map dest: inj_onD)

lemma update_keeps_members:
  assumes s: "saveTicket False m d t = Inr (t', d')"
    and dist: "distinct (map tk_id (tickets d))"
    and u: "u \<in> set (tickets d)" and u': "u' \<in> set (tickets d')" and i: "tk_id u' = tk_id u"
  shows "if tk_id u = tk_id t then u' = pricingHook False m t else u' = u"
proof -
  from saveTicket_tickets [OF s]
  have t': "t' = pricingHook False m t" and w: "writeTicket False (tickets d) t' = Inr (tickets d')"
    by blast+
  from w have d': "tickets d' = map (\<lambda>x. if tk_id x = tk_id t' then t' else x) (tickets d)"
    by (auto simp: writeTicket_def split: if_splits)
  have it: "tk_id t' = tk_id t" by (simp add: t' pricingHook_keeps)
  from u' d' obtain x where x: "x \<in> set (tickets d)" "u' = (if tk_id x = tk_id t' then t' else x)"
    by auto
  show ?thesis
  proof (cases "tk_id x = tk_id t'")
    case True
    with x i it t' show ?thesis by auto
  next
    case False
    with x have "u' = x" by simp
    with x(1) u i dist have "u' = u" using same_id_same_doc by blast
    with False \<open>u' = x\<close> it show ?thesis by auto
  qed
qed

section \<open>The scenarios evaluated\<close>

lemma create_first:
  assumes "validateTicket t"
  shows "saveTicket True [] emptyDb t =
           Inr (pricingHook True [] t, emptyDb\<lparr>tickets := [pricingHook True [] t]\<rparr>)"
  using assms by (simp add: saveTicket_def emptyDb_def writeTicket_def occupancyPostSave_def Let_def)

lemma scenario_valid: "validateTicket scenarioTicket"
  by (simp add: validateTicket_def scenarioTicket_def noVoucher_def jle_def)

lemma scenario_save:
  "saveTicket True [] emptyDb scenarioTicket =
     Inr (pricingHook True [] scenarioTicket,
          emptyDb\<lparr>tickets := [pricingHook True [] scenarioTicket]\<rparr>)"
  using scenario_valid by (rule create_first)

lemma update_single:
  assumes "validateTicket t" "tk_id t = tk_id u"
    "PSeats \<notin> set m" "PCombos \<notin> set m" "PVoucher \<notin> set m"
  shows "saveTicket False m (emptyDb\<lparr>tickets := [u]\<rparr>) t = Inr (t, emptyDb\<lparr>tickets := [t]\<rparr>)"
  using assms
  by (simp add: saveTicket_def pricingHook_skip writeTicket_def
        occupancyPostSave_def emptyDb_def)

lemma heldTicket_facts:
  "tk_status (pricingHook True [] scenarioTicket) = Pending"
  "tk_pendingExpiresAt (pricingHook True [] scenarioTicket) = 600000"
  "tk_scheduleId (pricingHook True [] scenarioTicket) = 3"
  "seatCodes (pricingHook True [] scenarioTicket) = [''A1'', ''B3'']"
  "tk_id (pricingHook True [] scenarioTicket) = 1"
  by (simp_all add: pricingHook_def Let_def scenarioTicket_def seatCodes_def)

lemma refunded_facts:
  "tk_status refundedTicket = Refunded" "tk_id refundedTicket = 1"
  "tk_paymentStatus refundedTicket = PsRefunded" "validateTicket refundedTicket"
  "tk_cancellationReason refundedTicket = None"
  by (simp_all add: refundedTicket_def pricingHook_def Let_def scenarioTicket_def noVoucher_def
        validateTicket_def jle_def jsub_def)

lemma cancelled_facts:
  "tk_status cancelledTicket = Cancelled" "tk_id cancelledTicket = 1"
  "tk_paymentStatus cancelledTicket = PsPending" "validateTicket cancelledTicket"
  by (simp_all add: cancelledTicket_def pricingHook_def Let_def scenarioTicket_def noVoucher_def
        validateTicket_def jle_def jsub_def)

lemma held_payment: "paymentPreSave True heldDb successPayment = (None, heldDb)"
  by (simp add: paymentPreSave_def heldDb_def emptyDb_def successPayment_def pricingHook_keeps
        saveTicket_def validateTicket_def Let_def scenarioTicket_def)

lemma refunded_failed_valid: "validateTicket (refundedTicket\<lparr>tk_paymentStatus := PsFailed\<rparr>)"
  using refunded_facts(4) by (simp add: validateTicket_def)

lemma cancelled_failed_valid: "validateTicket (cancelledTicket\<lparr>tk_paymentStatus := PsFailed\<rparr>)"
  using cancelled_facts(4) by (simp add: validateTicket_def)

lemma refunded_failed:
  "paymentPreSave True refundedDb failedPayment =
     (None, emptyDb\<lparr>tickets := [refundedTicket\<lparr>tk_paymentStatus := PsFailed\<rparr>]\<rparr>)"
  by (simp add: paymentPreSave_def refundedDb_def failedPayment_def refunded_facts
        update_single refunded_failed_valid Let_def)

lemma cancelled_failed:
  "paymentPreSave True cancelledDb failedPayment =
     (None, emptyDb\<lparr>tickets := [cancelledTicket\<lparr>tk_paymentStatus := PsFailed\<rparr>]\<rparr>)"
  by (simp add: paymentPreSave_def cancelledDb_def failedPayment_def cancelled_facts
        update_single cancelled_failed_valid Let_def)

lemma refunded_cancel_valid:
  "validateTicket (refundedTicket\<lparr>tk_status := Cancelled,
      tk_cancellationReason := Some ''changed plans'',
      tk_cancelledBy := Some 9, tk_cancelledAt := Some 5000\<rparr>)"
  using refunded_facts(4) by (simp add: validateTicket_def)

lemma cancelled_user: "tk_userId cancelledTicket = 7"
  by (simp add: cancelledTicket_def pricingHook_def Let_def scenarioTicket_def)

section \<open>C1: one holder per seat and showing\<close>

lemma create_next:
  assumes "validateTicket t" "tk_id t \<notin> tk_id ` set coll"
  shows "saveTicket True [] (emptyDb\<lparr>tickets := coll\<rparr>) t =
           Inr (pricingHook True [] t, emptyDb\<lparr>tickets := coll @ [pricingHook True [] t]\<rparr>)"
proof -
  from assms(2) have "\<not> (\<exists>u \<in> set coll. tk_id u = tk_id (pricingHook True [] t))"
    by (auto simp: pricingHook_keeps image_iff)
  with assms(1) show ?thesis
    by (simp add: saveTicket_def emptyDb_def writeTicket_def occupancyPostSave_def Let_def)
qed

text \<open>
  The save of a new ticket can fail with a validation error or a duplicate \<open>_id\<close>
  only: whatever seats the stored tickets hold, a valid ticket with a fresh id is
  stored.
\<close>

lemma create_never_conflicts:
  assumes "validateTicket t" "tk_id t \<notin> tk_id ` set (tickets d)"
  shows "\<exists>d'. saveTicket True [] d t = Inr (pricingHook True [] t, d') \<and>
              tickets d' = tickets d @ [pricingHook True [] t]"
proof -
  from assms(2) have "\<not> (\<exists>u \<in> set (tickets d). tk_id u = tk_id (pricingHook True [] t))"
    by (auto simp: pricingHook_keeps image_iff)
  with assms(1) show ?thesis
    by (simp add: saveTicket_def writeTicket_def Let_def tickets_occupancyPostSave)
qed

lemma rival_facts:
  "validateTicket rivalTicket" "tk_id rivalTicket = 2"
  "tk_status rivalTicket = Pending"
  "tk_pendingExpiresAt rivalTicket = 600000"
  "tk_scheduleId rivalTicket = 3"
  "seatCodes rivalTicket = [''A1'']"
  by (simp_all add: rivalTicket_def scenarioTicket_def noVoucher_def validateTicket_def
        seatCodes_def jle_def)

lemma scenario_facts:
  "tk_id scenarioTicket = 1" "tk_status scenarioTicket = Pending"
  "tk_pendingExpiresAt scenarioTicket = 600000" "tk_scheduleId scenarioTicket = 3"
  "seatCodes scenarioTicket = [''A1'', ''B3'']"
  by (simp_all add: scenarioTicket_def seatCodes_def)

lemma holders:
  "holdsSeat 1000 3 ''A1'' (pricingHook True [] scenarioTicket)"
  "holdsSeat 1000 3 ''A1'' (pricingHook True [] rivalTicket)"
  by (simp_all add: holdsSeat_def pricingHook_keeps scenario_facts rival_facts)

lemma rival_save:
  "saveTicket True [] heldDb rivalTicket =
     Inr (pricingHook True [] rivalTicket,
          emptyDb\<lparr>tickets := [pricingHook True [] scenarioTicket,
                               pricingHook True [] rivalTicket]\<rparr>)"
  unfolding heldDb_def
  using create_next [of rivalTicket "[pricingHook True [] scenarioTicket]"]
  by (simp add: rival_facts heldTicket_facts)

lemma both_stored:
  "run emptyDb [Create scenarioTicket, Create rivalTicket] =
     emptyDb\<lparr>tickets := [pricingHook True [] scenarioTicket, pricingHook True [] rivalTicket]\<rparr>"
  using rival_save by (simp add: run_def step_def scenario_save heldDb_def)

text \<open>
  Claim C1 fails in the code. The only guard against a second holder of a seat is the
  unique index that Ticket.js declares for this purpose, and the store does not build
  it; the save of a ticket compares no seats. Two customers create reservations for
  seat A1 of showing 3, one after the other: both saves succeed, no seat conflict is
  reported, and at time 1000, before either hold ends at 600000, both stored
  reservations are pending and hold A1.
\<close>

theorem seat_double_booked:
  "saveTicket True [] emptyDb scenarioTicket =
     Inr (pricingHook True [] scenarioTicket, heldDb) \<and>
   saveTicket True [] heldDb rivalTicket =
     Inr (pricingHook True [] rivalTicket,
          emptyDb\<lparr>tickets := [pricingHook True [] scenarioTicket,
                               pricingHook True [] rivalTicket]\<rparr>) \<and>
   tickets (run emptyDb [Create scenarioTicket, Create rivalTicket]) =
     [pricingHook True [] scenarioTicket, pricingHook True [] rivalTicket] \<and>
   tk_id (pricingHook True [] scenarioTicket) \<noteq> tk_id (pricingHook True [] rivalTicket) \<and>
   filter (holdsSeat 1000 3 ''A1'') (tickets (run emptyDb [Create scenarioTicket, Create rivalTicket])) =
     [pricingHook True [] scenarioTicket, pricingHook True [] rivalTicket]"
  by (simp add: both_stored rival_save [unfolded heldDb_def] scenario_save heldDb_def holders
        scenario_facts rival_facts pricingHook_keeps)

section \<open>C2: the hold expiry at payment time\<close>

lemma paymentPreSave_no_error: "fst (paymentPreSave m d p) = None"
  by (simp add: paymentPreSave_def Let_def split: option.splits sum.splits prod.splits)

lemma clearExpiry_keeps:
  "tk_id (clearExpiry t) = tk_id t"
  "tk_status (clearExpiry t) = tk_status t"
  "tk_paymentStatus (clearExpiry t) = tk_paymentStatus t"
  "tk_scheduleId (clearExpiry t) = tk_scheduleId t"
  "tk_userId (clearExpiry t) = tk_userId t"
  "tk_seats (clearExpiry t) = tk_seats t"
  "tk_voucher (clearExpiry t) = tk_voucher t"
  "seatCodes (clearExpiry t) = seatCodes t"
  by (simp_all add: clearExpiry_def seatCodes_def)

lemma clearExpiry_update:
  "clearExpiry (t\<lparr>tk_status := a\<rparr>) = (clearExpiry t)\<lparr>tk_status := a\<rparr>"
  "clearExpiry (t\<lparr>tk_paymentStatus := b\<rparr>) = (clearExpiry t)\<lparr>tk_paymentStatus := b\<rparr>"
  "clearExpiry (t\<lparr>tk_status := a, tk_cancellationReason := r, tk_cancelledBy := u,
                  tk_cancelledAt := w\<rparr>) =
     (clearExpiry t)\<lparr>tk_status := a, tk_cancellationReason := r, tk_cancelledBy := u,
                     tk_cancelledAt := w\<rparr>"
  by (simp_all add: clearExpiry_def)

lemma clearExpiries_fields:
  "tickets (clearExpiries d) = map clearExpiry (tickets d)"
  "schedules (clearExpiries d) = schedules d"
  "rooms (clearExpiries d) = rooms d"
  "movies (clearExpiries d) = movies d"
  "promotions (clearExpiries d) = promotions d"
  "users (clearExpiries d) = users d"
  "clearExpiries (d\<lparr>schedules := ss\<rparr>) = (clearExpiries d)\<lparr>schedules := ss\<rparr>"
  "clearExpiries (d\<lparr>tickets := ts\<rparr>) = d\<lparr>tickets := map clearExpiry ts\<rparr>"
  "(clearExpiries d)\<lparr>tickets := ts\<rparr> = d\<lparr>tickets := ts\<rparr>"
  by (simp_all add: clearExpiries_def)

lemma validateTicket_clearExpiry: "validateTicket (clearExpiry t) = validateTicket t"
  by (simp add: validateTicket_def clearExpiry_def)

lemma pricingHook_clearExpiry:
  "pricingHook n m (clearExpiry t) = clearExpiry (pricingHook n m t)"
  by (cases "vc_discountValue (tk_voucher t)"; cases "vc_maxDiscount (tk_voucher t)")
     (simp_all add: pricingHook_def clearExpiry_def Let_def)

lemma replace_clearExpiry:
  "map clearExpiry (map (\<lambda>u. if tk_id u = tk_id t then t else u) coll) =
     map (\<lambda>u. if tk_id u = tk_id t then clearExpiry t else u) (map clearExpiry coll)"
  by (induction coll) (simp_all add: clearExpiry_keeps)

lemma writeTicket_clearExpiry:
  "writeTicket n (map clearExpiry coll) (clearExpiry t) =
     map_sum id (map clearExpiry) (writeTicket n coll t)"
  by (simp add: writeTicket_def clearExpiry_keeps replace_clearExpiry)

lemma saveSchedule_clearExpiries:
  "saveSchedule n m (clearExpiries d) s =
     map_sum id (map_prod id clearExpiries) (saveSchedule n m d s)"
  by (simp add: saveSchedule_def clearExpiries_fields Let_def
           split: option.splits sum.splits prod.splits)

lemma booked_clearExpiry:
  "filter P (map clearExpiry coll) = map clearExpiry (filter (\<lambda>t. P (clearExpiry t)) coll)"
  by (induction coll) simp_all

lemma foldl_seats_clearExpiry:
  "foldl (\<lambda>total t. total + length (tk_seats t)) a (map clearExpiry coll) =
     foldl (\<lambda>total t. total + length (tk_seats t)) a coll"
  by (induction coll arbitrary: a) (simp_all add: clearExpiry_keeps)

lemma updateOccupancy_clearExpiries:
  "updateOccupancy (clearExpiries d) s = map_sum id clearExpiries (updateOccupancy d s)"
  by (simp add: updateOccupancy_def clearExpiries_fields saveSchedule_clearExpiries
        booked_clearExpiry clearExpiry_keeps foldl_seats_clearExpiry Let_def
      split: option.splits sum.splits prod.splits)

lemma occupancyPostSave_clearExpiries:
  "occupancyPostSave (clearExpiries d) (clearExpiry t) = clearExpiries (occupancyPostSave d t)"
  by (simp add: occupancyPostSave_def clearExpiries_fields updateOccupancy_clearExpiries
        clearExpiry_keeps split: option.splits sum.splits)

lemma saveTicket_clearExpiries:
  "saveTicket n m (clearExpiries d) (clearExpiry t) =
     map_sum id (map_prod clearExpiry clearExpiries) (saveTicket n m d t)"
proof (cases "writeTicket n (tickets d) (pricingHook n m t)")
  case (Inl e)
  then show ?thesis
    using writeTicket_clearExpiry [of n "tickets d" "pricingHook n m t"]
    by (simp add: saveTicket_def validateTicket_clearExpiry pricingHook_clearExpiry
          clearExpiries_fields Let_def)
next
  case (Inr coll)
  have "occupancyPostSave (d\<lparr>tickets := map clearExpiry coll\<rparr>) (clearExpiry (pricingHook n m t))
          = clearExpiries (occupancyPostSave (d\<lparr>tickets := coll\<rparr>) (pricingHook n m t))"
    using occupancyPostSave_clearExpiries [of "d\<lparr>tickets := coll\<rparr>" "pricingHook n m t"]
    by (simp add: clearExpiries_fields)
  with Inr show ?thesis
    using writeTicket_clearExpiry [of n "tickets d" "pricingHook n m t"]
    by (simp add: saveTicket_def validateTicket_clearExpiry pricingHook_clearExpiry
          clearExpiries_fields Let_def)
qed

lemma find_clearExpiry:
  "find (\<lambda>t. tk_id t = i) (map clearExpiry coll) = map_option clearExpiry (find (\<lambda>t. tk_id t = i) coll)"
  by (induction coll) (simp_all add: clearExpiry_keeps)

lemma cancel_clearExpiries:
  "cancel now (clearExpiries d) (clearExpiry t) userId reason =
     map_sum id (map_prod clearExpiry clearExpiries) (cancel now d t userId reason)"
  using saveTicket_clearExpiries [of False "[PStatus, PCancellation]" d
      "t\<lparr>tk_status := Cancelled, tk_cancellationReason := Some reason,
          tk_cancelledBy := Some userId, tk_cancelledAt := Some now\<rparr>"]
  by (simp add: cancel_def clearExpiry_keeps clearExpiry_update)

lemma paymentPreSave_clearExpiries:
  "snd (paymentPreSave m (clearExpiries d) p) = clearExpiries (snd (paymentPreSave m d p))"
proof (cases "find (\<lambda>t. tk_id t = pm_ticketId p) (tickets d)")
  case None
  then show ?thesis
    by (simp add: paymentPreSave_def clearExpiries_fields find_clearExpiry)
next
  case (Some t)
  define t3 where "t3 =
     (let t1 = t\<lparr>tk_paymentStatus := pm_status p\<rparr>;
          t2 = (if pm_status p = PsSuccess \<and> tk_status t1 = Pending
                then t1\<lparr>tk_status := Paid\<rparr> else t1)
      in (if pm_status p = PsRefunded \<and> tk_status t2 = Paid
          then t2\<lparr>tk_status := Refunded\<rparr> else t2))"
  have c3: "clearExpiry t3 =
     (let t1 = (clearExpiry t)\<lparr>tk_paymentStatus := pm_status p\<rparr>;
          t2 = (if pm_status p = PsSuccess \<and> tk_status t1 = Pending
                then t1\<lparr>tk_status := Paid\<rparr> else t1)
      in (if pm_status p = PsRefunded \<and> tk_status t2 = Paid
          then t2\<lparr>tk_status := Refunded\<rparr> else t2))"
    by (simp add: t3_def Let_def clearExpiry_def)
  have l: "snd (paymentPreSave m d p) =
     (if m \<and> tk_paymentStatus t \<noteq> pm_status p
      then (case saveTicket False [PPaymentStatus, PStatus] d t3 of
              Inl err \<Rightarrow> d | Inr (_, d') \<Rightarrow> d')
      else d)"
    using Some by (simp add: paymentPreSave_def t3_def Let_def split: sum.splits prod.splits)
  have r: "snd (paymentPreSave m (clearExpiries d) p) =
     (if m \<and> tk_paymentStatus t \<noteq> pm_status p
      then (case saveTicket False [PPaymentStatus, PStatus] (clearExpiries d) (clearExpiry t3) of
              Inl err \<Rightarrow> clearExpiries d | Inr (_, d') \<Rightarrow> d')
      else clearExpiries d)"
    using Some
    by (simp add: paymentPreSave_def c3 Let_def clearExpiries_fields find_clearExpiry
          clearExpiry_keeps split: sum.splits prod.splits)
  show ?thesis
    unfolding l r
    by (simp add: saveTicket_clearExpiries split: sum.splits prod.splits)
qed

lemma step_clearExpiries:
  "clearExpiries (step d (Create t)) = step (clearExpiries d) (Create (clearExpiry t))"
  "clearExpiries (step d (Cancel now tid userId reason)) =
     step (clearExpiries d) (Cancel now tid userId reason)"
  "clearExpiries (step d (PaymentSaved m p)) = step (clearExpiries d) (PaymentSaved m p)"
proof -
  show "clearExpiries (step d (Create t)) = step (clearExpiries d) (Create (clearExpiry t))"
    by (simp add: step_def saveTicket_clearExpiries split: sum.splits prod.splits)
  show "clearExpiries (step d (Cancel now tid userId reason)) =
     step (clearExpiries d) (Cancel now tid userId reason)"
    by (simp add: step_def clearExpiries_fields find_clearExpiry cancel_clearExpiries
          split: option.splits sum.splits prod.splits)
  show "clearExpiries (step d (PaymentSaved m p)) = step (clearExpiries d) (PaymentSaved m p)"
    by (simp add: step_def paymentPreSave_clearExpiries)
qed

lemma step_same_but_expiry:
  assumes "\<not> isReap x" "clearExpiries d = clearExpiries d'"
  shows "clearExpiries (step d x) = clearExpiries (step d' x)"
proof (cases x)
  case (Create t)
  have "clearExpiries (step d x) = step (clearExpiries d) (Create (clearExpiry t))"
    unfolding Create by (rule step_clearExpiries(1))
  also have "\<dots> = step (clearExpiries d') (Create (clearExpiry t))"
    by (simp only: assms(2))
  also have "\<dots> = clearExpiries (step d' x)"
    unfolding Create by (rule step_clearExpiries(1) [symmetric])
  finally show ?thesis .
next
  case (Cancel now tid userId reason)
  have "clearExpiries (step d x) = step (clearExpiries d) x"
    unfolding Cancel by (rule step_clearExpiries(2))
  also have "\<dots> = step (clearExpiries d') x"
    by (simp only: assms(2))
  also have "\<dots> = clearExpiries (step d' x)"
    unfolding Cancel by (rule step_clearExpiries(2) [symmetric])
  finally show ?thesis .
next
  case (PaymentSaved m p)
  have "clearExpiries (step d x) = step (clearExpiries d) x"
    unfolding PaymentSaved by (rule step_clearExpiries(3))
  also have "\<dots> = step (clearExpiries d') x"
    by (simp only: assms(2))
  also have "\<dots> = clearExpiries (step d' x)"
    unfolding PaymentSaved by (rule step_clearExpiries(3) [symmetric])
  finally show ?thesis .
next
  case (Reap now)
  with assms(1) show ?thesis by (simp add: isReap_def)
qed

lemma run_same_but_expiry:
  assumes "noReap xs" "clearExpiries d = clearExpiries d'"
  shows "clearExpiries (run d xs) = clearExpiries (run d' xs)"
  using assms unfolding run_def noReap_def
proof (induction xs arbitrary: d d')
  case Nil
  then show ?case by simp
next
  case (Cons x xs)
  from Cons.prems have x: "\<not> isReap x" and xs: "list_all (\<lambda>x. \<not> isReap x) xs"
    by simp_all
  from x Cons.prems(2) have "clearExpiries (step d x) = clearExpiries (step d' x)"
    by (rule step_same_but_expiry)
  from Cons.IH [OF xs this] show ?case by simp
qed

lemma saveTicket_same_but_expiry:
  assumes "clearExpiries d = clearExpiries d'"
  shows "map_sum id (map_prod clearExpiry clearExpiries) (saveTicket n m d t) =
         map_sum id (map_prod clearExpiry clearExpiries) (saveTicket n m d' t)"
proof -
  have "map_sum id (map_prod clearExpiry clearExpiries) (saveTicket n m d t) =
          saveTicket n m (clearExpiries d) (clearExpiry t)"
    by (rule saveTicket_clearExpiries [symmetric])
  also have "\<dots> = saveTicket n m (clearExpiries d') (clearExpiry t)"
    by (simp only: assms)
  also have "\<dots> = map_sum id (map_prod clearExpiry clearExpiries) (saveTicket n m d' t)"
    by (rule saveTicket_clearExpiries)
  finally show ?thesis .
qed

lemma getAvailableSeats_clearExpiries:
  "getAvailableSeats (clearExpiries d) r sid = getAvailableSeats d r sid"
proof -
  have "concat (map seatCodes (map clearExpiry coll)) = concat (map seatCodes coll)" for coll
    by (induction coll) (simp_all add: clearExpiry_keeps)
  then show ?thesis
    by (simp add: getAvailableSeats_def clearExpiries_fields booked_clearExpiry clearExpiry_keeps
          Let_def split: option.splits)
qed

lemma canBeUsedByUser_clearExpiries:
  "canBeUsedByUser now (clearExpiries d) p userId = canBeUsedByUser now d p userId"
  by (simp add: canBeUsedByUser_def clearExpiries_fields booked_clearExpiry clearExpiry_keeps)

text \<open>
  Claim C2, amended. The payment hook hands no error to \<open>next\<close>, whatever the payment
  and the ticket are: there is no \<open>HoldExpired\<close>. No operation of the sources looks at
  a stored expiry timestamp: on two databases that differ only in the values of
  \<open>pendingExpiresAt\<close>, the payment hook, the save of a new reservation, \<open>cancel\<close>
  and every sequence of operations without a removal by the TTL index lead to
  databases that again differ only in these values, with the same error or success;
  the list of available seats and the eligibility of a customer for a promotion are
  the same. The timestamp is read by the TTL index of the store alone.
\<close>

theorem hold_expiry_unread:
  "fst (paymentPreSave m d p) = None \<and>
   (clearExpiries d = clearExpiries d' \<longrightarrow>
      clearExpiries (snd (paymentPreSave m d p)) = clearExpiries (snd (paymentPreSave m d' p)) \<and>
      map_sum id (map_prod clearExpiry clearExpiries) (saveTicket True [] d t) =
        map_sum id (map_prod clearExpiry clearExpiries) (saveTicket True [] d' t) \<and>
      (clearExpiry c = clearExpiry c' \<longrightarrow>
         map_sum id (map_prod clearExpiry clearExpiries) (cancel tm d c actor reason) =
           map_sum id (map_prod clearExpiry clearExpiries) (cancel tm d' c' actor reason)) \<and>
      getAvailableSeats d r sid = getAvailableSeats d' r sid \<and>
      canBeUsedByUser now d q userId = canBeUsedByUser now d' q userId \<and>
      (noReap xs \<longrightarrow> clearExpiries (run d xs) = clearExpiries (run d' xs)))"
proof -
  have 1: "clearExpiries (snd (paymentPreSave m d p)) = clearExpiries (snd (paymentPreSave m d' p))"
    if e: "clearExpiries d = clearExpiries d'"
  proof -
    have "clearExpiries (snd (paymentPreSave m d p)) = snd (paymentPreSave m (clearExpiries d) p)"
      by (rule paymentPreSave_clearExpiries [symmetric])
    also have "\<dots> = snd (paymentPreSave m (clearExpiries d') p)" by (simp only: e)
    also have "\<dots> = clearExpiries (snd (paymentPreSave m d' p))"
      by (rule paymentPreSave_clearExpiries)
    finally show ?thesis .
  qed
  have 2: "getAvailableSeats d r sid = getAvailableSeats d' r sid"
    if e: "clearExpiries d = clearExpiries d'"
  proof -
    have "getAvailableSeats d r sid = getAvailableSeats (clearExpiries d) r sid"
      by (rule getAvailableSeats_clearExpiries [symmetric])
    also have "\<dots> = getAvailableSeats (clearExpiries d') r sid" by (simp only: e)
    also have "\<dots> = getAvailableSeats d' r sid" by (rule getAvailableSeats_clearExpiries)
    finally show ?thesis .
  qed
  have 3: "canBeUsedByUser now d q userId = canBeUsedByUser now d' q userId"
    if e: "clearExpiries d = clearExpiries d'"
  proof -
    have "canBeUsedByUser now d q userId = canBeUsedByUser now (clearExpiries d) q userId"
      by (rule canBeUsedByUser_clearExpiries [symmetric])
    also have "\<dots> = canBeUsedByUser now (clearExpiries d') q userId" by (simp only: e)
    also have "\<dots> = canBeUsedByUser now d' q userId" by (rule canBeUsedByUser_clearExpiries)
    finally show ?thesis .
  qed
  have 4: "map_sum id (map_prod clearExpiry clearExpiries) (cancel tm d c actor reason) =
           map_sum id (map_prod clearExpiry clearExpiries) (cancel tm d' c' actor reason)"
    if e: "clearExpiries d = clearExpiries d'" and f: "clearExpiry c = clearExpiry c'"
  proof -
    have "map_sum id (map_prod clearExpiry clearExpiries) (cancel tm d c actor reason) =
            cancel tm (clearExpiries d) (clearExpiry c) actor reason"
      by (rule cancel_clearExpiries [symmetric])
    also have "\<dots> = cancel tm (clearExpiries d') (clearExpiry c') actor reason"
      by (simp only: e f)
    also have "\<dots> = map_sum id (map_prod clearExpiry clearExpiries) (cancel tm d' c' actor reason)"
      by (rule cancel_clearExpiries)
    finally show ?thesis .
  qed
  from 1 2 3 4 saveTicket_same_but_expiry [of d d' True "[]" t] run_same_but_expiry [of xs d d']
    paymentPreSave_no_error [of m d p]
  show ?thesis by blast
qed

lemma long_payment: "paymentPreSave True longHeldDb successPayment = (None, longHeldDb)"
  by (simp add: paymentPreSave_def longHeldDb_def emptyDb_def successPayment_def pricingHook_keeps
        saveTicket_def validateTicket_def Let_def scenarioTicket_def)

lemma held_same_but_expiry: "clearExpiries heldDb = clearExpiries longHeldDb"
  by (simp add: heldDb_def longHeldDb_def clearExpiries_def clearExpiry_def)

theorem hold_expiry_unread_witness:
  "clearExpiries heldDb = clearExpiries longHeldDb \<and>
   tk_pendingExpiresAt (pricingHook True [] scenarioTicket) = 600000 \<and>
   noReap [PaymentSaved True successPayment, Create rivalTicket] \<and>
   paymentPreSave True heldDb successPayment = (None, heldDb) \<and>
   paymentPreSave True longHeldDb successPayment = (None, longHeldDb) \<and>
   map_sum id (map_prod clearExpiry clearExpiries) (saveTicket True [] heldDb rivalTicket) =
     map_sum id (map_prod clearExpiry clearExpiries) (saveTicket True [] longHeldDb rivalTicket) \<and>
   clearExpiry (pricingHook True [] scenarioTicket) =
     clearExpiry ((pricingHook True [] scenarioTicket)\<lparr>tk_pendingExpiresAt := 6000000\<rparr>) \<and>
   map_sum id (map_prod clearExpiry clearExpiries)
       (cancel 660000 heldDb (pricingHook True [] scenarioTicket) 7 ''late'') =
     map_sum id (map_prod clearExpiry clearExpiries)
       (cancel 660000 longHeldDb
          ((pricingHook True [] scenarioTicket)\<lparr>tk_pendingExpiresAt := 6000000\<rparr>) 7 ''late'') \<and>
   getAvailableSeats heldDb room2 3 = getAvailableSeats longHeldDb room2 3 \<and>
   canBeUsedByUser 50 heldDb summer10 7 = canBeUsedByUser 50 longHeldDb summer10 7 \<and>
   clearExpiries (run heldDb [PaymentSaved True successPayment, Create rivalTicket]) =
     clearExpiries (run longHeldDb [PaymentSaved True successPayment, Create rivalTicket])"
proof -
  have n: "noReap [PaymentSaved True successPayment, Create rivalTicket]"
    by (simp add: noReap_def isReap_def)
  have c: "clearExpiry (pricingHook True [] scenarioTicket) =
     clearExpiry ((pricingHook True [] scenarioTicket)\<lparr>tk_pendingExpiresAt := 6000000\<rparr>)"
    by (simp add: clearExpiry_def)
  from hold_expiry_unread [of True heldDb successPayment longHeldDb rivalTicket
      "pricingHook True [] scenarioTicket"
      "(pricingHook True [] scenarioTicket)\<lparr>tk_pendingExpiresAt := 6000000\<rparr>"
      660000 7 "''late''" room2 3 50
      summer10 7 "[PaymentSaved True successPayment, Create rivalTicket]"]
    held_same_but_expiry n c
  show ?thesis by (simp add: held_payment long_payment heldTicket_facts)
qed

lemma listed_seats:
  "map_sum id (map (apfst rs_code)) (getAvailableSeats listedDb room2 3) =
     Inr [(''A1'', Booked), (''A2'', Unbooked Available), (''B3'', Booked),
          (''B4'', Unbooked Available)]"
  by (simp add: getAvailableSeats_def listedDb_def heldDb_def emptyDb_def show3_def show1500_def
        room2_def heldTicket_facts Let_def)

text \<open>
  Claim C2 as stated fails in the hold scenario. The reservation is created at time 0
  and its hold ends at 600000. The payment success that arrives at 660000 is not
  answered with \<open>HoldExpired\<close>, and the list of available seats of the showing, a
  function that has no clock to read, still reports the seats A1 and B3 as booked.
\<close>

theorem hold_expiry_counterexample:
  "tk_status (pricingHook True [] scenarioTicket) = Pending \<and>
   tk_pendingExpiresAt (pricingHook True [] scenarioTicket) = defaultPendingExpiresAt 0 \<and>
   defaultPendingExpiresAt 0 < 660000 \<and>
   paymentPreSave True heldDb successPayment = (None, heldDb) \<and>
   map_sum id (map (apfst rs_code)) (getAvailableSeats listedDb room2 3) =
     Inr [(''A1'', Booked), (''A2'', Unbooked Available), (''B3'', Booked),
          (''B4'', Unbooked Available)]"
  by (simp add: held_payment heldTicket_facts defaultPendingExpiresAt_def listed_seats)

section \<open>C3: room conflicts\<close>

lemma overlapQuery_half_open:
  assumes "sc_startTime s < sc_endTime s" "sc_startTime e < sc_endTime e" "sc_id e \<noteq> sc_id s"
  shows "overlapQuery s e =
           (sc_roomId e = sc_roomId s \<and> sc_status e \<noteq> ScCancelled \<and>
            overlapsHalfOpen (sc_startTime s) (sc_endTime s) e)"
  using assms by (auto simp: overlapQuery_def overlapsHalfOpen_def)

lemma create_schedule:
  assumes v: "validateSchedule s" and mv: "movies d (sc_movieId s) = Some duration"
    and pos: "0 < duration + 30"
    and proper: "\<forall>e \<in> set (schedules d). sc_startTime e < sc_endTime e"
    and fresh: "sc_id s \<notin> sc_id ` set (schedules d)"
  defines "end \<equiv> sc_startTime s + (duration + 30) * 60000"
  defines "busy \<equiv> (\<exists>e \<in> set (schedules d). sc_roomId e = sc_roomId s \<and>
                      sc_status e \<noteq> ScCancelled \<and> overlapsHalfOpen (sc_startTime s) end e)"
  shows "saveSchedule True [] d s =
           (if busy then Inl RoomConflict
            else Inr (s\<lparr>sc_endTime := end\<rparr>,
                      d\<lparr>schedules := schedules d @ [s\<lparr>sc_endTime := end\<rparr>]\<rparr>))"
proof -
  let ?s1 = "s\<lparr>sc_endTime := end\<rparr>"
  from pos have lt: "sc_startTime ?s1 < sc_endTime ?s1" by (simp add: end_def)
  have q: "overlapQuery ?s1 e =
             (sc_roomId e = sc_roomId s \<and> sc_status e \<noteq> ScCancelled \<and>
              overlapsHalfOpen (sc_startTime s) end e)" if "e \<in> set (schedules d)" for e
  proof -
    from that fresh have "sc_id e \<noteq> sc_id ?s1" by (auto simp: image_iff)
    with overlapQuery_half_open [OF lt _ this] proper that show ?thesis by simp
  qed
  then have b: "(\<exists>e \<in> set (schedules d). overlapQuery ?s1 e) = busy"
    by (auto simp: busy_def)
  have nodup: "\<not> (\<exists>e \<in> set (schedules d). sc_id e = sc_id ?s1)"
    using fresh by (auto simp: image_iff)
  show ?thesis
  proof (cases busy)
    case True
    with b v mv show ?thesis by (simp add: saveSchedule_def Let_def end_def)
  next
    case False
    with b v mv nodup show ?thesis
      by (simp add: saveSchedule_def writeSchedule_def Let_def end_def)
  qed
qed

lemma show1400_rejected: "saveSchedule True [] roomDb show1400 = Inl RoomConflict"
  by (simp add: saveSchedule_def validateSchedule_def roomDb_def emptyDb_def show1400_def
        show1500_def stdPrices_def overlapQuery_def Let_def jle_def)

text \<open>
  Claim C3. The save of a new, valid showing whose movie exists, into a database whose
  stored showings have start before end, fails with the room conflict if and only if
  some stored showing of the same room that is not cancelled overlaps the half-open
  interval from the start to the computed end (start plus duration plus 30 minutes);
  otherwise the showing is stored. Touching boundaries are no overlap. Creating the
  14:00-16:00 showing in the room with the 15:00-17:00 showing is rejected.
\<close>

theorem room_conflict:
  "(validateSchedule s \<and> movies d (sc_movieId s) = Some duration \<and> 0 < duration + 30 \<and>
    (\<forall>e \<in> set (schedules d). sc_startTime e < sc_endTime e) \<and>
    sc_id s \<notin> sc_id ` set (schedules d) \<longrightarrow>
      (saveSchedule True [] d s = Inl RoomConflict) =
        (\<exists>e \<in> set (schedules d). sc_roomId e = sc_roomId s \<and> sc_status e \<noteq> ScCancelled \<and>
           overlapsHalfOpen (sc_startTime s) (sc_startTime s + (duration + 30) * 60000) e) \<and>
      (saveSchedule True [] d s \<noteq> Inl RoomConflict \<longrightarrow>
         saveSchedule True [] d s =
           Inr (s\<lparr>sc_endTime := sc_startTime s + (duration + 30) * 60000\<rparr>,
                d\<lparr>schedules := schedules d @
                     [s\<lparr>sc_endTime := sc_startTime s + (duration + 30) * 60000\<rparr>]\<rparr>))) \<and>
   saveSchedule True [] roomDb show1400 = Inl RoomConflict"
  using create_schedule [of s d duration]
  by (auto simp: show1400_rejected)

theorem room_conflict_witness:
  "validateSchedule show1400 \<and> movies roomDb (sc_movieId show1400) = Some 90 \<and>
   sc_startTime show1400 + (90 + 30) * 60000 = 57600000 \<and>
   sc_startTime show1500 = 54000000 \<and> sc_endTime show1500 = 61200000 \<and>
   saveSchedule True [] roomDb show1400 = Inl RoomConflict \<and>
   saveSchedule True [] roomDb show1700 =
     Inr (show1700\<lparr>sc_endTime := 68400000\<rparr>,
          roomDb\<lparr>schedules := [show1500, show1700\<lparr>sc_endTime := 68400000\<rparr>]\<rparr>)"
proof -
  have h: "validateSchedule show1400" "movies roomDb (sc_movieId show1400) = Some 90"
    "validateSchedule show1700" "movies roomDb (sc_movieId show1700) = Some 90"
    "\<forall>e \<in> set (schedules roomDb). sc_startTime e < sc_endTime e"
    "sc_id show1400 \<notin> sc_id ` set (schedules roomDb)"
    "sc_id show1700 \<notin> sc_id ` set (schedules roomDb)"
    "schedules roomDb = [show1500]"
    by (simp_all add: validateSchedule_def roomDb_def emptyDb_def show1400_def show1700_def
          show1500_def stdPrices_def jle_def)
  have t: "sc_startTime show1400 = 50400000" "sc_startTime show1700 = 61200000"
    "sc_startTime show1500 = 54000000" "sc_endTime show1500 = 61200000"
    "sc_roomId show1500 = 2" "sc_roomId show1400 = 2" "sc_roomId show1700 = 2"
    "sc_status show1500 = Scheduled"
    by (simp_all add: show1400_def show1700_def show1500_def)
  from room_conflict [of show1400 roomDb 90] h t
  have a: "saveSchedule True [] roomDb show1400 = Inl RoomConflict"
    by (simp add: overlapsHalfOpen_def)
  from room_conflict [of show1700 roomDb 90] h t
  have b: "saveSchedule True [] roomDb show1700 =
     Inr (show1700\<lparr>sc_endTime := 68400000\<rparr>,
          roomDb\<lparr>schedules := [show1500, show1700\<lparr>sc_endTime := 68400000\<rparr>]\<rparr>)"
    by (simp add: overlapsHalfOpen_def)
  from a b h t show ?thesis by simp
qed

section \<open>C4: subtotal and total of a reservation\<close>

lemma round53_Ints:
  assumes "q \<in> \<int>" "\<bar>q\<bar> \<le> 2 ^ 53"
  shows "round53 q = Fin q"
proof -
  from assms(1) obtain n where q: "q = of_int n" by (auto elim: Ints_cases)
  from assms(2) have "\<bar>of_int n :: rat\<bar> \<le> of_int (2 ^ 53)" by (simp add: q)
  then have "\<bar>n\<bar> \<le> 2 ^ 53" by (simp only: of_int_abs [symmetric] of_int_le_iff)
  then show ?thesis unfolding q by (rule round53_whole)
qed

lemma whole_val:
  assumes "whole x"
  shows "x = Fin (val x) \<and> 0 \<le> val x \<and> val x \<in> \<int>"
proof (cases x)
  case (Fin q)
  with assms have q: "0 \<le> q" "q = of_int \<lfloor>q\<rfloor>" by (simp_all add: whole_def)
  have "of_int \<lfloor>q\<rfloor> \<in> (\<int> :: rat set)" by (rule Ints_of_int)
  with q(2) have "q \<in> \<int>" by simp
  with Fin q(1) show ?thesis by (simp add: val_def)
qed (use assms in \<open>simp_all add: whole_def\<close>)

lemma sum_list_whole:
  "\<forall>x \<in> set xs. g x \<in> \<int> \<and> (0::rat) \<le> g x \<Longrightarrow>
     sum_list (map g xs) \<in> \<int> \<and> 0 \<le> sum_list (map g xs)"
  by (induction xs) (auto intro: Ints_add)

text \<open>
  A left fold of double additions over whole, non-negative summands is exact as long as
  the sum stays within \<open>2^53\<close>.
\<close>

lemma foldl_jadd_exact:
  assumes "\<forall>x \<in> set xs. g x \<in> \<int> \<and> 0 \<le> g x \<and> (g x \<le> 2 ^ 53 \<longrightarrow> f x = Fin (g x))"
    and "a \<in> \<int>" "0 \<le> a" "a + sum_list (map g xs) \<le> 2 ^ 53"
  shows "foldl (\<lambda>s x. jadd s (f x)) (Fin a) xs = Fin (a + sum_list (map g xs))"
  using assms
proof (induction xs arbitrary: a)
  case Nil
  then show ?case by simp
next
  case (Cons x xs)
  from Cons.prems(1) have gx: "g x \<in> \<int>" "0 \<le> g x" "g x \<le> 2 ^ 53 \<longrightarrow> f x = Fin (g x)"
    and rest: "\<forall>y \<in> set xs. g y \<in> \<int> \<and> 0 \<le> g y \<and> (g y \<le> 2 ^ 53 \<longrightarrow> f y = Fin (g y))"
    by simp_all
  from rest have "\<forall>y \<in> set xs. g y \<in> \<int> \<and> 0 \<le> g y" by blast
  then have s0: "0 \<le> sum_list (map g xs)" using sum_list_whole [of xs g] by blast
  from Cons.prems(4) have le: "a + g x + sum_list (map g xs) \<le> 2 ^ 53" by (simp add: add.assoc)
  with s0 Cons.prems(3) gx(2) have b: "a + g x \<le> 2 ^ 53" "g x \<le> 2 ^ 53" by linarith+
  with gx(3) have fx: "f x = Fin (g x)" by simp
  have i: "a + g x \<in> \<int>" using Cons.prems(2) gx(1) by (rule Ints_add)
  have n: "0 \<le> a + g x" using Cons.prems(3) gx(2) by simp
  then have "\<bar>a + g x\<bar> \<le> 2 ^ 53" using b(1) by simp
  with i have r: "round53 (a + g x) = Fin (a + g x)" by (rule round53_Ints)
  from Cons.IH [OF rest i n le] show ?case by (simp add: fx r add.assoc)
qed

lemma seatTotal_exact:
  assumes "\<forall>s \<in> set (tk_seats t). whole (ts_price s)"
    and "sum_list (map (\<lambda>s. val (ts_price s)) (tk_seats t)) \<le> 2 ^ 53"
  shows "seatTotal t = Fin (sum_list (map (\<lambda>s. val (ts_price s)) (tk_seats t)))"
proof -
  have "\<forall>s \<in> set (tk_seats t). val (ts_price s) \<in> \<int> \<and> 0 \<le> val (ts_price s) \<and>
          (val (ts_price s) \<le> 2 ^ 53 \<longrightarrow> ts_price s = Fin (val (ts_price s)))"
    using assms(1) whole_val by blast
  from foldl_jadd_exact [of "tk_seats t" "\<lambda>s. val (ts_price s)" ts_price 0, OF this] assms(2)
  show ?thesis by (simp add: seatTotal_def)
qed

lemma jmul_whole:
  assumes "whole p" "whole q"
  shows "val p * val q \<in> \<int> \<and> 0 \<le> val p * val q \<and>
         (val p * val q \<le> 2 ^ 53 \<longrightarrow> jmul p q = Fin (val p * val q))"
proof -
  from whole_val [OF assms(1)] whole_val [OF assms(2)]
  have p: "p = Fin (val p)" "0 \<le> val p" "val p \<in> \<int>"
    and q: "q = Fin (val q)" "0 \<le> val q" "val q \<in> \<int>" by blast+
  have i: "val p * val q \<in> \<int>" using p(3) q(3) by (rule Ints_mult)
  have n: "0 \<le> val p * val q" using p(2) q(2) by simp
  have "jmul p q = Fin (val p * val q)" if "val p * val q \<le> 2 ^ 53"
  proof -
    from that n have "\<bar>val p * val q\<bar> \<le> 2 ^ 53" by simp
    with i have "round53 (val p * val q) = Fin (val p * val q)" by (rule round53_Ints)
    moreover have "jmul p q = round53 (val p * val q)"
      by (subst p(1), subst q(1)) simp
    ultimately show ?thesis by simp
  qed
  with i n show ?thesis by blast
qed

lemma comboTotal_exact:
  assumes "\<forall>c \<in> set (tk_combos t). whole (ci_price c) \<and> whole (ci_qty c)"
    and "sum_list (map (\<lambda>c. val (ci_price c) * val (ci_qty c)) (tk_combos t)) \<le> 2 ^ 53"
  shows "comboTotal t = Fin (sum_list (map (\<lambda>c. val (ci_price c) * val (ci_qty c)) (tk_combos t)))"
proof -
  have "\<forall>c \<in> set (tk_combos t).
          val (ci_price c) * val (ci_qty c) \<in> \<int> \<and> 0 \<le> val (ci_price c) * val (ci_qty c) \<and>
          (val (ci_price c) * val (ci_qty c) \<le> 2 ^ 53 \<longrightarrow>
             jmul (ci_price c) (ci_qty c) = Fin (val (ci_price c) * val (ci_qty c)))"
    using assms(1) jmul_whole by blast
  from foldl_jadd_exact [of "tk_combos t" "\<lambda>c. val (ci_price c) * val (ci_qty c)"
      "\<lambda>c. jmul (ci_price c) (ci_qty c)" 0, OF this] assms(2)
  show ?thesis by (simp add: comboTotal_def)
qed

lemma priced_exact:
  assumes p: "priced u" and w: "wholeAmounts u" and le: "exactSubtotal u \<le> 2 ^ 53"
  shows "tk_subtotal u = Fin (exactSubtotal u) \<and>
         (whole (tk_discount u) \<and> val (tk_discount u) \<le> 2 ^ 53 \<longrightarrow>
            tk_totalAmount u = Fin (exactSubtotal u - val (tk_discount u)))"
proof -
  let ?S = "sum_list (map (\<lambda>s. val (ts_price s)) (tk_seats u))"
  let ?C = "sum_list (map (\<lambda>c. val (ci_price c) * val (ci_qty c)) (tk_combos u))"
  from w have ws: "\<forall>s \<in> set (tk_seats u). whole (ts_price s)"
    and wc: "\<forall>c \<in> set (tk_combos u). whole (ci_price c) \<and> whole (ci_qty c)"
    by (simp_all add: wholeAmounts_def)
  from ws have "\<forall>s \<in> set (tk_seats u). val (ts_price s) \<in> \<int> \<and> 0 \<le> val (ts_price s)"
    using whole_val by blast
  then have S: "?S \<in> \<int>" "0 \<le> ?S" using sum_list_whole [of "tk_seats u" "\<lambda>s. val (ts_price s)"] by blast+
  from wc have "\<forall>c \<in> set (tk_combos u).
      val (ci_price c) * val (ci_qty c) \<in> \<int> \<and> 0 \<le> val (ci_price c) * val (ci_qty c)"
    using jmul_whole by blast
  then have C: "?C \<in> \<int>" "0 \<le> ?C"
    using sum_list_whole [of "tk_combos u" "\<lambda>c. val (ci_price c) * val (ci_qty c)"] by blast+
  from le have sc: "?S + ?C \<le> 2 ^ 53" by (simp add: exactSubtotal_def)
  with S(2) C(2) have "?S \<le> 2 ^ 53" "?C \<le> 2 ^ 53" by linarith+
  then have st: "seatTotal u = Fin ?S" and ct: "comboTotal u = Fin ?C"
    using seatTotal_exact [OF ws] comboTotal_exact [OF wc] by blast+
  have "?S + ?C \<in> \<int>" using S(1) C(1) by (rule Ints_add)
  moreover have "\<bar>?S + ?C\<bar> \<le> 2 ^ 53" using sc S(2) C(2) by simp
  ultimately have "round53 (?S + ?C) = Fin (?S + ?C)" by (rule round53_Ints)
  with p st ct have sub: "tk_subtotal u = Fin (exactSubtotal u)"
    by (simp add: priced_def exactSubtotal_def)
  have "tk_totalAmount u = Fin (exactSubtotal u - val (tk_discount u))"
    if d: "whole (tk_discount u)" "val (tk_discount u) \<le> 2 ^ 53"
  proof -
    from whole_val [OF d(1)]
    have k: "tk_discount u = Fin (val (tk_discount u))" "0 \<le> val (tk_discount u)"
      "val (tk_discount u) \<in> \<int>" by blast+
    have i: "exactSubtotal u - val (tk_discount u) \<in> \<int>"
      using \<open>?S + ?C \<in> \<int>\<close> k(3) by (simp add: exactSubtotal_def)
    have "0 \<le> exactSubtotal u" using S(2) C(2) by (simp add: exactSubtotal_def)
    with le d(2) k(2) have "\<bar>exactSubtotal u - val (tk_discount u)\<bar> \<le> 2 ^ 53" by linarith
    with i have r: "round53 (exactSubtotal u - val (tk_discount u)) =
                      Fin (exactSubtotal u - val (tk_discount u))" by (rule round53_Ints)
    from p have "tk_totalAmount u = jsub (tk_subtotal u) (tk_discount u)" by (simp add: priced_def)
    also have "\<dots> = jsub (Fin (exactSubtotal u)) (Fin (val (tk_discount u)))"
      using sub k(1) by simp
    also have "\<dots> = Fin (exactSubtotal u - val (tk_discount u))"
      using r by (simp add: jsub_def)
    finally show ?thesis .
  qed
  with sub show ?thesis by blast
qed

lemma run_priced_empty:
  assumes "tickets d0 = []" "u \<in> set (tickets (run d0 xs))"
  shows "priced u"
proof -
  from assms(1) have "\<forall>u \<in> set (tickets d0). priced u" by simp
  then have "\<forall>u \<in> set (tickets (run d0 xs)). priced u" by (rule run_priced)
  with assms(2) show ?thesis by blast
qed

text \<open>
  Claim C4, amended. Every reservation that the operations of the sources leave in the
  Ticket collection, starting from an empty collection, has as its subtotal the sum of
  its seat prices plus the sum of unit price times quantity over its line items as
  double arithmetic computes it from left to right, if that value is finite, and as
  its total the double difference of subtotal and discount, if these are finite. When
  the seat prices, unit prices and quantities are whole numbers and their exact sum is
  at most \<open>2^53\<close>, the subtotal is that exact sum; when moreover the discount is a whole
  number of at most \<open>2^53\<close>, the total is exactly subtotal minus discount. A new
  reservation with seat prices 120000 and 90000, one item of quantity 2 at 50000 and
  no promotion is saved with subtotal 310000, discount 0 and total 310000.
\<close>

theorem ticket_totals:
  "(tickets d0 = [] \<and> u \<in> set (tickets (run d0 xs)) \<longrightarrow>
      (isFinite (jadd (seatTotal u) (comboTotal u)) \<longrightarrow>
         tk_subtotal u = jadd (seatTotal u) (comboTotal u)) \<and>
      (isFinite (tk_subtotal u) \<and> isFinite (tk_discount u) \<longrightarrow>
         tk_totalAmount u = jsub (tk_subtotal u) (tk_discount u)) \<and>
      (wholeAmounts u \<and> exactSubtotal u \<le> 2 ^ 53 \<longrightarrow>
         tk_subtotal u = Fin (exactSubtotal u) \<and>
         (whole (tk_discount u) \<and> val (tk_discount u) \<le> 2 ^ 53 \<longrightarrow>
            tk_totalAmount u = Fin (exactSubtotal u - val (tk_discount u))))) \<and>
   (map ts_price (tk_seats t) = [Fin 120000, Fin 90000] \<and>
    map (\<lambda>c. (ci_qty c, ci_price c)) (tk_combos t) = [(Fin 2, Fin 50000)] \<and>
    vc_discountValue (tk_voucher t) = None \<and>
    saveTicket True [] d t = Inr (t', d') \<longrightarrow>
      tk_subtotal t' = Fin 310000 \<and> tk_discount t' = Fin 0 \<and> tk_totalAmount t' = Fin 310000)"
proof -
  have inv: "(isFinite (jadd (seatTotal u) (comboTotal u)) \<longrightarrow>
         tk_subtotal u = jadd (seatTotal u) (comboTotal u)) \<and>
      (isFinite (tk_subtotal u) \<and> isFinite (tk_discount u) \<longrightarrow>
         tk_totalAmount u = jsub (tk_subtotal u) (tk_discount u)) \<and>
      (wholeAmounts u \<and> exactSubtotal u \<le> 2 ^ 53 \<longrightarrow>
         tk_subtotal u = Fin (exactSubtotal u) \<and>
         (whole (tk_discount u) \<and> val (tk_discount u) \<le> 2 ^ 53 \<longrightarrow>
            tk_totalAmount u = Fin (exactSubtotal u - val (tk_discount u))))"
    if "tickets d0 = [] \<and> u \<in> set (tickets (run d0 xs))"
  proof -
    from that have p: "priced u" using run_priced_empty by blast
    from p have "tk_subtotal u = jadd (seatTotal u) (comboTotal u)"
      "tk_totalAmount u = jsub (tk_subtotal u) (tk_discount u)"
      by (simp_all add: priced_def)
    with priced_exact [OF p] show ?thesis by blast
  qed
  have scen: "tk_subtotal t' = Fin 310000 \<and> tk_discount t' = Fin 0 \<and> tk_totalAmount t' = Fin 310000"
    if a: "map ts_price (tk_seats t) = [Fin 120000, Fin 90000] \<and>
      map (\<lambda>c. (ci_qty c, ci_price c)) (tk_combos t) = [(Fin 2, Fin 50000)] \<and>
      vc_discountValue (tk_voucher t) = None \<and>
      saveTicket True [] d t = Inr (t', d')"
  proof -
    from a have t': "t' = pricingHook True [] t" using saveTicket_tickets by blast
    from a obtain s1 s2 where s: "tk_seats t = [s1, s2]" "ts_price s1 = Fin 120000"
      "ts_price s2 = Fin 90000"
      by (auto simp: map_eq_Cons_conv)
    from a obtain c where c: "tk_combos t = [c]" "ci_qty c = Fin 2" "ci_price c = Fin 50000"
      by (auto simp: map_eq_Cons_conv)
    from a have v: "vc_discountValue (tk_voucher t) = None" by simp
    show ?thesis
      by (simp add: t' pricingHook_def Let_def s c v jsub_def)
  qed
  from inv scen show ?thesis by blast
qed

lemma scenario_whole:
  "wholeAmounts (pricingHook True [] scenarioTicket)"
  "exactSubtotal (pricingHook True [] scenarioTicket) = 310000"
  "whole (Fin 0)" "val (Fin 0) = 0"
  by (simp_all add: wholeAmounts_def exactSubtotal_def whole_def val_def pricingHook_keeps
        pricingHook_def Let_def scenarioTicket_def)

theorem ticket_totals_witness:
  "tickets emptyDb = [] \<and>
   tickets (run emptyDb [Create scenarioTicket]) = [pricingHook True [] scenarioTicket] \<and>
   saveTicket True [] emptyDb scenarioTicket =
     Inr (pricingHook True [] scenarioTicket,
          emptyDb\<lparr>tickets := [pricingHook True [] scenarioTicket]\<rparr>) \<and>
   wholeAmounts (pricingHook True [] scenarioTicket) \<and>
   exactSubtotal (pricingHook True [] scenarioTicket) = 310000 \<and>
   tk_subtotal (pricingHook True [] scenarioTicket) = Fin 310000 \<and>
   tk_discount (pricingHook True [] scenarioTicket) = Fin 0 \<and>
   tk_totalAmount (pricingHook True [] scenarioTicket) = Fin 310000"
proof -
  have r: "tickets (run emptyDb [Create scenarioTicket]) = [pricingHook True [] scenarioTicket]"
    by (simp add: run_def step_def scenario_save)
  have h: "map ts_price (tk_seats scenarioTicket) = [Fin 120000, Fin 90000] \<and>
    map (\<lambda>c. (ci_qty c, ci_price c)) (tk_combos scenarioTicket) = [(Fin 2, Fin 50000)] \<and>
    vc_discountValue (tk_voucher scenarioTicket) = None"
    by (simp add: scenarioTicket_def noVoucher_def)
  have e: "tickets emptyDb = []" by (simp add: emptyDb_def)
  from ticket_totals [of emptyDb "pricingHook True [] scenarioTicket" "[Create scenarioTicket]"
        scenarioTicket emptyDb "pricingHook True [] scenarioTicket"
        "emptyDb\<lparr>tickets := [pricingHook True [] scenarioTicket]\<rparr>"]
    h scenario_save r e
  show ?thesis by (simp add: scenario_whole)
qed

lemma big_valid: "validateTicket bigTicket"
  by (simp add: validateTicket_def bigTicket_def scenarioTicket_def noVoucher_def jle_def)

lemma seven_valid: "validateTicket sevenTicket"
  by (simp add: validateTicket_def sevenTicket_def scenarioTicket_def jle_def)

text \<open>
  Three roundings: \<open>2^53 + 1\<close> lies halfway between two doubles, 6999.93 is no double,
  and the difference of 99999 and the double next to 6999.93 lies halfway again.
\<close>

lemma big_add: "round53 9007199254740993 = Fin 9007199254740992"
  using round53_tie [of 53 9007199254740993 4503599627370496] by simp

lemma seven_div: "round53 (699993 / 100) = Fin (962063053577257 / 137438953472)"
  using round53_near [of 12 "699993 / 100" 7696504428618056] by simp

lemma seven_sub:
  "round53 (12781694854669271 / 137438953472) = Fin (1597711856833659 / 17179869184)"
  using round53_tie [of 16 "12781694854669271 / 137438953472" 6390847427334635] by simp

lemma big_sums:
  "tk_subtotal (pricingHook True [] bigTicket) = Fin 9007199254740992"
  "exactSubtotal (pricingHook True [] bigTicket) = 9007199254740993"
  "wholeAmounts (pricingHook True [] bigTicket)"
  by (simp_all add: pricingHook_def Let_def bigTicket_def scenarioTicket_def big_add
        exactSubtotal_def wholeAmounts_def whole_def val_def)

lemma seven_sums:
  "tk_subtotal (pricingHook True [] sevenTicket) = Fin 99999"
  "tk_discount (pricingHook True [] sevenTicket) = Fin (962063053577257 / 137438953472)"
  "tk_totalAmount (pricingHook True [] sevenTicket) = Fin (1597711856833659 / 17179869184)"
  by (simp_all add: pricingHook_def Let_def sevenTicket_def scenarioTicket_def jtruthy_def
        jsub_def seven_div seven_sub)

text \<open>
  Claim C4 as stated fails outside these bounds. With seat prices \<open>2^53\<close> and 1 the
  stored subtotal is \<open>2^53\<close>, one less than the sum. With one seat at 99999 and a
  voucher of 7 percent the stored discount is the double next to 6999.93, and the
  stored total is the double next to the difference, not the difference of the stored
  subtotal and the stored discount.
\<close>

theorem ticket_totals_counterexample:
  "tickets (run emptyDb [Create bigTicket]) = [pricingHook True [] bigTicket] \<and>
   wholeAmounts (pricingHook True [] bigTicket) \<and>
   exactSubtotal (pricingHook True [] bigTicket) = 9007199254740993 \<and>
   tk_subtotal (pricingHook True [] bigTicket) = Fin 9007199254740992 \<and>
   tickets (run emptyDb [Create sevenTicket]) = [pricingHook True [] sevenTicket] \<and>
   tk_subtotal (pricingHook True [] sevenTicket) = Fin 99999 \<and>
   tk_discount (pricingHook True [] sevenTicket) = Fin (962063053577257 / 137438953472) \<and>
   tk_totalAmount (pricingHook True [] sevenTicket) = Fin (1597711856833659 / 17179869184) \<and>
   (99999 :: rat) - 962063053577257 / 137438953472 \<noteq> 1597711856833659 / 17179869184"
  by (simp add: run_def step_def create_first big_valid seven_valid big_sums seven_sums)

section \<open>C5: the discount of a promotion\<close>

lemma cap_jmin: "(if jtruthy m \<and> jless m a then m else a) = (if jtruthy m then jmin a m else a)"
  by (cases a; cases m) (auto simp: jmin_def jtruthy_def)

lemma validateAndApply_result:
  assumes "validateAndApply up now d code userId amount movieId genres = Inr r"
  shows "\<exists>p. find (\<lambda>p. pr_code p = up code \<and> pr_isActive p \<and>
                       pr_startDate p \<le> now \<and> pr_endDate p \<ge> now) (promotions d) = Some p \<and>
             ap_id r = pr_id p \<and> ap_code r = pr_code p \<and> ap_type r = pr_type p \<and>
             ap_value r = pr_value p \<and> ap_maxDiscount r = pr_maxDiscount p \<and>
             ap_discountAmount r =
               discountOf (pr_type p = Percent) (pr_value p) (pr_maxDiscount p) amount"
proof (cases "find (\<lambda>p. pr_code p = up code \<and> pr_isActive p \<and>
                      pr_startDate p \<le> now \<and> pr_endDate p \<ge> now) (promotions d)")
  case None
  with assms show ?thesis by (simp add: validateAndApply_def)
next
  case (Some p)
  with assms have
    r: "r = \<lparr>ap_id = pr_id p, ap_code = pr_code p, ap_type = pr_type p, ap_value = pr_value p,
             ap_maxDiscount = pr_maxDiscount p,
             ap_discountAmount =
               (if pr_type p = Percent then
                 (let a = jdiv100 (jmul amount (pr_value p))
                  in case pr_maxDiscount p of
                       None \<Rightarrow> a
                     | Some m \<Rightarrow> if jtruthy m \<and> jless m a then m else a)
               else jmin (pr_value p) amount)\<rparr>"
    by (simp add: validateAndApply_def Let_def split: if_splits)
  have "ap_discountAmount r =
          discountOf (pr_type p = Percent) (pr_value p) (pr_maxDiscount p) amount"
    by (cases "pr_maxDiscount p")
       (simp_all add: r discountOf_def cappedPercent_def Let_def cap_jmin)
  with r show ?thesis by (simp add: Some)
qed

lemma pricingHook_voucher:
  assumes "vc_discountValue (tk_voucher t) = Some v" "jtruthy v"
  shows "tk_discount (pricingHook True m t) =
           discountOf (vc_discountType (tk_voucher t) = Some Percent) v
             (vc_maxDiscount (tk_voucher t)) (tk_subtotal (pricingHook True m t))"
  using assms
  by (cases "vc_maxDiscount (tk_voucher t)")
     (simp_all add: pricingHook_def discountOf_def cappedPercent_def Let_def cap_jmin)

lemma percent_exact:
  assumes "0 \<le> n" "n \<le> 2 ^ 53" "a * v = of_int n" "100 dvd n"
  shows "cappedPercent (Fin a) (Fin v) None = Fin (a * v / 100)"
proof -
  from assms(1,2) have "\<bar>n\<bar> \<le> 2 ^ 53" by simp
  then have m: "round53 (of_int n) = Fin (of_int n)" by (rule round53_whole)
  from assms(4) obtain k where k: "n = 100 * k" by (auto elim: dvdE)
  with assms(1,2) have "\<bar>k\<bar> \<le> 2 ^ 53" by simp
  then have r: "round53 (of_int k) = Fin (of_int k)" by (rule round53_whole)
  have q: "(of_int n :: rat) / 100 = of_int k" by (simp add: k)
  have "cappedPercent (Fin a) (Fin v) None = jdiv100 (round53 (a * v))"
    by (simp add: cappedPercent_def)
  also have "\<dots> = jdiv100 (Fin (of_int n))" by (simp only: assms(3) m)
  also have "\<dots> = round53 (of_int n / 100)" by simp
  also have "\<dots> = Fin (of_int n / 100)" by (simp only: q r)
  also have "\<dots> = Fin (a * v / 100)" by (simp only: assms(3))
  finally show ?thesis .
qed

text \<open>
  Claim C5, amended. \<open>validateAndApply\<close> answers for the stored promotion that its
  query finds (code in upper case, active, inside its window), and copies its id, code,
  type, value and maximum discount. The discount is computed in doubles: for a percent
  promotion the product of amount and value is rounded, divided by 100 and rounded, and
  capped at the maximum discount when one is set and is not 0; for a fixed promotion it
  is \<open>Math.min(value, amount)\<close>. The pricing hook of a new reservation computes the
  same from the embedded voucher and the subtotal, for finite values, and the total is
  the double difference of subtotal and discount. When amount times value is a whole
  number of at most \<open>2^53\<close> that 100 divides, the percent discount without a cap is
  exactly \<open>amount*value/100\<close>. With amount 310000, percent 10 and maximum 25000 the
  discount is 25000 and the total 285000.
\<close>

theorem promotion_discount:
  "(validateAndApply up now d code userId amount movieId genres = Inr r \<longrightarrow>
      (\<exists>p. find (\<lambda>p. pr_code p = up code \<and> pr_isActive p \<and>
                       pr_startDate p \<le> now \<and> pr_endDate p \<ge> now) (promotions d) = Some p \<and>
           ap_id r = pr_id p \<and> ap_code r = pr_code p \<and> ap_type r = pr_type p \<and>
           ap_value r = pr_value p \<and> ap_maxDiscount r = pr_maxDiscount p \<and>
           ap_discountAmount r =
             discountOf (pr_type p = Percent) (pr_value p) (pr_maxDiscount p) amount)) \<and>
   (saveTicket True [] e t = Inr (t', e') \<and> vc_discountValue (tk_voucher t) = Some v \<and>
    jtruthy v \<and> isFinite v \<and> isFinite (tk_subtotal t') \<longrightarrow>
      tk_discount t' =
        discountOf (vc_discountType (tk_voucher t) = Some Percent) v
          (vc_maxDiscount (tk_voucher t)) (tk_subtotal t') \<and>
      tk_totalAmount t' = jsub (tk_subtotal t') (tk_discount t')) \<and>
   (0 \<le> n \<and> n \<le> 2 ^ 53 \<and> a * w = of_int n \<and> 100 dvd n \<longrightarrow>
      cappedPercent (Fin a) (Fin w) None = Fin (a * w / 100)) \<and>
   discountOf True (Fin 10) (Some (Fin 25000)) (Fin 310000) = Fin 25000 \<and>
   jsub (Fin 310000) (discountOf True (Fin 10) (Some (Fin 25000)) (Fin 310000)) = Fin 285000"
proof -
  have b: "tk_discount t' =
        discountOf (vc_discountType (tk_voucher t) = Some Percent) v
          (vc_maxDiscount (tk_voucher t)) (tk_subtotal t') \<and>
      tk_totalAmount t' = jsub (tk_subtotal t') (tk_discount t')"
    if h: "saveTicket True [] e t = Inr (t', e') \<and> vc_discountValue (tk_voucher t) = Some v \<and>
           jtruthy v \<and> isFinite v \<and> isFinite (tk_subtotal t')"
  proof -
    from h have t': "t' = pricingHook True [] t" using saveTicket_tickets by blast
    have "priced t'" unfolding t' by (rule pricingHook_priced)
    then have "tk_totalAmount t' = jsub (tk_subtotal t') (tk_discount t')" by (simp add: priced_def)
    with pricingHook_voucher [of t v "[]"] h show ?thesis by (simp add: t')
  qed
  have c: "discountOf True (Fin 10) (Some (Fin 25000)) (Fin 310000) = Fin 25000"
    by (simp add: discountOf_def cappedPercent_def jtruthy_def jmin_def)
  have s: "jsub (Fin 310000) (discountOf True (Fin 10) (Some (Fin 25000)) (Fin 310000)) =
             Fin 285000"
    by (simp add: c jsub_def)
  from validateAndApply_result [of up now d code userId amount movieId genres r] b
    percent_exact [of n a w] c s
  show ?thesis by blast
qed

lemma upper_summer10: "toUpperCaseAscii ''summer10'' = ''SUMMER10''"
  by code_simp

lemma summer10_apply:
  "validateAndApply toUpperCaseAscii 50 promoDb ''summer10'' None (Fin 310000) None [] =
     Inr \<lparr>ap_id = 1, ap_code = ''SUMMER10'', ap_type = Percent, ap_value = Fin 10,
          ap_maxDiscount = Some (Fin 25000), ap_discountAmount = Fin 25000\<rparr>"
  by (simp add: validateAndApply_def promoDb_def emptyDb_def summer10_def upper_summer10
        truthyInt_def Let_def jtruthy_def)

lemma summer10_found:
  "find (\<lambda>p. pr_code p = toUpperCaseAscii ''summer10'' \<and> pr_isActive p \<and>
              pr_startDate p \<le> 50 \<and> pr_endDate p \<ge> 50) (promotions promoDb) = Some summer10"
  by (simp add: promoDb_def emptyDb_def summer10_def upper_summer10)

lemma upper_zerocap: "toUpperCaseAscii ''ZEROCAP'' = ''ZEROCAP''"
  by code_simp

lemma upper_SUMMER10: "toUpperCaseAscii ''SUMMER10'' = ''SUMMER10''"
  by code_simp

lemma summer_valid: "validateTicket summerTicket"
  by (simp add: validateTicket_def summerTicket_def scenarioTicket_def summer10Voucher_def
        jle_def)

lemma summerTicket_save:
  "saveTicket True [] emptyDb summerTicket =
     Inr (pricingHook True [] summerTicket,
          emptyDb\<lparr>tickets := [pricingHook True [] summerTicket]\<rparr>)"
  using summer_valid by (rule create_first)

lemma summerTicket_subtotal: "tk_subtotal (pricingHook True [] summerTicket) = Fin 310000"
  by (simp add: pricingHook_def summerTicket_def scenarioTicket_def Let_def)

theorem promotion_discount_witness:
  "validateAndApply toUpperCaseAscii 50 promoDb ''summer10'' None (Fin 310000) None [] =
     Inr \<lparr>ap_id = 1, ap_code = ''SUMMER10'', ap_type = Percent, ap_value = Fin 10,
          ap_maxDiscount = Some (Fin 25000), ap_discountAmount = Fin 25000\<rparr> \<and>
   find (\<lambda>p. pr_code p = toUpperCaseAscii ''summer10'' \<and> pr_isActive p \<and>
              pr_startDate p \<le> 50 \<and> pr_endDate p \<ge> 50) (promotions promoDb) = Some summer10 \<and>
   saveTicket True [] emptyDb summerTicket =
     Inr (pricingHook True [] summerTicket,
          emptyDb\<lparr>tickets := [pricingHook True [] summerTicket]\<rparr>) \<and>
   vc_discountValue (tk_voucher summerTicket) = Some (Fin 10) \<and>
   vc_discountType (tk_voucher summerTicket) = Some Percent \<and>
   tk_subtotal (pricingHook True [] summerTicket) = Fin 310000 \<and>
   tk_discount (pricingHook True [] summerTicket) = Fin 25000 \<and>
   tk_totalAmount (pricingHook True [] summerTicket) = Fin 285000 \<and>
   (310000 :: rat) * 10 = of_int 3100000 \<and> 100 dvd (3100000 :: int) \<and>
   cappedPercent (Fin 310000) (Fin 10) None = Fin 31000"
proof -
  have v: "vc_discountValue (tk_voucher summerTicket) = Some (Fin 10)"
          "vc_discountType (tk_voucher summerTicket) = Some Percent"
          "vc_maxDiscount (tk_voucher summerTicket) = Some (Fin 25000)"
    by (simp_all add: summerTicket_def summer10Voucher_def)
  have f: "jtruthy (Fin 10)" "isFinite (Fin 10)" "isFinite (Fin 310000)"
    by (simp_all add: jtruthy_def isFinite_def)
  have n: "(0::int) \<le> 3100000" "(3100000::int) \<le> 2 ^ 53" "(310000 :: rat) * 10 = of_int 3100000"
    "100 dvd (3100000 :: int)"
    by simp_all
  from promotion_discount [of toUpperCaseAscii 50 promoDb "''summer10''" None "Fin 310000" None "[]"
      "\<lparr>ap_id = 1, ap_code = ''SUMMER10'', ap_type = Percent, ap_value = Fin 10,
          ap_maxDiscount = Some (Fin 25000), ap_discountAmount = Fin 25000\<rparr>"
      emptyDb summerTicket "pricingHook True [] summerTicket"
      "emptyDb\<lparr>tickets := [pricingHook True [] summerTicket]\<rparr>" "Fin 10" 3100000 310000 10]
    summer10_apply summerTicket_save summerTicket_subtotal v f n summer10_found
  show ?thesis by (simp add: summer10_def jsub_def)
qed

lemma percent_140001: "round53 (140001 / 10) = Fin (7696636370013389 / 549755813888)"
  using round53_near [of 13 "140001 / 10" 7696636370013389] by simp

text \<open>
  Claim C5 as stated fails in two ways. For a promotion whose maximum discount is 0 the
  cap of the specification gives 0, the code gives the full percentage. For the amount
  140001 at 10 percent the discount is the double next to 14000.1, not
  \<open>amount*value/100\<close>.
\<close>

theorem promotion_discount_counterexample:
  "validateAndApply toUpperCaseAscii 50 zeroCapDb ''ZEROCAP'' None (Fin 1000) None [] =
     Inr \<lparr>ap_id = 1, ap_code = ''ZEROCAP'', ap_type = Percent, ap_value = Fin 10,
          ap_maxDiscount = Some (Fin 0), ap_discountAmount = Fin 100\<rparr> \<and>
   specCappedPercent 1000 10 (Some 0) = 0 \<and>
   validateAndApply toUpperCaseAscii 50 promoDb ''SUMMER10'' None (Fin 140001) None [] =
     Inr \<lparr>ap_id = 1, ap_code = ''SUMMER10'', ap_type = Percent, ap_value = Fin 10,
          ap_maxDiscount = Some (Fin 25000),
          ap_discountAmount = Fin (7696636370013389 / 549755813888)\<rparr> \<and>
   specCappedPercent 140001 10 (Some 25000) = 140001 / 10 \<and>
   (140001 / 10 :: rat) \<noteq> 7696636370013389 / 549755813888"
  by (simp add: validateAndApply_def zeroCapDb_def promoDb_def emptyDb_def summer10_def
        upper_zerocap upper_SUMMER10 truthyInt_def Let_def specCappedPercent_def jtruthy_def
        percent_140001)

section \<open>C6: the price snapshot and later edits\<close>

lemma saveTicket_reads_tickets:
  "tickets d = tickets e \<Longrightarrow>
     map_sum id (\<lambda>(t', d'). (t', tickets d')) (saveTicket n m d t) =
     map_sum id (\<lambda>(t', e'). (t', tickets e')) (saveTicket n m e t)"
  by (simp add: saveTicket_def Let_def tickets_occupancyPostSave split: sum.splits)

lemma tickets_savePromotion: "savePromotion d p = Inr (p', d') \<Longrightarrow> tickets d' = tickets d"
  by (auto simp: savePromotion_def split: if_splits)

lemma tickets_incrementUsage: "incrementUsage d p = Inr (p', d') \<Longrightarrow> tickets d' = tickets d"
  by (auto simp: incrementUsage_def Let_def split: if_splits dest: tickets_savePromotion)

text \<open>
  Claim C6. The save of a reservation, also one that recomputes the sums, reads the
  Ticket collection and the reservation only: on two databases with the same tickets
  and any schedules, price tables and promotions it stores the same document and
  leaves the same tickets. The save of a schedule, the save of a promotion and
  \<open>incrementUsage\<close> leave every stored reservation as it is.
\<close>

theorem snapshot_frame:
  "(tickets d = tickets e \<longrightarrow>
      map_sum id (\<lambda>(t', d'). (t', tickets d')) (saveTicket n m d t) =
      map_sum id (\<lambda>(t', e'). (t', tickets e')) (saveTicket n m e t)) \<and>
   (saveSchedule n2 m2 d s = Inr (s', d1) \<longrightarrow> tickets d1 = tickets d) \<and>
   (savePromotion d p = Inr (p', d2) \<longrightarrow> tickets d2 = tickets d) \<and>
   (incrementUsage d q = Inr (q', d3) \<longrightarrow> tickets d3 = tickets d)"
  using saveTicket_reads_tickets [of d e n m t] tickets_saveSchedule [of n2 m2 d s s' d1]
    tickets_savePromotion [of d p p' d2] tickets_incrementUsage [of d q q' d3]
  by blast

lemma storedSummer_facts:
  "tk_id (pricingHook True [] summerTicket) = 1"
  "tk_scheduleId (pricingHook True [] summerTicket) = 3"
  "validateTicket (pricingHook True [] summerTicket)"
  "tk_subtotal (pricingHook True [] summerTicket) = Fin 310000"
  "tk_discount (pricingHook True [] summerTicket) = Fin 25000"
  "tk_totalAmount (pricingHook True [] summerTicket) = Fin 285000"
  "tk_voucher (pricingHook True [] summerTicket) = summer10Voucher"
  "pricingHook False [PVoucher] (pricingHook True [] summerTicket) = pricingHook True [] summerTicket"
  by (simp_all add: pricingHook_def Let_def summerTicket_def scenarioTicket_def summer10Voucher_def
        validateTicket_def jle_def jsub_def jtruthy_def)

lemma resave_edited:
  "saveTicket False [PVoucher] editedDb (pricingHook True [] summerTicket) =
     Inr (pricingHook True [] summerTicket, editedDb)"
  by (simp add: saveTicket_def storedSummer_facts writeTicket_def
        occupancyPostSave_def updateOccupancy_def editedDb_def frameDb_def emptyDb_def show3_def
        show1500_def Let_def)

lemma resave_frame:
  "saveTicket False [PVoucher] frameDb (pricingHook True [] summerTicket) =
     Inr (pricingHook True [] summerTicket, frameDb)"
  by (simp add: saveTicket_def storedSummer_facts writeTicket_def
        occupancyPostSave_def updateOccupancy_def frameDb_def emptyDb_def show3_def
        show1500_def Let_def)

lemma edit_show:
  "saveSchedule False [PPriceTable] frameDb editedShow =
     Inr (editedShow, frameDb\<lparr>schedules := [editedShow]\<rparr>)"
  by (simp add: saveSchedule_def validateSchedule_def writeSchedule_def
        editedShow_def frameDb_def show3_def show1500_def stdPrices_def Let_def jle_def)

lemma edit_promotion:
  "savePromotion frameDb editedPromotion =
     Inr (editedPromotion, frameDb\<lparr>promotions := [editedPromotion]\<rparr>)"
  by (simp add: savePromotion_def validatePromotion_def editedPromotion_def frameDb_def
        summer10_def jle_def)

lemma use_promotion:
  "incrementUsage frameDb summer10 =
     Inr (summer10\<lparr>pr_currentUses := 1\<rparr>,
          frameDb\<lparr>promotions := [summer10\<lparr>pr_currentUses := 1\<rparr>]\<rparr>)"
  by (simp add: incrementUsage_def savePromotion_def validatePromotion_def truthyInt_def
        frameDb_def summer10_def Let_def jle_def)

theorem snapshot_frame_witness:
  "tickets frameDb = tickets editedDb \<and>
   saveTicket False [PVoucher] frameDb (pricingHook True [] summerTicket) =
     Inr (pricingHook True [] summerTicket, frameDb) \<and>
   saveTicket False [PVoucher] editedDb (pricingHook True [] summerTicket) =
     Inr (pricingHook True [] summerTicket, editedDb) \<and>
   tk_discount (pricingHook True [] summerTicket) = Fin 25000 \<and>
   saveSchedule False [PPriceTable] frameDb editedShow =
     Inr (editedShow, frameDb\<lparr>schedules := [editedShow]\<rparr>) \<and>
   tickets (frameDb\<lparr>schedules := [editedShow]\<rparr>) = tickets frameDb \<and>
   savePromotion frameDb editedPromotion =
     Inr (editedPromotion, frameDb\<lparr>promotions := [editedPromotion]\<rparr>) \<and>
   tickets (frameDb\<lparr>promotions := [editedPromotion]\<rparr>) = tickets frameDb \<and>
   incrementUsage frameDb summer10 =
     Inr (summer10\<lparr>pr_currentUses := 1\<rparr>,
          frameDb\<lparr>promotions := [summer10\<lparr>pr_currentUses := 1\<rparr>]\<rparr>) \<and>
   tickets (frameDb\<lparr>promotions := [summer10\<lparr>pr_currentUses := 1\<rparr>]\<rparr>) = tickets frameDb"
proof -
  have eq: "tickets frameDb = tickets editedDb" by (simp add: editedDb_def)
  from snapshot_frame [of frameDb editedDb False "[PVoucher]" "pricingHook True [] summerTicket"
      False "[PPriceTable]" editedShow editedShow "frameDb\<lparr>schedules := [editedShow]\<rparr>"
      editedPromotion editedPromotion "frameDb\<lparr>promotions := [editedPromotion]\<rparr>"
      summer10 "summer10\<lparr>pr_currentUses := 1\<rparr>"
      "frameDb\<lparr>promotions := [summer10\<lparr>pr_currentUses := 1\<rparr>]\<rparr>"]
    eq resave_frame resave_edited edit_show edit_promotion use_promotion
  show ?thesis by (simp add: storedSummer_facts)
qed

section \<open>C7: the final states\<close>

lemma paymentPreSave_final:
  assumes dist: "distinct (map tk_id (tickets d))"
    and u: "u \<in> set (tickets d)" and fin: "tk_status u = Cancelled \<or> tk_status u = Refunded"
    and u': "u' \<in> set (tickets (snd (paymentPreSave m d p)))" and i: "tk_id u' = tk_id u"
  shows "tk_status u' = tk_status u"
proof (cases "find (\<lambda>t. tk_id t = pm_ticketId p) (tickets d)")
  case None
  with u' have "u' \<in> set (tickets d)" by (simp add: paymentPreSave_def split: if_splits)
  with dist u i have "u' = u" using same_id_same_doc by blast
  then show ?thesis by simp
next
  case (Some ticket)
  define t3 where "t3 =
       (let t1 = ticket\<lparr>tk_paymentStatus := pm_status p\<rparr>;
            t2 = (if pm_status p = PsSuccess \<and> tk_status t1 = Pending
                  then t1\<lparr>tk_status := Paid\<rparr> else t1)
        in (if pm_status p = PsRefunded \<and> tk_status t2 = Paid
            then t2\<lparr>tk_status := Refunded\<rparr> else t2))"
  have id3: "tk_id t3 = tk_id ticket" by (simp add: t3_def Let_def)
  from Some have tk: "ticket \<in> set (tickets d)" using find_SomeD by fast
  show ?thesis
  proof (cases "m \<and> tk_paymentStatus ticket \<noteq> pm_status p")
    case False
    with Some u' have "u' \<in> set (tickets d)"
      by (auto simp: paymentPreSave_def split: if_splits)
    with dist u i have "u' = u" using same_id_same_doc by blast
    then show ?thesis by simp
  next
    case True
    show ?thesis
    proof (cases "saveTicket False [PPaymentStatus, PStatus] d t3")
      case (Inl e)
      with True Some u' have "u' \<in> set (tickets d)"
        by (simp add: paymentPreSave_def t3_def Let_def)
      with dist u i have "u' = u" using same_id_same_doc by blast
      then show ?thesis by simp
    next
      case (Inr r)
      obtain t' d' where r: "r = (t', d')" by (cases r)
      with True Some Inr u' have ud: "u' \<in> set (tickets d')"
        by (simp add: paymentPreSave_def t3_def Let_def)
      from update_keeps_members [OF Inr [unfolded r] dist u ud i]
      have c: "if tk_id u = tk_id t3 then u' = pricingHook False [PPaymentStatus, PStatus] t3 else u' = u" .
      show ?thesis
      proof (cases "tk_id u = tk_id t3")
        case False
        with c show ?thesis by simp
      next
        case True
        with id3 dist u tk have "ticket = u" using same_id_same_doc by metis
        with fin have "tk_status t3 = tk_status u" by (auto simp: t3_def Let_def)
        with c True show ?thesis by (simp add: pricingHook_keeps)
      qed
    qed
  qed
qed

lemma step_cancelled:
  assumes dist: "distinct (map tk_id (tickets d))"
    and u: "u \<in> set (tickets d)" and c: "tk_status u = Cancelled"
    and u': "u' \<in> set (tickets (step d x))" and i: "tk_id u' = tk_id u"
  shows "tk_status u' = Cancelled"
proof -
  have same: "tk_status u' = Cancelled" if "u' \<in> set (tickets d)"
    using same_id_same_doc [OF dist u that i] c by simp
  show ?thesis
  proof (cases x)
    case (Create t)
    show ?thesis
    proof (cases "saveTicket True [] d t")
      case (Inl e)
      with Create u' same show ?thesis by (simp add: step_def)
    next
      case (Inr r)
      obtain t' d' where r: "r = (t', d')" by (cases r)
      from saveTicket_tickets [OF Inr [unfolded r]]
      have w: "writeTicket True (tickets d) t' = Inr (tickets d')" by blast
      then have "tickets d' = tickets d @ [t']" and "tk_id t' \<notin> tk_id ` set (tickets d)"
        by (auto simp: writeTicket_def split: if_splits)
      with Create Inr r u' u i have "u' \<in> set (tickets d)"
        by (auto simp: step_def image_iff)
      then show ?thesis by (rule same)
    qed
  next
    case (Cancel now tid userId reason)
    show ?thesis
    proof (cases "find (\<lambda>t. tk_id t = tid) (tickets d)")
      case None
      with Cancel u' same show ?thesis by (simp add: step_def)
    next
      case (Some t)
      show ?thesis
      proof (cases "cancel now d t userId reason")
        case (Inl e)
        with Cancel Some u' same show ?thesis by (simp add: step_def)
      next
        case (Inr r)
        obtain t' d' where r: "r = (t', d')" by (cases r)
        define tc where "tc = t\<lparr>tk_status := Cancelled, tk_cancellationReason := Some reason,
                 tk_cancelledBy := Some userId, tk_cancelledAt := Some now\<rparr>"
        from Inr r have sv: "saveTicket False [PStatus, PCancellation] d tc = Inr (t', d')"
          by (simp add: cancel_def tc_def split: if_splits)
        from Cancel Some Inr r u' have ud: "u' \<in> set (tickets d')" by (simp add: step_def)
        from update_keeps_members [OF sv dist u ud i]
        have "u' = pricingHook False [PStatus, PCancellation] tc \<or> u' = u"
          by (auto split: if_splits)
        with c show ?thesis by (auto simp: pricingHook_keeps tc_def)
      qed
    qed
  next
    case (PaymentSaved sm p)
    with u' have "u' \<in> set (tickets (snd (paymentPreSave sm d p)))" by (simp add: step_def)
    from paymentPreSave_final [OF dist u _ this i] c show ?thesis by simp
  next
    case (Reap now)
    with u' have "u' \<in> set (tickets d)" by (simp add: step_def ttlReap_def)
    then show ?thesis by (rule same)
  qed
qed

text \<open>
  Claim C7, amended. Cancelling a reservation that is already cancelled fails and
  changes nothing. The payment hook leaves the status of every stored reservation that
  is cancelled or refunded as it is. No operation on the Ticket collection moves a
  stored cancelled reservation to another status. (A refunded reservation is not
  protected against \<open>cancel\<close>, which rejects the status cancelled only.)
\<close>

theorem final_states:
  "(tk_status this = Cancelled \<longrightarrow> cancel now d this userId reason = Inl AlreadyCancelled) \<and>
   (distinct (map tk_id (tickets d)) \<and> u \<in> set (tickets d) \<and>
    (tk_status u = Cancelled \<or> tk_status u = Refunded) \<and>
    u' \<in> set (tickets (snd (paymentPreSave m d p))) \<and> tk_id u' = tk_id u \<longrightarrow>
      tk_status u' = tk_status u) \<and>
   (distinct (map tk_id (tickets d)) \<and> u \<in> set (tickets d) \<and> tk_status u = Cancelled \<and>
    w \<in> set (tickets (step d x)) \<and> tk_id w = tk_id u \<longrightarrow> tk_status w = Cancelled)"
  using paymentPreSave_final [of d u u' m p] step_cancelled [of d u w x]
  by (simp add: cancel_def)

theorem final_states_witness:
  "tk_status cancelledTicket = Cancelled \<and>
   cancel 5000 cancelledDb cancelledTicket 9 ''again'' = Inl AlreadyCancelled \<and>
   tk_status refundedTicket = Refunded \<and>
   tickets (snd (paymentPreSave True refundedDb failedPayment)) =
     [refundedTicket\<lparr>tk_paymentStatus := PsFailed\<rparr>] \<and>
   tk_status (refundedTicket\<lparr>tk_paymentStatus := PsFailed\<rparr>) = Refunded \<and>
   tickets (step cancelledDb (PaymentSaved True failedPayment)) =
     [cancelledTicket\<lparr>tk_paymentStatus := PsFailed\<rparr>] \<and>
   tk_status (cancelledTicket\<lparr>tk_paymentStatus := PsFailed\<rparr>) = Cancelled"
proof -
  have s: "tickets (step cancelledDb (PaymentSaved True failedPayment)) =
     [cancelledTicket\<lparr>tk_paymentStatus := PsFailed\<rparr>]"
    by (simp add: step_def cancelled_failed)
  have r: "tickets (snd (paymentPreSave True refundedDb failedPayment)) =
     [refundedTicket\<lparr>tk_paymentStatus := PsFailed\<rparr>]"
    by (simp add: refunded_failed)
  have ok: "distinct (map tk_id (tickets cancelledDb))"
    by (simp add: cancelledDb_def)
  have m: "cancelledTicket \<in> set (tickets cancelledDb)" "refundedTicket \<in> set (tickets refundedDb)"
    "distinct (map tk_id (tickets refundedDb))"
    by (simp_all add: cancelledDb_def refundedDb_def)
  have c1: "cancel 5000 cancelledDb cancelledTicket 9 ''again'' = Inl AlreadyCancelled"
    using final_states [of cancelledTicket 5000 cancelledDb 9 "''again''"]
    by (simp add: cancelled_facts)
  have c2: "tk_status (refundedTicket\<lparr>tk_paymentStatus := PsFailed\<rparr>) = Refunded"
    using final_states [of cancelledTicket 5000 refundedDb 9 "''again''" refundedTicket
      "refundedTicket\<lparr>tk_paymentStatus := PsFailed\<rparr>" True failedPayment] r m
    by (simp add: refunded_facts)
  have c3: "tk_status (cancelledTicket\<lparr>tk_paymentStatus := PsFailed\<rparr>) = Cancelled"
    using final_states [of cancelledTicket 5000 cancelledDb 9 "''again''" cancelledTicket
      cancelledTicket True failedPayment "cancelledTicket\<lparr>tk_paymentStatus := PsFailed\<rparr>"
      "PaymentSaved True failedPayment"] s ok m
    by (simp add: cancelled_facts)
  from c1 c2 c3 s r show ?thesis by (simp add: cancelled_facts refunded_facts)
qed

text \<open>
  Claim C7 as stated fails for a refunded reservation: \<open>cancel\<close> succeeds and stores it
  with the status cancelled.
\<close>

theorem final_states_counterexample:
  "tk_status refundedTicket = Refunded \<and>
   cancel 5000 refundedDb refundedTicket 9 ''changed plans'' =
     Inr (refundedTicket\<lparr>tk_status := Cancelled, tk_cancellationReason := Some ''changed plans'',
                         tk_cancelledBy := Some 9, tk_cancelledAt := Some 5000\<rparr>,
          emptyDb\<lparr>tickets :=
            [refundedTicket\<lparr>tk_status := Cancelled,
                            tk_cancellationReason := Some ''changed plans'',
                            tk_cancelledBy := Some 9, tk_cancelledAt := Some 5000\<rparr>]\<rparr>)"
  by (simp add: cancel_def refundedDb_def refunded_facts update_single refunded_cancel_valid)

section \<open>C8: the usage cap\<close>

text \<open>
  With a cap other than 0 the counter stays within the cap: \<open>incrementUsage\<close> adds one
  below the cap and fails at the cap, and \<open>validateAndApply\<close> rejects a promotion at
  its cap as exhausted.
\<close>

lemma incrementUsage_within_cap:
  assumes "incrementUsage d p = Inr (p', d')" "pr_maxUses p = Value m" "m \<noteq> 0"
    "pr_currentUses p \<le> m"
  shows "pr_maxUses p' = Value m \<and> pr_currentUses p' = pr_currentUses p + 1 \<and>
         pr_currentUses p' \<le> m"
  using assms
  by (auto simp: incrementUsage_def savePromotion_def truthyInt_def Let_def split: if_splits)

lemma incrementUsage_at_cap:
  assumes "pr_maxUses p = Value m" "m \<noteq> 0" "m \<le> pr_currentUses p"
  shows "incrementUsage d p = Inl UsageLimitReached"
  using assms by (simp add: incrementUsage_def truthyInt_def)

lemma validateAndApply_exhausted:
  assumes "find (\<lambda>p. pr_code p = up code \<and> pr_isActive p \<and>
                      pr_startDate p \<le> now \<and> pr_endDate p \<ge> now) (promotions d) = Some p"
    and "pr_maxUses p = Value m" "m \<noteq> 0" "m \<le> pr_currentUses p"
  shows "validateAndApply up now d code userId amount movieId genres = Inl PromotionExhausted"
  using assms by (simp add: validateAndApply_def truthyInt_def)

lemma upper_never: "toUpperCaseAscii ''NEVER'' = ''NEVER''"
  by code_simp

text \<open>
  Claim C8 at a promotion with a usage cap of 0 and no use so far: \<open>validateAndApply\<close>
  does not reject it as exhausted, and \<open>incrementUsage\<close> succeeds and stores
  \<open>currentUses = 1\<close>, above the cap, while \<open>isCurrentlyActive\<close> treats the same cap
  as reached.
\<close>

theorem usage_cap_zero_exceeded:
  "pr_maxUses zeroUses = Value 0 \<and> pr_currentUses zeroUses = 0 \<and>
   validateAndApply toUpperCaseAscii 50 zeroUsesDb ''NEVER'' None (Fin 1000) None [] =
     Inr \<lparr>ap_id = 1, ap_code = ''NEVER'', ap_type = Percent, ap_value = Fin 10,
          ap_maxDiscount = Some (Fin 25000), ap_discountAmount = Fin 100\<rparr> \<and>
   incrementUsage zeroUsesDb zeroUses =
     Inr (zeroUses\<lparr>pr_currentUses := 1\<rparr>,
          zeroUsesDb\<lparr>promotions := [zeroUses\<lparr>pr_currentUses := 1\<rparr>]\<rparr>) \<and>
   isCurrentlyActive 50 zeroUses = False"
  by (simp add: zeroUses_def zeroUsesDb_def summer10_def validateAndApply_def upper_never
        truthyInt_def incrementUsage_def savePromotion_def validatePromotion_def
        isCurrentlyActive_def Let_def jle_def jtruthy_def)

section \<open>C9: customer eligibility\<close>

text \<open>
  Claim C9, amended. For a currently active promotion and an existing customer,
  \<open>canBeUsedByUser\<close> holds exactly when the first-time-customer rule, if set, finds no
  prior reservation of the customer of any status, the minimum-prior-orders rule, if
  positive, is met by the count of the customer's paid reservations, and the
  one-use-per-customer rule, if set, finds no reservation of the customer that is not
  cancelled and carries the promotion's code. It fails for an inactive promotion and
  for an unknown customer.
\<close>

theorem customer_eligibility:
  "(isCurrentlyActive now p \<and> userId \<in> set (users d) \<longrightarrow>
      canBeUsedByUser now d p userId =
        ((ur_firstTimeUserOnly (pr_restrictions p) \<longrightarrow> priorOrders d userId = 0) \<and>
         (0 < ur_minPreviousOrders (pr_restrictions p) \<longrightarrow>
            ur_minPreviousOrders (pr_restrictions p) \<le> int (priorPaidOrders d userId)) \<and>
         (ur_onePerUser (pr_restrictions p) \<longrightarrow> priorUses d userId (pr_code p) = 0))) \<and>
   (\<not> isCurrentlyActive now p \<or> userId \<notin> set (users d) \<longrightarrow> \<not> canBeUsedByUser now d p userId)"
  by (auto simp: canBeUsedByUser_def priorOrders_def priorPaidOrders_def priorUses_def)

lemma firstTime_active: "isCurrentlyActive 50 firstTimePromotion"
  by (simp add: isCurrentlyActive_def firstTimePromotion_def summer10_def)

lemma returning_counts:
  "priorOrders returningDb 7 = 1" "priorPaidOrders returningDb 7 = 0"
  by (simp_all add: priorOrders_def priorPaidOrders_def returningDb_def cancelled_user
        cancelled_facts)

theorem customer_eligibility_witness:
  "isCurrentlyActive 50 firstTimePromotion \<and> 7 \<in> set (users newcomerDb) \<and>
   priorOrders newcomerDb 7 = 0 \<and> canBeUsedByUser 50 newcomerDb firstTimePromotion 7 \<and>
   7 \<in> set (users returningDb) \<and> priorOrders returningDb 7 = 1 \<and>
   \<not> canBeUsedByUser 50 returningDb firstTimePromotion 7 \<and>
   \<not> canBeUsedByUser 50 returningDb firstTimePromotion 8"
proof -
  have u: "7 \<in> set (users newcomerDb)" "7 \<in> set (users returningDb)"
    "8 \<notin> set (users returningDb)"
    by (simp_all add: newcomerDb_def returningDb_def)
  have n: "priorOrders newcomerDb 7 = 0"
    by (simp add: priorOrders_def newcomerDb_def emptyDb_def)
  have r: "ur_firstTimeUserOnly (pr_restrictions firstTimePromotion)"
    "ur_minPreviousOrders (pr_restrictions firstTimePromotion) = 0"
    "\<not> ur_onePerUser (pr_restrictions firstTimePromotion)"
    by (simp_all add: firstTimePromotion_def)
  from customer_eligibility [of 50 firstTimePromotion 7 newcomerDb]
    customer_eligibility [of 50 firstTimePromotion 7 returningDb]
    customer_eligibility [of 50 firstTimePromotion 8 returningDb]
    firstTime_active u n r returning_counts
  show ?thesis by simp
qed

text \<open>
  Claim C9 as stated fails for a customer whose only reservation is cancelled: there
  is no prior paid reservation, and the first-time-customer check rejects.
\<close>

theorem customer_eligibility_counterexample:
  "ur_firstTimeUserOnly (pr_restrictions firstTimePromotion) \<and>
   isCurrentlyActive 50 firstTimePromotion \<and> 7 \<in> set (users returningDb) \<and>
   priorPaidOrders returningDb 7 = 0 \<and>
   \<not> canBeUsedByUser 50 returningDb firstTimePromotion 7"
proof -
  have "ur_firstTimeUserOnly (pr_restrictions firstTimePromotion)"
    by (simp add: firstTimePromotion_def)
  moreover have "7 \<in> set (users returningDb)" by (simp add: returningDb_def)
  moreover have "\<not> canBeUsedByUser 50 returningDb firstTimePromotion 7"
    using calculation by (simp add: canBeUsedByUser_def returningDb_def cancelled_user)
  ultimately show ?thesis by (simp add: firstTime_active returning_counts)
qed

section \<open>C10: the generated seat map\<close>

declare decimal.simps [simp del] colLoop.simps [simp del] rowLoop.simps [simp del]

lemma colLoop_closed:
  "colLoop capacity spr row col (n, seats) =
     (n + min (Suc spr - col) (capacity - n),
      seats @ map (seatAt row) [col ..< col + min (Suc spr - col) (capacity - n)])"
proof (induction "Suc spr - col" arbitrary: col n seats)
  case 0
  then have "\<not> (col \<le> spr \<and> n < capacity)" by simp
  with 0 show ?case by (subst colLoop.simps) simp
next
  case (Suc d)
  show ?case
  proof (cases "n < capacity")
    case False
    then show ?thesis by (subst colLoop.simps) simp
  next
    case True
    with Suc.hyps(2) have c: "col \<le> spr \<and> n < capacity" by simp
    define k where "k = min (Suc spr - Suc col) (capacity - Suc n)"
    from c have m: "min (Suc spr - col) (capacity - n) = Suc k"
      by (auto simp: k_def)
    have u: "[col ..< col + Suc k] = col # [Suc col ..< col + Suc k]"
      by (rule upt_conv_Cons) simp
    have "colLoop capacity spr row col (n, seats) =
          colLoop capacity spr row (Suc col) (Suc n, seats @ [seatAt row col])"
      using c by (subst colLoop.simps) (simp add: seatAt_def)
    also have "\<dots> = (Suc n + k, (seats @ [seatAt row col]) @
           map (seatAt row) [Suc col ..< Suc col + k])"
      unfolding k_def using Suc.hyps(2) by (intro Suc.hyps(1)) simp
    also have "\<dots> = (n + Suc k, seats @ map (seatAt row) [col ..< col + Suc k])"
      unfolding u by simp
    finally show ?thesis unfolding m .
  qed
qed

lemma row_block:
  assumes "k \<le> spr"
  shows "map (seatAt row) [1 ..< 1 + k] = map (seatNo spr) [row * spr ..< row * spr + k]"
proof (rule nth_equalityI)
  show "length (map (seatAt row) [1 ..< 1 + k]) = length (map (seatNo spr) [row * spr ..< row * spr + k])"
    by (simp del: upt_Suc)
  fix i assume "i < length (map (seatAt row) [1 ..< 1 + k])"
  then have i: "i < k" by (simp del: upt_Suc)
  with assms have "i < spr" by simp
  then have "(row * spr + i) div spr = row" "(row * spr + i) mod spr = i" by simp_all
  with i show "map (seatAt row) [1 ..< 1 + k] ! i = map (seatNo spr) [row * spr ..< row * spr + k] ! i"
    by (simp add: seatNo_def del: upt_Suc)
qed

lemma rowLoop_closed:
  "row \<le> rows \<Longrightarrow>
   rowLoop capacity rows spr row
     (min capacity (row * spr), map (seatNo spr) [0 ..< min capacity (row * spr)]) =
   map (seatNo spr) [0 ..< min capacity (rows * spr)]"
proof (induction "rows - row" arbitrary: row)
  case 0
  then show ?case by (simp add: rowLoop.simps)
next
  case (Suc d)
  then have lt: "row < rows" by simp
  show ?case
  proof (cases "min capacity (row * spr) < capacity")
    case False
    then have "min capacity (row * spr) = capacity" by simp
    moreover from lt have "row * spr \<le> rows * spr" by (intro mult_le_mono1) simp
    ultimately have "min capacity (rows * spr) = min capacity (row * spr)" using False by linarith
    with False show ?thesis by (simp add: rowLoop.simps)
  next
    case True
    then have n: "min capacity (row * spr) = row * spr" by simp
    define k where "k = min spr (capacity - row * spr)"
    have k: "k \<le> spr" by (simp add: k_def)
    from True have lt2: "row * spr < capacity" by simp
    have "a < capacity \<Longrightarrow> a + min spr (capacity - a) = min capacity (spr + a)" for a :: nat
      by arith
    from this [OF lt2] have n': "row * spr + k = min capacity (Suc row * spr)"
      by (simp add: k_def)
    have "rowLoop capacity rows spr row (row * spr, map (seatNo spr) [0 ..< row * spr]) =
          rowLoop capacity rows spr (row + 1)
            (colLoop capacity spr row 1 (row * spr, map (seatNo spr) [0 ..< row * spr]))"
      using lt True n by (subst rowLoop.simps) simp
    also have "colLoop capacity spr row 1 (row * spr, map (seatNo spr) [0 ..< row * spr]) =
          (row * spr + k, map (seatNo spr) [0 ..< row * spr] @ map (seatAt row) [1 ..< 1 + k])"
      by (simp add: colLoop_closed k_def)
    also have "map (seatNo spr) [0 ..< row * spr] @ map (seatAt row) [1 ..< 1 + k] =
               map (seatNo spr) [0 ..< row * spr + k]"
      by (simp only: row_block [OF k] upt_add_eq_append [OF le0] map_append)
    finally have "rowLoop capacity rows spr row (row * spr, map (seatNo spr) [0 ..< row * spr]) =
       rowLoop capacity rows spr (Suc row)
         (min capacity (Suc row * spr), map (seatNo spr) [0 ..< min capacity (Suc row * spr)])"
      by (simp add: n')
    also have "\<dots> = map (seatNo spr) [0 ..< min capacity (rows * spr)]"
      using Suc.hyps(2) lt by (intro Suc.hyps(1)) simp_all
    finally show ?thesis by (simp add: n)
  qed
qed

lemma generateSeatMap_closed:
  "generateSeatMap this =
     map (seatNo (seatsPerRowOf (rm_capacity this) (rowsOf (rm_capacity this))))
       [0 ..< min (rm_capacity this)
                (rowsOf (rm_capacity this) *
                 seatsPerRowOf (rm_capacity this) (rowsOf (rm_capacity this)))]"
  using rowLoop_closed [of 0 "rowsOf (rm_capacity this)" "rm_capacity this"
      "seatsPerRowOf (rm_capacity this) (rowsOf (rm_capacity this))"]
  by (simp add: generateSeatMap_def Let_def)

lemma rowsOf_eq:
  assumes "0 < r" "2 * (r - 1)\<^sup>2 < 3 * c" "3 * c \<le> 2 * r\<^sup>2"
  shows "rowsOf c = r"
proof -
  let ?x = "real c * 1.5"
  have x: "?x = real (3 * c) / 2" by simp
  from assms(3) have "real (3 * c) \<le> real (2 * r\<^sup>2)" by (simp only: of_nat_le_iff)
  then have "?x \<le> (real r)\<^sup>2" unfolding x by simp
  then have up: "sqrt ?x \<le> real r" by (simp add: real_le_lsqrt)
  from assms(2) have "real (2 * (r - 1)\<^sup>2) < real (3 * c)" by (simp only: of_nat_less_iff)
  then have "(real (r - 1))\<^sup>2 < ?x" unfolding x by simp
  then have "real (r - 1) < sqrt ?x" by (rule real_less_rsqrt)
  with assms(1) have lo: "of_int (int r) - 1 < sqrt ?x" by simp
  from up have "sqrt ?x \<le> of_int (int r)" by simp
  with lo have "\<lceil>sqrt ?x\<rceil> = int r" by (rule ceiling_unique)
  then show ?thesis by (simp add: rowsOf_def)
qed

text \<open>
  Up to capacity 450 the rows stay inside the alphabet, and the generated map is as
  intended: as many seats as the capacity, pairwise distinct codes made of the row
  letter and the column number, the first two rows vip, every seat available.
\<close>

lemma decimal_not_Nil: "decimal n \<noteq> []"
  by (subst decimal.simps) simp

lemma digitChar_inj: "a < 10 \<Longrightarrow> b < 10 \<Longrightarrow> digitChar a = digitChar b \<Longrightarrow> a = b"
proof -
  assume a: "a < 10" and b: "b < 10" and e: "digitChar a = digitChar b"
  from e have "of_char (char_of (48 + a)) = (of_char (char_of (48 + b)) :: nat)"
    by (simp add: digitChar_def)
  then have "(48 + a) mod 256 = (48 + b) mod 256" by simp
  with a b show ?thesis by simp
qed

lemma decimal_inj: "decimal m = decimal n \<Longrightarrow> m = n"
proof (induction m arbitrary: n rule: less_induct)
  case (less m)
  show ?case
  proof (cases "m < 10")
    case True
    then have dm: "decimal m = [digitChar m]" by (subst decimal.simps) simp
    show ?thesis
    proof (cases "n < 10")
      case n: True
      then have "decimal n = [digitChar n]" by (subst decimal.simps) simp
      with dm less.prems True n show ?thesis by (auto dest: digitChar_inj)
    next
      case False
      then have "decimal n = decimal (n div 10) @ [digitChar (n mod 10)]"
        by (subst decimal.simps) simp
      with dm less.prems decimal_not_Nil [of "n div 10"] show ?thesis
        by (cases "decimal (n div 10)") auto
    qed
  next
    case False
    then have dm: "decimal m = decimal (m div 10) @ [digitChar (m mod 10)]"
      by (subst decimal.simps) simp
    show ?thesis
    proof (cases "n < 10")
      case True
      then have "decimal n = [digitChar n]" by (subst decimal.simps) simp
      with dm less.prems decimal_not_Nil [of "m div 10"] show ?thesis
        by (cases "decimal (m div 10)") auto
    next
      case n: False
      then have "decimal n = decimal (n div 10) @ [digitChar (n mod 10)]"
        by (subst decimal.simps) simp
      with dm less.prems have e: "decimal (m div 10) = decimal (n div 10)"
        and d: "digitChar (m mod 10) = digitChar (n mod 10)" by simp_all
      from False have "m div 10 < m" by simp
      from less.IH [OF this e] have q: "m div 10 = n div 10" .
      from d have r: "m mod 10 = n mod 10" by (rule digitChar_inj [rotated 2]) simp_all
      from q r show ?thesis by (metis div_mult_mod_eq)
    qed
  qed
qed

lemma alphabet_distinct: "distinct alphabet" "length alphabet = 26"
  by (simp_all add: alphabet_def)

lemma rowLetter_inj:
  "r < 26 \<Longrightarrow> r' < 26 \<Longrightarrow> rowLetter r @ u = rowLetter r' @ u' \<Longrightarrow> r = r' \<and> u = u'"
  using alphabet_distinct by (auto simp: rowLetter_def nth_eq_iff_index_eq)

lemma rowsOf_bounds:
  assumes "1 \<le> c" "c \<le> 450"
  shows "1 \<le> rowsOf c \<and> rowsOf c \<le> 26"
proof -
  let ?x = "real c * 1.5"
  from assms(1) have "0 < ?x" by simp
  then have "0 < sqrt ?x" by simp
  then have lo: "1 \<le> \<lceil>sqrt ?x\<rceil>" by linarith
  from assms(2) have "real c \<le> 450" by simp
  then have "?x \<le> 26\<^sup>2" by simp
  then have "sqrt ?x \<le> 26" by (intro real_le_lsqrt) simp_all
  then have hi: "\<lceil>sqrt ?x\<rceil> \<le> 26" by (simp add: ceiling_le_iff)
  have "rowsOf c = nat \<lceil>sqrt ?x\<rceil>" by (simp only: rowsOf_def)
  with lo hi show ?thesis by linarith
qed

lemma seatsPerRowOf_covers:
  assumes "0 < rows"
  shows "c \<le> rows * seatsPerRowOf c rows"
proof -
  have "real c / real rows \<le> of_int \<lceil>real c / real rows\<rceil>" by (rule le_of_int_ceiling)
  also have "\<dots> = real (seatsPerRowOf c rows)"
    by (simp add: seatsPerRowOf_def)
  finally have "real c \<le> real (seatsPerRowOf c rows) * real rows"
    using assms by (simp add: divide_le_eq)
  then have "real c \<le> real (rows * seatsPerRowOf c rows)" by (simp add: mult.commute)
  then show ?thesis by (simp only: of_nat_le_iff)
qed

lemma seat_map_small_room:
  assumes c1: "1 \<le> rm_capacity this" and c2: "rm_capacity this \<le> 450"
  shows "length (generateSeatMap this) = rm_capacity this"
    and "distinct (map rs_code (generateSeatMap this))"
    and "\<forall>s \<in> set (generateSeatMap this).
           rs_row s < 26 \<and> rs_code s = [alphabet ! rs_row s] @ decimal (Suc (rs_column s)) \<and>
           (rs_type s = (if rs_row s < 2 then Vip else Standard)) \<and> rs_status s = Available"
proof -
  define c where "c = rm_capacity this"
  define rows where "rows = rowsOf c"
  define spr where "spr = seatsPerRowOf c rows"
  from rowsOf_bounds c1 c2 have rows: "1 \<le> rows" "rows \<le> 26" by (simp_all add: rows_def c_def)
  then have cover: "c \<le> rows * spr" unfolding spr_def by (intro seatsPerRowOf_covers) simp
  with c1 have spr0: "0 < spr" by (cases spr) (simp_all add: c_def)
  have gen: "generateSeatMap this = map (seatNo spr) [0 ..< c]"
    using cover by (simp add: generateSeatMap_closed c_def rows_def spr_def min_def)
  have row: "i div spr < 26" if "i < c" for i
  proof -
    from that cover have "i < rows * spr" by simp
    then have "i div spr < rows" using spr0 by (simp add: less_mult_imp_div_less)
    with rows show ?thesis by simp
  qed
  show "length (generateSeatMap this) = rm_capacity this" by (simp add: gen c_def)
  have "inj_on (\<lambda>i. rs_code (seatNo spr i)) {0 ..< c}"
  proof (rule inj_onI)
    fix i j assume i: "i \<in> {0 ..< c}" and j: "j \<in> {0 ..< c}"
      and e: "rs_code (seatNo spr i) = rs_code (seatNo spr j)"
    from e have "rowLetter (i div spr) @ decimal (i mod spr + 1) =
                 rowLetter (j div spr) @ decimal (j mod spr + 1)"
      by (simp add: seatNo_def seatAt_def)
    with row i j have "i div spr = j div spr \<and> decimal (i mod spr + 1) = decimal (j mod spr + 1)"
      by (intro rowLetter_inj) simp_all
    then have "i div spr = j div spr" "i mod spr = j mod spr" by (auto dest: decimal_inj)
    then show "i = j" by (metis div_mult_mod_eq)
  qed
  then show "distinct (map rs_code (generateSeatMap this))"
    by (simp add: gen distinct_map comp_def)
  show "\<forall>s \<in> set (generateSeatMap this).
           rs_row s < 26 \<and> rs_code s = [alphabet ! rs_row s] @ decimal (Suc (rs_column s)) \<and>
           (rs_type s = (if rs_row s < 2 then Vip else Standard)) \<and> rs_status s = Available"
    using row by (auto simp: gen seatNo_def seatAt_def rowLetter_def alphabet_distinct)
qed

text \<open>Capacity 487 evaluated.\<close>

lemma rowsOf_487: "rowsOf 487 = 28"
  by (rule rowsOf_eq) simp_all

lemma seatsPerRowOf_487: "seatsPerRowOf 487 28 = 18"
  by (simp add: seatsPerRowOf_def)

lemma seatMap_487: "generateSeatMap room487 = map (seatNo 18) [0 ..< 487]"
  by (simp add: generateSeatMap_closed room487_def rowsOf_487 seatsPerRowOf_487)

lemma decimal_1: "decimal (Suc 0) = ''1''"
  by (subst decimal.simps) (simp add: digitChar_def char_of_def bit_0)

lemma seatNo_468: "rs_code (seatNo 18 468) = ''undefined1''"
  by (simp add: seatNo_def seatAt_def rowLetter_def alphabet_def decimal_1)

lemma seatNo_486: "rs_code (seatNo 18 486) = ''undefined1''"
  by (simp add: seatNo_def seatAt_def rowLetter_def alphabet_def decimal_1)

lemma repeated_not_distinct:
  "xs ! i = xs ! j \<Longrightarrow> i < length xs \<Longrightarrow> j < length xs \<Longrightarrow> i \<noteq> j \<Longrightarrow> \<not> distinct xs"
  by (auto simp: distinct_conv_nth)

lemma cast_undefined1: "toUpperCaseAscii (trim ''undefined1'') = ''UNDEFINED1''"
  by code_simp

lemma cast_487:
  "i < 487 \<Longrightarrow> rs_code (seatNo 18 i) = ''undefined1'' \<Longrightarrow>
     rs_code (map castSeat (map (seatNo 18) [0 ..< 487]) ! i) = ''UNDEFINED1''"
  by (simp add: castSeat_def cast_undefined1 del: upt_Suc)

text \<open>
  Claim C10 at a new room of capacity 487: the save succeeds and generates 487 seats
  in 28 rows of 18; rows 26 and 27 lie past the 26 letters of the alphabet, so the
  seats number 468 and 486 are both generated with the code \<open>undefined1\<close> and stored
  with the code \<open>UNDEFINED1\<close>: the codes are not pairwise distinct, and not made of a
  row letter and a column number.
\<close>

theorem seat_map_repeats_codes:
  "saveRoom True False room487 = Inr (roomPreSave True False room487) \<and>
   rm_capacity (roomPreSave True False room487) = 487 \<and>
   length (rm_seats (roomPreSave True False room487)) = 487 \<and>
   rs_code (generateSeatMap room487 ! 468) = ''undefined1'' \<and>
   rs_code (generateSeatMap room487 ! 486) = ''undefined1'' \<and>
   rs_code (rm_seats (roomPreSave True False room487) ! 468) = ''UNDEFINED1'' \<and>
   rs_code (rm_seats (roomPreSave True False room487) ! 486) = ''UNDEFINED1'' \<and>
   \<not> distinct (map rs_code (rm_seats (roomPreSave True False room487)))"
proof -
  have seats: "rm_seats (roomPreSave True False room487) =
                 map castSeat (map (seatNo 18) [0 ..< 487])"
    by (simp add: roomPreSave_def Let_def seatMap_487 del: upt_Suc)
  have cap: "rm_capacity (roomPreSave True False room487) = 487"
    by (simp add: roomPreSave_def Let_def seatMap_487 del: upt_Suc)
  have a: "rs_code (map (seatNo 18) [0 ..< 487] ! 468) = ''undefined1''"
    using seatNo_468 by (simp del: upt_Suc)
  have b: "rs_code (map (seatNo 18) [0 ..< 487] ! 486) = ''undefined1''"
    using seatNo_486 by (simp del: upt_Suc)
  have a': "rs_code (map castSeat (map (seatNo 18) [0 ..< 487]) ! 468) = ''UNDEFINED1''"
    using seatNo_468 by (intro cast_487) simp_all
  have b': "rs_code (map castSeat (map (seatNo 18) [0 ..< 487]) ! 486) = ''UNDEFINED1''"
    using seatNo_486 by (intro cast_487) simp_all
  have "map rs_code (map castSeat (map (seatNo 18) [0 ..< 487])) ! 468 =
        map rs_code (map castSeat (map (seatNo 18) [0 ..< 487])) ! 486"
    using a' b' by (simp del: upt_Suc)
  then have nd: "\<not> distinct (map rs_code (map castSeat (map (seatNo 18) [0 ..< 487])))"
    by (rule repeated_not_distinct) (simp_all del: upt_Suc)
  have v: "saveRoom True False room487 = Inr (roomPreSave True False room487)"
    by (simp add: saveRoom_def validateRoom_def room487_def)
  from v cap a b a' b' nd show ?thesis
    unfolding seats seatMap_487 by (simp del: upt_Suc)
qed

end
